(* ===== verification/Types.thy ===== *)
theory Types
  imports Prelude "HOL-Library.Word"
begin

text \<open>
  The host-side data of the runtime: the mirrors of the WIT records in \<open>types.rs\<close>, the error
  types of \<open>error.rs\<close> and \<open>types.rs\<close> with their \<open>Display\<close> text and stable codes, the health type
  of \<open>health.rs\<close>, and the maps of \<open>ext_error.rs\<close> from the two WIT \<open>extension-error\<close> variants onto
  the single host error. What the lemmas show: every map keeps the variant's code and its message,
  so nothing is collapsed on the way to the response envelope.

  Types that belong to the SDK (\<open>Surface\<close>, \<open>Placement\<close>, \<open>Visibility\<close>, \<open>SecretRequirement\<close>) are
  type variables. A path is abstract here and made concrete in the theory on paths.
\<close>

section \<open>Records mirrored from WIT\<close>

record ('su, 'pl, 'vi, 'path) view_definition =
  vd_id :: string
  vd_surface :: 'su
  vd_title_key :: string
  vd_title_fallback :: string
  vd_icon :: "string option"
  vd_entry :: string
  vd_placement :: 'pl
  vd_min_visibility :: 'vi
  vd_tools :: "string list"
  vd_asset_dir :: 'path
  vd_entry_path :: 'path

record 'secret tool_definition =
  td_name :: string
  td_description :: string
  td_input_schema_json :: string
  td_output_schema_json :: "string option"
  td_capabilities :: "string list option"
  td_agentic_worker_metadata :: "string option"
  td_secret_requirements :: "'secret list"

record prompt_fragment =
  pf_section :: string
  pf_content_markdown :: string
  pf_priority :: "32 word"

record knowledge_entry_summary =
  ks_id :: string
  ks_title :: string
  ks_category :: string
  ks_tags :: "string list"

record knowledge_entry =
  ke_id :: string
  ke_title :: string
  ke_category :: string
  ke_tags :: "string list"
  ke_content_json :: string

datatype severity = SevError | SevWarning | SevInfo | SevHint

record diagnostic =
  dg_severity :: severity
  dg_code :: string
  dg_message :: string
  dg_path :: "string option"

record target_summary =
  ts_id :: string
  ts_display_name :: string
  ts_description :: string
  ts_icon_path :: "string option"
  ts_supports_rollback :: bool

record deploy_request =
  dr_target_id :: string
  dr_artifact_bytes :: string
  dr_credentials_json :: string
  dr_config_json :: string
  dr_deployment_name :: string

datatype deploy_status =
  Pending | Provisioning | Configuring | Starting | Running | Failed | RolledBack

record deploy_job =
  dj_id :: string
  dj_status :: deploy_status
  dj_message :: string
  dj_endpoints :: "string list"

record validate_result =
  vr_valid :: bool
  vr_diagnostics :: "diagnostic list"

record bundle_session =
  bs_flows_json :: string
  bs_contents_json :: string
  bs_assets :: "(string \<times> string) list"
  bs_capabilities_used :: "string list"

record bundle_artifact =
  ba_filename :: string
  ba_bytes :: string
  ba_sha256 :: string

datatype target_kind = AdaptiveCard | SlackBlockKit | TeamsCard | PlainText

record role_spec =
  rs_name :: string
  rs_description :: string
  rs_json_schema :: string
  rs_target :: target_kind
  rs_schema_version :: "32 word"
  rs_context_aware :: bool

record compile_context =
  cc_flow_entries_json :: string
  cc_flow_id :: "string option"
  cc_locale :: string

text \<open>
  The redacting \<open>Debug\<close> of a deploy request: the credentials are replaced by a fixed marker and the
  artifact by its length. Each entry is a field name with its rendered value.
\<close>

definition deploy_request_debug ::
  "(string \<Rightarrow> string) \<Rightarrow> deploy_request \<Rightarrow> (string \<times> string) list" where
  "deploy_request_debug dbg r =
     [(''target_id'', dbg (dr_target_id r)),
      (''artifact_bytes'', ''<'' @ show_nat (length (dr_artifact_bytes r)) @ '' bytes>''),
      (''credentials_json'', dbg ''<redacted>''),
      (''config_json'', dbg (dr_config_json r)),
      (''deployment_name'', dbg (dr_deployment_name r))]"

section \<open>Errors\<close>

datatype deploy_extension_error =
    D_InvalidInput string
  | D_MissingCapability string
  | D_PermissionDenied string
  | D_NotFound string
  | D_SchemaInvalid string
  | D_Internal string

datatype host_extension_error =
    H_InvalidInput string
  | H_MissingCapability string
  | H_PermissionDenied string
  | H_NotFound string
  | H_SchemaInvalid string
  | H_Internal string

datatype role_error =
    UnknownRole string
  | R_InvalidInput "diagnostic list"
  | CompileFailed string
  | TargetNotSupported target_kind
  | VersionNotSupported "32 word"
  | R_Host host_extension_error

fun code :: "host_extension_error \<Rightarrow> string" where
  "code (H_InvalidInput _) = ''invalid-input''"
| "code (H_MissingCapability _) = ''missing-capability''"
| "code (H_PermissionDenied _) = ''permission-denied''"
| "code (H_NotFound _) = ''not-found''"
| "code (H_SchemaInvalid _) = ''schema-invalid''"
| "code (H_Internal _) = ''internal''"

fun message :: "host_extension_error \<Rightarrow> string" where
  "message (H_InvalidInput s) = s"
| "message (H_MissingCapability s) = s"
| "message (H_PermissionDenied s) = s"
| "message (H_NotFound s) = s"
| "message (H_SchemaInvalid s) = s"
| "message (H_Internal s) = s"

fun display_host :: "host_extension_error \<Rightarrow> string" where
  "display_host (H_InvalidInput s) = ''invalid input: '' @ s"
| "display_host (H_MissingCapability s) = ''missing capability: '' @ s"
| "display_host (H_PermissionDenied s) = ''permission denied: '' @ s"
| "display_host (H_NotFound s) = ''not found: '' @ s"
| "display_host (H_SchemaInvalid s) = ''schema invalid: '' @ s"
| "display_host (H_Internal s) = ''internal: '' @ s"

fun display_deploy :: "deploy_extension_error \<Rightarrow> string" where
  "display_deploy (D_InvalidInput s) = ''invalid input: '' @ s"
| "display_deploy (D_MissingCapability s) = ''missing capability: '' @ s"
| "display_deploy (D_PermissionDenied s) = ''permission denied: '' @ s"
| "display_deploy (D_NotFound s) = ''not found: '' @ s"
| "display_deploy (D_SchemaInvalid s) = ''schema invalid: '' @ s"
| "display_deploy (D_Internal s) = ''internal: '' @ s"

text \<open>The rendering of diagnostics and of a target under \<open>Debug\<close> is a parameter.\<close>

fun display_role :: "(diagnostic list \<Rightarrow> string) \<Rightarrow> (target_kind \<Rightarrow> string) \<Rightarrow> role_error \<Rightarrow> string" where
  "display_role dbg_ds dbg_t (UnknownRole s) = ''unknown role: '' @ s"
| "display_role dbg_ds dbg_t (R_InvalidInput ds) = ''invalid input: '' @ dbg_ds ds"
| "display_role dbg_ds dbg_t (CompileFailed s) = ''compile failed: '' @ s"
| "display_role dbg_ds dbg_t (TargetNotSupported t) = ''target not supported: '' @ dbg_t t"
| "display_role dbg_ds dbg_t (VersionNotSupported v) = ''schema version not supported: '' @ show_nat (unat v)"
| "display_role dbg_ds dbg_t (R_Host e) = ''host: '' @ display_host e"

text \<open>\<open>std::io::Error\<close>: the one kind the code branches on, and its text.\<close>

datatype io_kind = IoNotFound | IoInvalidData | IoOther

datatype io_error = IoError (io_kind_of: io_kind) (io_text: string)

datatype runtime_error =
    NotFound string
  | SignatureInvalid string string
  | Wasmtime string
  | Io io_error
  | Json string
  | Watcher string
  | Deploy deploy_extension_error
  | Extension host_extension_error

fun display_runtime :: "runtime_error \<Rightarrow> string" where
  "display_runtime (NotFound x) = ''extension '' @ [CHR 0x27] @ x @ [CHR 0x27] @ '' not found''"
| "display_runtime (SignatureInvalid x r) =
     ''signature verification failed for extension '' @ [CHR 0x27] @ x @ [CHR 0x27] @ '': '' @ r
     @ [CHR 0x0A] @ ''hint: reinstall a signed extension (production), or rebuild ext-runtime ''
     @ ''with `--features dev-allow-unsigned` and set GREENTIC_EXT_ALLOW_UNSIGNED=1 (dev only)''"
| "display_runtime (Wasmtime s) = ''wasmtime: '' @ s"
| "display_runtime (Io e) = ''io: '' @ io_text e"
| "display_runtime (Json s) = ''json: '' @ s"
| "display_runtime (Watcher s) = ''watcher: '' @ s"
| "display_runtime (Deploy e) = ''deploy extension error: '' @ display_deploy e"
| "display_runtime (Extension e) =
     ''extension error ('' @ code e @ ''): '' @ display_host e"

section \<open>Health\<close>

datatype health_reason =
    MissingRequiredCap string
  | HealthSignatureInvalid
  | LoadFailed string
  | CycleDetected

datatype extension_health = Healthy | Degraded health_reason

fun is_healthy :: "extension_health \<Rightarrow> bool" where
  "is_healthy Healthy = True"
| "is_healthy (Degraded _) = False"

section \<open>WIT errors and their maps\<close>

text \<open>
  \<open>greentic:extension-base\<close> has four error variants at 0.1.0 and six at 0.2.0. The binding
  generator emits one Rust type per world; they all have one of these two shapes.
\<close>

datatype wit_error_v1 =
    E1_InvalidInput string
  | E1_MissingCapability string
  | E1_PermissionDenied string
  | E1_Internal string

datatype wit_error_v2 =
    E2_InvalidInput string
  | E2_MissingCapability string
  | E2_PermissionDenied string
  | E2_NotFound string
  | E2_SchemaInvalid string
  | E2_Internal string

fun from_design_v01 :: "wit_error_v1 \<Rightarrow> host_extension_error" where
  "from_design_v01 (E1_InvalidInput s) = H_InvalidInput s"
| "from_design_v01 (E1_MissingCapability s) = H_MissingCapability s"
| "from_design_v01 (E1_PermissionDenied s) = H_PermissionDenied s"
| "from_design_v01 (E1_Internal s) = H_Internal s"

fun from_deploy_v01 :: "wit_error_v1 \<Rightarrow> host_extension_error" where
  "from_deploy_v01 (E1_InvalidInput s) = H_InvalidInput s"
| "from_deploy_v01 (E1_MissingCapability s) = H_MissingCapability s"
| "from_deploy_v01 (E1_PermissionDenied s) = H_PermissionDenied s"
| "from_deploy_v01 (E1_Internal s) = H_Internal s"

fun from_bundle_v01 :: "wit_error_v1 \<Rightarrow> host_extension_error" where
  "from_bundle_v01 (E1_InvalidInput s) = H_InvalidInput s"
| "from_bundle_v01 (E1_MissingCapability s) = H_MissingCapability s"
| "from_bundle_v01 (E1_PermissionDenied s) = H_PermissionDenied s"
| "from_bundle_v01 (E1_Internal s) = H_Internal s"

fun from_design_v03 :: "wit_error_v2 \<Rightarrow> host_extension_error" where
  "from_design_v03 (E2_InvalidInput s) = H_InvalidInput s"
| "from_design_v03 (E2_MissingCapability s) = H_MissingCapability s"
| "from_design_v03 (E2_PermissionDenied s) = H_PermissionDenied s"
| "from_design_v03 (E2_NotFound s) = H_NotFound s"
| "from_design_v03 (E2_SchemaInvalid s) = H_SchemaInvalid s"
| "from_design_v03 (E2_Internal s) = H_Internal s"

fun from_deploy_v02 :: "wit_error_v2 \<Rightarrow> host_extension_error" where
  "from_deploy_v02 (E2_InvalidInput s) = H_InvalidInput s"
| "from_deploy_v02 (E2_MissingCapability s) = H_MissingCapability s"
| "from_deploy_v02 (E2_PermissionDenied s) = H_PermissionDenied s"
| "from_deploy_v02 (E2_NotFound s) = H_NotFound s"
| "from_deploy_v02 (E2_SchemaInvalid s) = H_SchemaInvalid s"
| "from_deploy_v02 (E2_Internal s) = H_Internal s"

fun from_bundle_v02 :: "wit_error_v2 \<Rightarrow> host_extension_error" where
  "from_bundle_v02 (E2_InvalidInput s) = H_InvalidInput s"
| "from_bundle_v02 (E2_MissingCapability s) = H_MissingCapability s"
| "from_bundle_v02 (E2_PermissionDenied s) = H_PermissionDenied s"
| "from_bundle_v02 (E2_NotFound s) = H_NotFound s"
| "from_bundle_v02 (E2_SchemaInvalid s) = H_SchemaInvalid s"
| "from_bundle_v02 (E2_Internal s) = H_Internal s"

fun from_composer_v02 :: "wit_error_v2 \<Rightarrow> host_extension_error" where
  "from_composer_v02 (E2_InvalidInput s) = H_InvalidInput s"
| "from_composer_v02 (E2_MissingCapability s) = H_MissingCapability s"
| "from_composer_v02 (E2_PermissionDenied s) = H_PermissionDenied s"
| "from_composer_v02 (E2_NotFound s) = H_NotFound s"
| "from_composer_v02 (E2_SchemaInvalid s) = H_SchemaInvalid s"
| "from_composer_v02 (E2_Internal s) = H_Internal s"

fun from_composer_v01 :: "string \<Rightarrow> host_extension_error" where
  "from_composer_v01 msg = H_Internal msg"

fun deploy_err_to_host :: "wit_error_v1 \<Rightarrow> deploy_extension_error" where
  "deploy_err_to_host (E1_InvalidInput m) = D_InvalidInput m"
| "deploy_err_to_host (E1_MissingCapability m) = D_MissingCapability m"
| "deploy_err_to_host (E1_PermissionDenied m) = D_PermissionDenied m"
| "deploy_err_to_host (E1_Internal m) = D_Internal m"

fun deploy_err_to_host_v2 :: "wit_error_v2 \<Rightarrow> deploy_extension_error" where
  "deploy_err_to_host_v2 (E2_InvalidInput m) = D_InvalidInput m"
| "deploy_err_to_host_v2 (E2_MissingCapability m) = D_MissingCapability m"
| "deploy_err_to_host_v2 (E2_PermissionDenied m) = D_PermissionDenied m"
| "deploy_err_to_host_v2 (E2_NotFound m) = D_NotFound m"
| "deploy_err_to_host_v2 (E2_SchemaInvalid m) = D_SchemaInvalid m"
| "deploy_err_to_host_v2 (E2_Internal m) = D_Internal m"

section \<open>The contract of an error map\<close>

text \<open>The variant's own name and message, as the WIT spells them.\<close>

fun wit_code_v1 :: "wit_error_v1 \<Rightarrow> string" where
  "wit_code_v1 (E1_InvalidInput _) = ''invalid-input''"
| "wit_code_v1 (E1_MissingCapability _) = ''missing-capability''"
| "wit_code_v1 (E1_PermissionDenied _) = ''permission-denied''"
| "wit_code_v1 (E1_Internal _) = ''internal''"

fun wit_message_v1 :: "wit_error_v1 \<Rightarrow> string" where
  "wit_message_v1 (E1_InvalidInput s) = s"
| "wit_message_v1 (E1_MissingCapability s) = s"
| "wit_message_v1 (E1_PermissionDenied s) = s"
| "wit_message_v1 (E1_Internal s) = s"

fun wit_code_v2 :: "wit_error_v2 \<Rightarrow> string" where
  "wit_code_v2 (E2_InvalidInput _) = ''invalid-input''"
| "wit_code_v2 (E2_MissingCapability _) = ''missing-capability''"
| "wit_code_v2 (E2_PermissionDenied _) = ''permission-denied''"
| "wit_code_v2 (E2_NotFound _) = ''not-found''"
| "wit_code_v2 (E2_SchemaInvalid _) = ''schema-invalid''"
| "wit_code_v2 (E2_Internal _) = ''internal''"

fun wit_message_v2 :: "wit_error_v2 \<Rightarrow> string" where
  "wit_message_v2 (E2_InvalidInput s) = s"
| "wit_message_v2 (E2_MissingCapability s) = s"
| "wit_message_v2 (E2_PermissionDenied s) = s"
| "wit_message_v2 (E2_NotFound s) = s"
| "wit_message_v2 (E2_SchemaInvalid s) = s"
| "wit_message_v2 (E2_Internal s) = s"

lemma host_error_identified: "code g = code h \<Longrightarrow> message g = message h \<Longrightarrow> g = h"
  by (cases g; cases h) simp_all

text \<open>What a dispatch module relies on: the map keeps code and message, and these identify the
  guest's error. A client then knows that mapping a guest result loses nothing.\<close>

locale error_map =
  fixes to_host :: "'w \<Rightarrow> host_extension_error"
    and wit_code :: "'w \<Rightarrow> string"
    and wit_message :: "'w \<Rightarrow> string"
  assumes code_kept: "code (to_host e) = wit_code e"
    and message_kept: "message (to_host e) = wit_message e"
    and wit_identified: "wit_code e = wit_code f \<Longrightarrow> wit_message e = wit_message f \<Longrightarrow> e = f"
begin

lemma to_host_inj: "to_host e = to_host f \<longleftrightarrow> e = f"
  by (metis code_kept message_kept wit_identified)

lemma to_host_iff: "h = to_host e \<longleftrightarrow> code h = wit_code e \<and> message h = wit_message e"
  using host_error_identified [of h "to_host e"] by (auto simp: code_kept message_kept)

lemma map_err_lossless: "map_err to_host r = map_err to_host s \<longleftrightarrow> r = s"
  by (cases r; cases s) (simp_all add: to_host_inj)

lemma host_error_of_guest:
  "map_err to_host r = Inl h \<Longrightarrow>
     \<exists>e. r = Inl e \<and> code h = wit_code e \<and> message h = wit_message e"
  by (cases r) (auto simp: code_kept message_kept)

end

interpretation design_v01_map: error_map from_design_v01 wit_code_v1 wit_message_v1
proof
  fix e f show "code (from_design_v01 e) = wit_code_v1 e"
    "message (from_design_v01 e) = wit_message_v1 e" by (cases e; simp)+
  show "wit_code_v1 e = wit_code_v1 f \<Longrightarrow> wit_message_v1 e = wit_message_v1 f \<Longrightarrow> e = f"
    by (cases e; cases f) simp_all
qed

interpretation deploy_v01_map: error_map from_deploy_v01 wit_code_v1 wit_message_v1
proof
  fix e f show "code (from_deploy_v01 e) = wit_code_v1 e"
    "message (from_deploy_v01 e) = wit_message_v1 e" by (cases e; simp)+
qed (rule design_v01_map.wit_identified)

interpretation bundle_v01_map: error_map from_bundle_v01 wit_code_v1 wit_message_v1
proof
  fix e f show "code (from_bundle_v01 e) = wit_code_v1 e"
    "message (from_bundle_v01 e) = wit_message_v1 e" by (cases e; simp)+
qed (rule design_v01_map.wit_identified)

interpretation design_v03_map: error_map from_design_v03 wit_code_v2 wit_message_v2
proof
  fix e f show "code (from_design_v03 e) = wit_code_v2 e"
    "message (from_design_v03 e) = wit_message_v2 e" by (cases e; simp)+
  show "wit_code_v2 e = wit_code_v2 f \<Longrightarrow> wit_message_v2 e = wit_message_v2 f \<Longrightarrow> e = f"
    by (cases e; cases f) simp_all
qed

interpretation deploy_v02_map: error_map from_deploy_v02 wit_code_v2 wit_message_v2
proof
  fix e f show "code (from_deploy_v02 e) = wit_code_v2 e"
    "message (from_deploy_v02 e) = wit_message_v2 e" by (cases e; simp)+
qed (rule design_v03_map.wit_identified)

interpretation bundle_v02_map: error_map from_bundle_v02 wit_code_v2 wit_message_v2
proof
  fix e f show "code (from_bundle_v02 e) = wit_code_v2 e"
    "message (from_bundle_v02 e) = wit_message_v2 e" by (cases e; simp)+
qed (rule design_v03_map.wit_identified)

interpretation composer_v02_map: error_map from_composer_v02 wit_code_v2 wit_message_v2
proof
  fix e f show "code (from_composer_v02 e) = wit_code_v2 e"
    "message (from_composer_v02 e) = wit_message_v2 e" by (cases e; simp)+
qed (rule design_v03_map.wit_identified)

interpretation composer_v01_map: error_map from_composer_v01 "\<lambda>_. ''internal''" "\<lambda>m. m"
  by unfold_locales simp_all

text \<open>A deploy error carries the same variants in its own type.\<close>

fun deploy_as_host :: "deploy_extension_error \<Rightarrow> host_extension_error" where
  "deploy_as_host (D_InvalidInput s) = H_InvalidInput s"
| "deploy_as_host (D_MissingCapability s) = H_MissingCapability s"
| "deploy_as_host (D_PermissionDenied s) = H_PermissionDenied s"
| "deploy_as_host (D_NotFound s) = H_NotFound s"
| "deploy_as_host (D_SchemaInvalid s) = H_SchemaInvalid s"
| "deploy_as_host (D_Internal s) = H_Internal s"

lemma deploy_as_host_v1: "deploy_as_host (deploy_err_to_host e) = from_deploy_v01 e"
  by (cases e) simp_all

lemma deploy_as_host_v2: "deploy_as_host (deploy_err_to_host_v2 e) = from_deploy_v02 e"
  by (cases e) simp_all

end
