(* ===== verification/Paths.thy ===== *)
theory Paths
  imports Types "HOL-Library.Char_ord" "HOL-Library.List_Lexorder"
begin

text \<open>
  The part of \<open>std::path\<close> and \<open>std::fs\<close> the runtime uses, on Unix. A path is the list of its
  components: that is what \<open>PathBuf\<close>'s equality and order compare, and what \<open>components\<close>,
  \<open>parent\<close>, \<open>file_name\<close> and \<open>join\<close> work on. The filesystem is a record of observations at one
  moment; two moments are two unrelated records, so no theorem relies on the tree holding still.
  \<open>discovery.rs\<close> is here too.
\<close>

section \<open>Components\<close>

datatype pcomp = RootDir | CurDir | ParentDir | Normal string

type_synonym path = "pcomp list"

text \<open>The order \<open>Component\<close> derives: by constructor, then by the name's bytes.\<close>

fun pcomp_rank :: "pcomp \<Rightarrow> nat \<times> string" where
  "pcomp_rank RootDir = (0, [])"
| "pcomp_rank CurDir = (1, [])"
| "pcomp_rank ParentDir = (2, [])"
| "pcomp_rank (Normal s) = (3, s)"

instantiation pcomp :: linorder
begin

definition less_eq_pcomp :: "pcomp \<Rightarrow> pcomp \<Rightarrow> bool" where
  "less_eq_pcomp a b \<longleftrightarrow>
     fst (pcomp_rank a) < fst (pcomp_rank b) \<or>
     (fst (pcomp_rank a) = fst (pcomp_rank b) \<and> snd (pcomp_rank a) \<le> snd (pcomp_rank b))"

definition less_pcomp :: "pcomp \<Rightarrow> pcomp \<Rightarrow> bool" where
  "less_pcomp a b \<longleftrightarrow> a \<le> b \<and> \<not> b \<le> (a :: pcomp)"

instance
proof
  fix a b c :: pcomp
  show "a < b \<longleftrightarrow> a \<le> b \<and> \<not> b \<le> a" by (simp add: less_pcomp_def)
  show "a \<le> a" by (simp add: less_eq_pcomp_def)
  show "a \<le> b \<Longrightarrow> b \<le> c \<Longrightarrow> a \<le> c" by (auto simp: less_eq_pcomp_def)
  show "a \<le> b \<Longrightarrow> b \<le> a \<Longrightarrow> a = b" by (cases a; cases b) (auto simp: less_eq_pcomp_def)
  show "a \<le> b \<or> b \<le> a" by (auto simp: less_eq_pcomp_def)
qed

end

definition segment :: "string \<Rightarrow> pcomp" where
  "segment s = (if s = ''..'' then ParentDir else Normal s)"

text \<open>Empty segments vanish, and so does \<open>.\<close> except at the start of a relative path.\<close>

definition body_components :: "string list \<Rightarrow> path" where
  "body_components segs = map segment (filter (\<lambda>s. s \<noteq> [] \<and> s \<noteq> ''.'') segs)"

definition components :: "string \<Rightarrow> path" where
  "components s =
     (if starts_with ''/'' s then RootDir # body_components (split_on (CHR ''/'') s)
      else if hd (split_on (CHR ''/'') s) = ''.''
        then CurDir # body_components (tl (split_on (CHR ''/'') s))
      else body_components (split_on (CHR ''/'') s))"

text \<open>\<open>join\<close> with an absolute path replaces the base.\<close>

fun path_join :: "path \<Rightarrow> path \<Rightarrow> path" where
  "path_join p (RootDir # q) = RootDir # q"
| "path_join p (CurDir # q) = (if p = [] then CurDir # q else p @ q)"
| "path_join p q = p @ q"

definition join_name :: "path \<Rightarrow> string \<Rightarrow> path" where
  "join_name p name = path_join p (components name)"

definition parent :: "path \<Rightarrow> path option" where
  "parent p = (if p = [] \<or> last p = RootDir then None else Some (butlast p))"

definition file_name :: "path \<Rightarrow> string option" where
  "file_name p = (if p = [] then None else (case last p of Normal s \<Rightarrow> Some s | _ \<Rightarrow> None))"

text \<open>\<open>Path::strip_prefix\<close>, and the text of a path built from its components.\<close>

definition path_strip_prefix :: "path \<Rightarrow> path \<Rightarrow> path option" where
  "path_strip_prefix base p =
     (if take (length base) p = base then Some (drop (length base) p) else None)"

fun pcomp_text :: "pcomp \<Rightarrow> string" where
  "pcomp_text RootDir = []"
| "pcomp_text CurDir = ''.''"
| "pcomp_text ParentDir = ''..''"
| "pcomp_text (Normal s) = s"

definition path_display :: "path \<Rightarrow> string" where
  "path_display p = (if p = [RootDir] then ''/'' else join_with ''/'' (map pcomp_text p))"

fun is_normal :: "pcomp \<Rightarrow> bool" where
  "is_normal (Normal s) = True"
| "is_normal _ = False"

lemma all_normal_iff: "list_all is_normal p \<longleftrightarrow> (\<exists>names. p = map Normal names)"
proof
  show "list_all is_normal p \<Longrightarrow> \<exists>names. p = map Normal names"
  proof (induction p)
    case (Cons c p)
    then obtain s names where "c = Normal s" and "p = map Normal names"
      by (cases c) auto
    then have "c # p = map Normal (s # names)" by simp
    then show ?case by (rule exI [where x = "s # names"])
  qed simp
qed (auto simp: list_all_iff)

lemma path_join_normal: "path_join p (map Normal names) = p @ map Normal names"
  by (cases names) simp_all

lemma components_empty [simp]: "components [] = []"
  by (simp add: components_def body_components_def starts_with_def)

text \<open>A name that is one plain segment: not empty, no separator, neither \<open>.\<close> nor \<open>..\<close>.\<close>

definition plain_name :: "string \<Rightarrow> bool" where
  "plain_name n \<longleftrightarrow> n \<noteq> [] \<and> n \<noteq> ''.'' \<and> n \<noteq> ''..'' \<and> CHR ''/'' \<notin> set n"

lemma components_split:
  "components s =
     (if hd (split_on (CHR ''/'') s) = [] \<and> s \<noteq> [] then RootDir # body_components (split_on (CHR ''/'') s)
      else if hd (split_on (CHR ''/'') s) = ''.''
        then CurDir # body_components (tl (split_on (CHR ''/'') s))
      else body_components (split_on (CHR ''/'') s))"
  by (cases s) (auto simp: components_def starts_with_def split: list.splits)

lemma body_components_normal:
  assumes "\<And>s. s \<in> set segs \<Longrightarrow> CHR ''/'' \<notin> set s" and "body_components segs = map Normal names"
  shows "list_all plain_name names"
proof -
  have "plain_name n" if "Normal n \<in> set (body_components segs)" for n
    using that assms(1) by (auto simp: body_components_def segment_def plain_name_def split: if_splits)
  with assms(2) show ?thesis by (auto simp: list_all_iff)
qed

lemma components_plain:
  assumes "components s = map Normal names"
  shows "list_all plain_name names"
proof -
  have "body_components (split_on (CHR ''/'') s) = map Normal names"
    using assms by (cases names) (auto simp: components_split split: if_splits)
  then show ?thesis by (rule body_components_normal [rotated]) (rule split_on_pieces)
qed

lemma components_join:
  assumes "names \<noteq> []" and "list_all plain_name names"
  shows "components (join_with ''/'' names) = map Normal names"
proof -
  have split: "split_on (CHR ''/'') (join_with ''/'' names) = names"
    using assms by (intro split_on_join) (auto simp: list_all_iff plain_name_def)
  have "hd names \<noteq> []" "hd names \<noteq> ''.''"
    using assms by (cases names; simp add: plain_name_def)+
  moreover have "body_components names = map Normal names"
    using assms(2) by (induction names) (auto simp: body_components_def segment_def plain_name_def)
  ultimately show ?thesis by (simp add: components_split split)
qed

lemma components_eq_empty_iff: "components s = [] \<longleftrightarrow> s = []"
proof
  assume empty: "components s = []"
  show "s = []"
  proof (rule ccontr)
    assume "s \<noteq> []"
    with empty have "hd (split_on (CHR ''/'') s) \<noteq> []" "hd (split_on (CHR ''/'') s) \<noteq> ''.''"
      by (auto simp: components_split split: if_splits)
    with empty show False
      by (cases "split_on (CHR ''/'') s") (auto simp: components_split body_components_def split: if_splits)
  qed
qed simp

section \<open>The filesystem\<close>

datatype file_type = RegularFile | Directory | OtherType

record filesystem =
  fs_read :: "path \<Rightarrow> (io_error, string) result"
  fs_lstat :: "path \<Rightarrow> (io_error, file_type) result"
  fs_read_dir :: "path \<Rightarrow> (io_error, (io_error, string) result list) result"
  fs_exists :: "path \<Rightarrow> bool"

text \<open>\<open>entry.path()\<close> for an entry of the given name.\<close>

definition entry_path :: "path \<Rightarrow> string \<Rightarrow> path" where
  "entry_path dir name = dir @ [Normal name]"

section \<open>Discovery\<close>

record discovery_paths =
  dp_user :: path
  dp_project :: "path option"

definition discovery_new :: "path \<Rightarrow> discovery_paths" where
  "discovery_new user = \<lparr>dp_user = user, dp_project = None\<rparr>"

definition with_project :: "discovery_paths \<Rightarrow> path \<Rightarrow> discovery_paths" where
  "with_project d project = d\<lparr>dp_project := Some project\<rparr>"

definition all_paths :: "discovery_paths \<Rightarrow> path list" where
  "all_paths d = dp_user d # (case dp_project d of None \<Rightarrow> [] | Some p \<Rightarrow> [p])"

definition home :: "discovery_paths \<Rightarrow> path option" where
  "home d = parent (dp_user d)"

text \<open>One entry of the scan: an error stops it, a directory with a \<open>describe.json\<close> is kept.\<close>

definition scan_entry ::
  "filesystem \<Rightarrow> path \<Rightarrow> (io_error, string) result \<Rightarrow> (io_error, path list) result" where
  "scan_entry fs kind_dir entry =
     and_then entry (\<lambda>name.
       and_then (fs_lstat fs (entry_path kind_dir name)) (\<lambda>ft.
         Inr (if ft = Directory \<and>
                 fs_exists fs (join_name (entry_path kind_dir name) ''describe.json'')
              then [entry_path kind_dir name] else [])))"

definition scan_kind_dir :: "filesystem \<Rightarrow> path \<Rightarrow> (io_error, path list) result" where
  "scan_kind_dir fs kind_dir =
     (if \<not> fs_exists fs kind_dir then Inr []
      else and_then (fs_read_dir fs kind_dir) (\<lambda>entries.
             map_ok (\<lambda>pss. sort (concat pss)) (collect (scan_entry fs kind_dir) entries)))"

end
