(* ===== verification/Sdk.thy ===== *)
theory Sdk
  imports Paths
begin

text \<open>
  The shapes the runtime reads of the SDK's \<open>greentic_extension_sdk_contract\<close>, which is not part
  of the repository: the describe document, its permissions, its declared tools, views and
  components, and the manifest. Only the fields the source reads are present. The SDK's
  \<open>ExtensionKind\<close> is a type variable, and its functions, its trust store, the JSON parser
  and SHA-256 are the fields of \<open>sdk_env\<close>, an argument of every definition that uses them.
\<close>

record permissions =
  network :: "string list"
  secrets :: "string list"
  call_extension_kinds :: "string list"
  oauth_providers :: "string list"
  llm_roles :: "string list"

definition permissions_default :: permissions where
  "permissions_default =
     \<lparr>network = [], secrets = [], call_extension_kinds = [], oauth_providers = [], llm_roles = []\<rparr>"

record 'secret tool =
  t_name :: string
  t_description :: "string option"
  t_input_schema :: "string option"
  t_output_schema :: "string option"
  t_capabilities :: "string list option"
  t_agentic_worker_metadata :: "string option"
  t_secret_requirements :: "'secret list"

record ('su, 'pl, 'vi) view =
  v_id :: string
  v_surface :: 'su
  v_title_key :: string
  v_title_fallback :: string
  v_icon :: "string option"
  v_entry :: string
  v_placement :: 'pl
  v_min_visibility :: 'vi
  v_tools :: "string list"

record offered_cap =
  oc_id :: string
  oc_version :: string

text \<open>The type variables stand for the kind, the declared tools and the declared views.\<close>

record ('k, 't, 'w) describe =
  d_api_version :: string
  d_id :: string
  d_version :: string
  d_kind :: 'k
  d_public_key :: "string option"
  d_offered :: "offered_cap list"
  d_components :: "(string \<times> string option) list"
  d_permissions :: permissions
  d_tools :: "'t list"
  d_views :: "'w list"

record manifest_entry =
  me_path :: string
  me_sha256 :: string

record manifest =
  mf_schema :: string
  mf_entries :: "manifest_entry list"

record ('j, 'd, 'ts) sdk_env =
  json_from_slice :: "string \<Rightarrow> (string, 'j) result"
  validate_describe_json :: "'j \<Rightarrow> (string, unit) result"
  describe_from_value :: "'j \<Rightarrow> (string, 'd) result"
  verify_self_consistent :: "'d \<Rightarrow> (string, unit) result"
  verify_manifest_binding :: "'d \<Rightarrow> string \<Rightarrow> (string, unit) result"
  manifest_from_slice :: "string \<Rightarrow> (string, manifest) result"
  manifest_schema_v1 :: string
  manifest_entry_name :: string
  describe_entry_name :: string
  sha256_hex :: "string \<Rightarrow> string"
  pin_or_verify :: "'ts \<Rightarrow> path \<Rightarrow> string \<Rightarrow> string \<Rightarrow> (string, unit) result \<times> 'ts"

end
