(* ===== verification/Limits.thy ===== *)
theory Limits
  imports Prelude "HOL-Library.Word"
begin

text \<open>
  \<open>limits.rs\<close>: the store-wide memory and table budgets a guest draws on, and the conversion of the
  dispatch budget into an epoch deadline and into the timeout of one host call. Sizes are
  \<open>usize\<close>, 64-bit words with \<open>saturating_sub\<close> and \<open>checked_add\<close> written out; a
  \<open>Duration\<close> is its whole number of nanoseconds, which is what \<open>as_nanos\<close> returns (a
  \<open>u128\<close>, too wide to overflow here). The two budgets share one contract, the locale
  \<open>growth_meter\<close>. The thread that makes the engine's epoch advance is in the theory Epoch.
\<close>

section \<open>Constants\<close>

type_synonym usize = "64 word"

type_synonym duration = nat

definition DEFAULT_DISPATCH_TIMEOUT :: duration where
  "DEFAULT_DISPATCH_TIMEOUT = 5 * 60 * 1000000000"

definition EPOCH_TICK :: duration where
  "EPOCH_TICK = 1000000000"

definition MAX_MEMORY_BYTES :: usize where
  "MAX_MEMORY_BYTES = 512 * 1024 * 1024"

definition MAX_TABLE_ELEMENTS :: usize where
  "MAX_TABLE_ELEMENTS = 100000"

definition MAX_INSTANCES :: nat where "MAX_INSTANCES = 64"

definition MAX_MEMORIES :: nat where "MAX_MEMORIES = 64"

definition MAX_TABLES :: nat where "MAX_TABLES = 64"

definition MAX_HOST_CALL_TIMEOUT :: duration where
  "MAX_HOST_CALL_TIMEOUT = 2 * 60 * 1000000000"

definition u64_max :: nat where
  "u64_max = 2 ^ 64 - 1"

section \<open>Operations\<close>

definition http_timeout_for :: "duration option \<Rightarrow> duration" where
  "http_timeout_for dispatch_timeout =
     (case dispatch_timeout of
        None \<Rightarrow> MAX_HOST_CALL_TIMEOUT
      | Some d \<Rightarrow> min d MAX_HOST_CALL_TIMEOUT)"

record pack_limits =
  memory_bytes :: usize
  table_elements :: usize

definition pack_limits_new :: pack_limits where
  "pack_limits_new = \<lparr>memory_bytes = 0, table_elements = 0\<rparr>"

definition saturating_sub :: "usize \<Rightarrow> usize \<Rightarrow> usize" where
  "saturating_sub a b = (if b \<le> a then a - b else 0)"

definition checked_add :: "usize \<Rightarrow> usize \<Rightarrow> usize option" where
  "checked_add a b = (if unat a + unat b < 2 ^ 64 then Some (a + b) else None)"

text \<open>\<open>admit\<close> returns its answer and the new value of \<open>*running\<close>.\<close>

definition admit :: "usize \<Rightarrow> usize \<Rightarrow> usize \<Rightarrow> usize \<Rightarrow> bool \<times> usize" where
  "admit running current desired cap =
     (case checked_add running (saturating_sub desired current) of
        None \<Rightarrow> (False, running)
      | Some new_total \<Rightarrow> if new_total > cap then (False, running) else (True, new_total))"

definition memory_growing :: "pack_limits \<Rightarrow> usize \<Rightarrow> usize \<Rightarrow> bool \<times> pack_limits" where
  "memory_growing l current desired =
     (case admit (memory_bytes l) current desired MAX_MEMORY_BYTES of
        (ok, running) \<Rightarrow> (ok, l\<lparr>memory_bytes := running\<rparr>))"

definition table_growing :: "pack_limits \<Rightarrow> usize \<Rightarrow> usize \<Rightarrow> bool \<times> pack_limits" where
  "table_growing l current desired =
     (case admit (table_elements l) current desired MAX_TABLE_ELEMENTS of
        (ok, running) \<Rightarrow> (ok, l\<lparr>table_elements := running\<rparr>))"

definition div_ceil :: "nat \<Rightarrow> nat \<Rightarrow> nat" where
  "div_ceil a b = (a + b - 1) div b"

definition deadline_ticks :: "duration \<Rightarrow> nat" where
  "deadline_ticks timeout =
     (let per_tick = max EPOCH_TICK 1;
          ticks = max (div_ceil timeout per_tick) 1
      in if ticks \<le> u64_max then ticks else u64_max)"

text \<open>What \<open>apply\<close> leaves in a store: the limiter it reads back, and the epoch deadline.\<close>

record store_limits =
  sl_limiter :: "pack_limits option"
  sl_epoch_deadline :: nat

definition store_unlimited :: store_limits where
  "store_unlimited = \<lparr>sl_limiter = None, sl_epoch_deadline = 0\<rparr>"

definition apply_limits :: "pack_limits \<Rightarrow> duration option \<Rightarrow> store_limits \<Rightarrow> store_limits" where
  "apply_limits l timeout s =
     s\<lparr>sl_limiter := Some l,
       sl_epoch_deadline := (case timeout of None \<Rightarrow> u64_max | Some t \<Rightarrow> deadline_ticks t)\<rparr>"

section \<open>The contract of a budget\<close>

text \<open>
  A growth request names the current and the desired size. It is granted exactly when the budget
  covers the difference on top of what was granted before; a grant charges the difference and a
  refusal changes nothing.
\<close>

locale growth_meter =
  fixes grow :: "'s \<Rightarrow> usize \<Rightarrow> usize \<Rightarrow> bool \<times> 's"
    and used :: "'s \<Rightarrow> nat"
    and cap :: nat
  assumes granted_iff: "fst (grow s c d) \<longleftrightarrow> used s + (unat d - unat c) \<le> cap"
    and granted_charges: "fst (grow s c d) \<Longrightarrow> used (snd (grow s c d)) = used s + (unat d - unat c)"
    and refused_unchanged: "\<not> fst (grow s c d) \<Longrightarrow> snd (grow s c d) = s"
begin

lemma grow_within: "used s \<le> cap \<Longrightarrow> used (snd (grow s c d)) \<le> cap"
  using granted_iff [of s c d] granted_charges [of s c d] refused_unchanged [of s c d]
  by (cases "fst (grow s c d)") auto

lemma grow_monotone: "used s \<le> used (snd (grow s c d))"
  using granted_charges [of s c d] refused_unchanged [of s c d]
  by (cases "fst (grow s c d)") auto

lemma refusal_keeps_room: "\<not> fst (grow s c d) \<Longrightarrow> fst (grow (snd (grow s c d)) c' d') = fst (grow s c' d')"
  by (simp add: refused_unchanged)

end

lemma usize_bound: "unat (w :: usize) < 2 ^ 64"
  using unsigned_less [of w, where ?'a = nat] by simp

lemma unat_word_inverse: "word_of_nat (unat w) = (w :: usize)"
  by (simp add: word_unat_eq_iff)

lemma unat_saturating_sub: "unat (saturating_sub a b) = unat a - unat b"
  by (simp add: saturating_sub_def unat_sub_if' word_le_nat_alt)

lemma checked_add_Some_iff:
  "checked_add a b = Some c \<longleftrightarrow> unat c = unat a + unat b"
proof
  assume "checked_add a b = Some c"
  then show "unat c = unat a + unat b"
    by (auto simp: checked_add_def unat_word_ariths split: if_splits)
next
  assume eq: "unat c = unat a + unat b"
  then have "unat a + unat b < 2 ^ 64" using usize_bound [of c] by simp
  moreover from this have "unat (a + b) = unat c" using eq by (simp add: unat_word_ariths)
  then have "a + b = c" by (simp add: word_unat_eq_iff)
  ultimately show "checked_add a b = Some c" by (simp add: checked_add_def)
qed

lemma checked_add_None_iff: "checked_add a b = None \<longleftrightarrow> 2 ^ 64 \<le> unat a + unat b"
  by (simp add: checked_add_def)

lemma admit_granted: "fst (admit r c d cap) \<longleftrightarrow> unat r + (unat d - unat c) \<le> unat cap"
proof (cases "checked_add r (saturating_sub d c)")
  case None
  then have "2 ^ 64 \<le> unat r + (unat d - unat c)"
    by (simp add: checked_add_None_iff unat_saturating_sub)
  then have "unat cap < unat r + (unat d - unat c)" using usize_bound [of cap] by simp
  with None show ?thesis by (simp add: admit_def)
next
  case (Some t)
  then have "unat t = unat r + (unat d - unat c)"
    by (simp add: checked_add_Some_iff unat_saturating_sub)
  with Some show ?thesis by (simp add: admit_def word_less_nat_alt not_less)
qed

lemma admit_charges:
  "fst (admit r c d cap) \<Longrightarrow> unat (snd (admit r c d cap)) = unat r + (unat d - unat c)"
proof -
  assume ok: "fst (admit r c d cap)"
  then obtain t where t: "checked_add r (saturating_sub d c) = Some t" and "snd (admit r c d cap) = t"
    by (auto simp: admit_def split: option.splits if_splits)
  then show ?thesis by (simp add: checked_add_Some_iff unat_saturating_sub)
qed

lemma admit_refuses: "\<not> fst (admit r c d cap) \<Longrightarrow> snd (admit r c d cap) = r"
  by (auto simp: admit_def split: option.splits if_splits)

interpretation memory_meter:
  growth_meter memory_growing "\<lambda>l. unat (memory_bytes l)" "unat MAX_MEMORY_BYTES"
  by unfold_locales
    (simp_all add: memory_growing_def case_prod_beta admit_granted admit_charges admit_refuses)

interpretation table_meter:
  growth_meter table_growing "\<lambda>l. unat (table_elements l)" "unat MAX_TABLE_ELEMENTS"
  by unfold_locales
    (simp_all add: table_growing_def case_prod_beta admit_granted admit_charges admit_refuses)

section \<open>A dispatch's growth requests\<close>

datatype growth = GrowMemory usize usize | GrowTable usize usize

fun grow_step :: "pack_limits \<Rightarrow> growth \<Rightarrow> bool \<times> pack_limits" where
  "grow_step l (GrowMemory c d) = memory_growing l c d"
| "grow_step l (GrowTable c d) = table_growing l c d"

text \<open>Run a sequence of requests; the second component collects the granted ones in order.\<close>

fun grow_run :: "pack_limits \<Rightarrow> growth list \<Rightarrow> pack_limits \<times> growth list" where
  "grow_run l [] = (l, [])"
| "grow_run l (g # gs) =
     (case grow_step l g of (ok, l') \<Rightarrow>
        (case grow_run l' gs of (l'', granted) \<Rightarrow> (l'', if ok then g # granted else granted)))"

fun memory_delta :: "growth \<Rightarrow> nat" where
  "memory_delta (GrowMemory c d) = unat d - unat c"
| "memory_delta (GrowTable c d) = 0"

fun table_delta :: "growth \<Rightarrow> nat" where
  "table_delta (GrowMemory c d) = 0"
| "table_delta (GrowTable c d) = unat d - unat c"

lemma memory_growing_frame: "table_elements (snd (memory_growing l c d)) = table_elements l"
  by (simp add: memory_growing_def case_prod_beta)

lemma table_growing_frame: "memory_bytes (snd (table_growing l c d)) = memory_bytes l"
  by (simp add: table_growing_def case_prod_beta)

lemma grow_step_charges:
  "unat (memory_bytes (snd (grow_step l g))) =
     unat (memory_bytes l) + (if fst (grow_step l g) then memory_delta g else 0)"
  "unat (table_elements (snd (grow_step l g))) =
     unat (table_elements l) + (if fst (grow_step l g) then table_delta g else 0)"
  by (cases g; simp add: memory_meter.granted_charges memory_meter.refused_unchanged
      table_meter.granted_charges table_meter.refused_unchanged memory_growing_frame
      table_growing_frame)+

lemma grow_step_within:
  "unat (memory_bytes l) \<le> unat MAX_MEMORY_BYTES \<Longrightarrow>
     unat (memory_bytes (snd (grow_step l g))) \<le> unat MAX_MEMORY_BYTES"
  "unat (table_elements l) \<le> unat MAX_TABLE_ELEMENTS \<Longrightarrow>
     unat (table_elements (snd (grow_step l g))) \<le> unat MAX_TABLE_ELEMENTS"
  by (cases g; simp add: memory_meter.grow_within table_meter.grow_within memory_growing_frame
      table_growing_frame)+

lemma grow_run_charges:
  "unat (memory_bytes (fst (grow_run l gs))) =
     unat (memory_bytes l) + sum_list (map memory_delta (snd (grow_run l gs))) \<and>
   unat (table_elements (fst (grow_run l gs))) =
     unat (table_elements l) + sum_list (map table_delta (snd (grow_run l gs)))"
proof (induction gs arbitrary: l)
  case Nil
  show ?case by simp
next
  case (Cons g gs)
  show ?case
    using Cons.IH [of "snd (grow_step l g)"] grow_step_charges [of l g]
    by (simp add: case_prod_beta)
qed

lemma grow_run_within:
  "unat (memory_bytes l) \<le> unat MAX_MEMORY_BYTES \<Longrightarrow>
     unat (table_elements l) \<le> unat MAX_TABLE_ELEMENTS \<Longrightarrow>
   unat (memory_bytes (fst (grow_run l gs))) \<le> unat MAX_MEMORY_BYTES \<and>
     unat (table_elements (fst (grow_run l gs))) \<le> unat MAX_TABLE_ELEMENTS"
proof (induction gs arbitrary: l)
  case Nil
  then show ?case by simp
next
  case (Cons g gs)
  then show ?case
    using Cons.IH [of "snd (grow_step l g)"] grow_step_within [of l g]
    by (simp add: case_prod_beta)
qed

lemma max_memory_nat: "unat MAX_MEMORY_BYTES = 536870912"
  by (simp add: MAX_MEMORY_BYTES_def)

lemma max_table_nat: "unat MAX_TABLE_ELEMENTS = 100000"
  by (simp add: MAX_TABLE_ELEMENTS_def)

section \<open>Deadlines\<close>

lemma div_ceil_bounds:
  assumes "0 < b"
  shows "a \<le> div_ceil a b * b" and "0 < a \<Longrightarrow> (div_ceil a b - 1) * b < a"
proof -
  have q: "(a + b - 1) div b * b + (a + b - 1) mod b = a + b - 1" by (rule div_mult_mod_eq)
  have r: "(a + b - 1) mod b < b" using assms by simp
  show "a \<le> div_ceil a b * b" unfolding div_ceil_def using q r assms by linarith
  assume "0 < a"
  then have "(div_ceil a b - 1) * b = div_ceil a b * b - b" by (simp add: diff_mult_distrib)
  with q r assms \<open>0 < a\<close> show "(div_ceil a b - 1) * b < a"
    unfolding div_ceil_def by linarith
qed

lemma deadline_ticks_eq:
  "deadline_ticks t = min (max (div_ceil t EPOCH_TICK) 1) u64_max"
  by (simp add: deadline_ticks_def Let_def EPOCH_TICK_def u64_max_def)

section \<open>Properties\<close>

text \<open>
  C11: the memory and table ceilings are store-wide. Whatever growth requests a guest makes, over
  however many memories and tables and in whatever order, the sum of the differences granted is
  exactly what the limiter has charged, and it never passes 512 MiB of memory or 100000 table
  elements.
\<close>

theorem growth_budget:
  "case grow_run pack_limits_new gs of (l, granted) \<Rightarrow>
     unat (memory_bytes l) = sum_list (map memory_delta granted) \<and>
     unat (table_elements l) = sum_list (map table_delta granted) \<and>
     sum_list (map memory_delta granted) \<le> 536870912 \<and>
     sum_list (map table_delta granted) \<le> 100000"
  using grow_run_charges [of pack_limits_new gs] grow_run_within [of pack_limits_new gs]
  by (simp add: case_prod_beta pack_limits_new_def max_memory_nat max_table_nat)

text \<open>
  A request is refused only for lack of budget, computed without wrap-around, and a refusal
  spends nothing.
\<close>

theorem admit_exact:
  "admit running current desired cap =
     (if unat running + (unat desired - unat current) \<le> unat cap
      then (True, word_of_nat (unat running + (unat desired - unat current)))
      else (False, running))"
proof (cases "fst (admit running current desired cap)")
  case True
  then have "snd (admit running current desired cap) =
      word_of_nat (unat running + (unat desired - unat current))"
    by (simp only: admit_charges [OF True, symmetric] unat_word_inverse)
  with True show ?thesis by (simp add: prod_eq_iff admit_granted)
next
  case False
  with admit_refuses [OF False] show ?thesis by (simp add: prod_eq_iff admit_granted)
qed

text \<open>
  The epoch deadline of a dispatch is at least one tick; it is the least number of whole ticks
  that covers the timeout, saturating at the largest \<open>u64\<close>, and a store whose host sets no timeout
  gets that largest deadline instead of wasmtime's zero. Either way the limiter is installed.
\<close>

theorem deadline_covers_timeout:
  "sl_limiter (apply_limits l timeout s) = Some l \<and>
   1 \<le> sl_epoch_deadline (apply_limits l timeout s) \<and>
   (case timeout of
      None \<Rightarrow> sl_epoch_deadline (apply_limits l timeout s) = 2 ^ 64 - 1
    | Some t \<Rightarrow>
        sl_epoch_deadline (apply_limits l timeout s) =
          min (2 ^ 64 - 1) (LEAST n. 1 \<le> n \<and> t \<le> n * EPOCH_TICK))"
proof -
  have tick: "0 < EPOCH_TICK" by (simp add: EPOCH_TICK_def)
  have "(LEAST n. 1 \<le> n \<and> t \<le> n * EPOCH_TICK) = max (div_ceil t EPOCH_TICK) 1" for t
  proof (rule Least_equality)
    show "1 \<le> max (div_ceil t EPOCH_TICK) 1 \<and> t \<le> max (div_ceil t EPOCH_TICK) 1 * EPOCH_TICK"
    proof (cases "div_ceil t EPOCH_TICK = 0")
      case True
      with div_ceil_bounds(1) [OF tick, of t] show ?thesis by simp
    next
      case False
      then have "max (div_ceil t EPOCH_TICK) 1 = div_ceil t EPOCH_TICK" by simp
      with div_ceil_bounds(1) [OF tick, of t] show ?thesis by simp
    qed
    fix n assume n: "1 \<le> n \<and> t \<le> n * EPOCH_TICK"
    show "max (div_ceil t EPOCH_TICK) 1 \<le> n"
    proof (rule ccontr)
      assume "\<not> max (div_ceil t EPOCH_TICK) 1 \<le> n"
      with n have less: "n < div_ceil t EPOCH_TICK" by simp
      then have "0 < t" by (auto simp: div_ceil_def EPOCH_TICK_def intro: ccontr)
      then have "(div_ceil t EPOCH_TICK - 1) * EPOCH_TICK < t" by (rule div_ceil_bounds(2) [OF tick])
      moreover have "n * EPOCH_TICK \<le> (div_ceil t EPOCH_TICK - 1) * EPOCH_TICK"
        using less by (intro mult_le_mono) auto
      ultimately show False using n by linarith
    qed
  qed
  then show ?thesis
    by (auto simp: apply_limits_def deadline_ticks_eq u64_max_def min_def split: option.splits)
qed

text \<open>
  One host call made for a guest is bounded by two minutes and by the dispatch budget, whether
  or not the host sets one.
\<close>

theorem host_call_bounded:
  "http_timeout_for dispatch_timeout =
     Min (insert (120 * 10 ^ 9) (set_option dispatch_timeout))"
  by (cases dispatch_timeout) (simp_all add: http_timeout_for_def MAX_HOST_CALL_TIMEOUT_def min.commute)

end
