(* ===== verification/Config.thy ===== *)
theory Config
  imports Paths Limits
begin

text \<open>
  \<open>runtime_config.rs\<close>: the policy a host sets, and where the publisher-key store lives. What the
  process environment contributes is a record, an argument of the definitions that read it; the
  host-override bundle is a type variable here.
\<close>

record host_env =
  he_greentic_home :: "string option"
  he_home_dir :: "path option"
  he_allow_unsigned :: bool

record 'ho runtime_config =
  rc_paths :: discovery_paths
  rc_host_overrides :: 'ho
  rc_dispatch_timeout :: "duration option"
  rc_trust_root :: "path option"

definition from_paths :: "'ho \<Rightarrow> discovery_paths \<Rightarrow> 'ho runtime_config" where
  "from_paths default_overrides paths =
     \<lparr>rc_paths = paths, rc_host_overrides = default_overrides,
      rc_dispatch_timeout = Some DEFAULT_DISPATCH_TIMEOUT, rc_trust_root = None\<rparr>"

definition with_dispatch_timeout ::
  "'ho runtime_config \<Rightarrow> duration option \<Rightarrow> 'ho runtime_config" where
  "with_dispatch_timeout c t = c\<lparr>rc_dispatch_timeout := t\<rparr>"

definition with_trust_root :: "'ho runtime_config \<Rightarrow> path \<Rightarrow> 'ho runtime_config" where
  "with_trust_root c root = c\<lparr>rc_trust_root := Some root\<rparr>"

definition with_host_overrides :: "'ho runtime_config \<Rightarrow> 'ho \<Rightarrow> 'ho runtime_config" where
  "with_host_overrides c ov = c\<lparr>rc_host_overrides := ov\<rparr>"

definition no_home_text :: string where
  "no_home_text =
     ''cannot resolve the extension trust root: no home directory on this platform ''
     @ ''and GREENTIC_HOME is unset''"

definition resolve_trust_root ::
  "host_env \<Rightarrow> 'ho runtime_config \<Rightarrow> (runtime_error, path) result" where
  "resolve_trust_root he c =
     (case rc_trust_root c of
        Some root \<Rightarrow> Inr root
      | None \<Rightarrow>
         (case he_greentic_home he of
            Some v \<Rightarrow>
              (if v \<noteq> [] then Inr (components v)
               else ok_or (Io (IoError IoNotFound no_home_text))
                      (map_option (\<lambda>d. join_name d ''.greentic'') (he_home_dir he)))
          | None \<Rightarrow>
              ok_or (Io (IoError IoNotFound no_home_text))
                (map_option (\<lambda>d. join_name d ''.greentic'') (he_home_dir he))))"

text \<open>
  The trust store is chosen from the explicit override, then a non-empty \<open>GREENTIC_HOME\<close>, then
  the home directory, in this order, and never from the discovery paths, the overrides or the
  timeout; with none of the three the resolution fails instead of inventing a root.
\<close>

lemma trust_root_resolution:
  "resolve_trust_root he c =
     (case (rc_trust_root c, Option.bind (he_greentic_home he) (\<lambda>v. if v = [] then None else Some v),
            he_home_dir he) of
        (Some root, _, _) \<Rightarrow> Inr root
      | (None, Some v, _) \<Rightarrow> Inr (components v)
      | (None, None, Some d) \<Rightarrow> Inr (d @ [Normal ''.greentic''])
      | (None, None, None) \<Rightarrow> Inl (Io (IoError IoNotFound no_home_text)))
   \<and> resolve_trust_root he (c\<lparr>rc_paths := ps, rc_host_overrides := ov, rc_dispatch_timeout := t\<rparr>)
     = resolve_trust_root he c"
proof -
  have dot: "join_name d ''.greentic'' = d @ [Normal ''.greentic'']" for d
    by (simp add: join_name_def components_def body_components_def segment_def starts_with_def)
  show ?thesis
    by (cases "rc_trust_root c"; cases "he_greentic_home he"; cases "he_home_dir he")
      (simp_all add: resolve_trust_root_def dot)
qed

end
