(* ===== verification/Verify.thy ===== *)
theory Verify
  imports Sdk Config
begin

text \<open>
  \<open>runtime_verify.rs\<close>, the load gate: the describe is read once, checked for self-consistency,
  the directory is checked against the signed manifest (every listed file hashes to its entry,
  every file of the tree is listed), and only then is the publisher key pinned or compared. The
  trust store is threaded as a state, because pinning is a write into a store other tools share.

  The lemmas show: which ledger paths are accepted; that the directory walk returns exactly the
  files of the tree or refuses it; what an accepted manifest says of every file; that a refused
  load leaves the trust store alone; that the bytes handed to the compiler are the listed ones
  even when the file changed after the walk.
\<close>

section \<open>Ledger paths\<close>

definition pack_relative_path :: "path \<Rightarrow> string \<Rightarrow> (string, path) result" where
  "pack_relative_path dir rel =
     (if rel = [] then Inl ''manifest lists an empty path''
      else if \<not> list_all is_normal (components rel) then
        Inl (''manifest path '' @ rel @ '' is not a plain relative path (absolute paths and `..` ''
             @ ''segments can address bytes outside the pack)'')
      else Inr (path_join dir (components rel)))"

lemma pack_relative_iff [result_simps]:
  "pack_relative_path dir rel = Inr p \<longleftrightarrow>
     (\<exists>names. names \<noteq> [] \<and> components rel = map Normal names \<and> p = dir @ map Normal names)"
proof (cases "\<exists>names. components rel = map Normal names")
  case True
  then obtain names where names: "components rel = map Normal names" by blast
  then have "rel = [] \<longleftrightarrow> names = []" using components_eq_empty_iff [of rel] by auto
  moreover have "components rel = map Normal ns \<longleftrightarrow> ns = names" for ns
    using names by (auto simp: inj_map_eq_map [of Normal] inj_def)
  ultimately show ?thesis
    using names all_normal_iff [of "components rel"]
    by (auto simp: pack_relative_path_def path_join_normal)
next
  case False
  then show ?thesis using all_normal_iff [of "components rel"] by (auto simp: pack_relative_path_def)
qed

section \<open>The walk\<close>

definition MAX_PACK_DEPTH :: nat where "MAX_PACK_DEPTH = 32"

definition too_deep :: runtime_error where
  "too_deep =
     Io (IoError IoInvalidData
       (''extension directory nests deeper than '' @ show_nat MAX_PACK_DEPTH
        @ '' levels; refusing to walk it''))"

function collect_into ::
  "filesystem \<Rightarrow> path \<Rightarrow> nat \<Rightarrow> path list \<Rightarrow> (runtime_error, path list) result" where
  "collect_into fs current depth out =
     (if depth > MAX_PACK_DEPTH then Inl too_deep
      else and_then (map_err Io (fs_read_dir fs current)) (\<lambda>entries.
        for_each (\<lambda>entry out.
          and_then (map_err Io entry) (\<lambda>name.
            and_then (map_err Io (fs_lstat fs (entry_path current name))) (\<lambda>meta.
              if meta = Directory
              then collect_into fs (entry_path current name) (depth + 1) out
              else Inr (out @ [entry_path current name]))))
        entries out))"
  by pat_completeness auto
termination
  by (relation "measure (\<lambda>(fs, current, depth, out). Suc MAX_PACK_DEPTH - depth)") auto

declare collect_into.simps [simp del]

definition collect_pack_files :: "filesystem \<Rightarrow> path \<Rightarrow> (runtime_error, path list) result" where
  "collect_pack_files fs dir = collect_into fs dir 0 []"

section \<open>The ledger\<close>

type_synonym ledger = "(path \<rightharpoonup> string) option"

definition read_verified ::
  "('j, 'd, 'ts) sdk_env \<Rightarrow> filesystem \<Rightarrow> ledger \<Rightarrow> path \<Rightarrow> (string, string) result" where
  "read_verified env fs ledger p =
     and_then (map_err io_text (fs_read fs p)) (\<lambda>bytes.
       case ledger of
         None \<Rightarrow> Inr bytes
       | Some entries \<Rightarrow>
           and_then
             (ok_or (path_display p @ '' is not covered by the signed manifest; refusing to load it'')
                (entries p))
             (\<lambda>expected.
               map_ok (\<lambda>_. bytes)
                 (ensure (sha256_hex env bytes = expected)
                   (path_display p @ '' changed after verification: manifest recorded '' @ expected
                    @ '', read '' @ sha256_hex env bytes))))"

type_synonym ('j, 'k, 't, 'w, 'ts) env = "('j, ('k, 't, 'w) describe, 'ts) sdk_env"

definition read_describe ::
  "('j, 'd, 'ts) sdk_env \<Rightarrow> filesystem \<Rightarrow> path \<Rightarrow> (runtime_error, 'd) result" where
  "read_describe env fs dir =
     (let p = join_name dir (describe_entry_name env) in
      and_then (map_err Io (fs_read fs p)) (\<lambda>raw.
        and_then (map_err Json (json_from_slice env raw)) (\<lambda>value.
          and_then
            (map_err (\<lambda>e. Wasmtime (''invalid '' @ path_display p @ '': '' @ e))
               (validate_describe_json env value))
            (\<lambda>_. map_err Json (describe_from_value env value)))))"

section \<open>The manifest\<close>

definition manifest_absent_text :: string where
  "manifest_absent_text =
     ''manifest.json absent '' @ [byte 0xE2, byte 0x80, byte 0x94]
     @ '' refusing to load an extension without a whole-archive ''
     @ ''integrity ledger (set GREENTIC_EXT_ALLOW_UNSIGNED with the dev-allow-unsigned ''
     @ ''build for local dev)''"

definition uncovered_text :: "path \<Rightarrow> path \<Rightarrow> string" where
  "uncovered_text dir present =
     path_display (case path_strip_prefix dir present of Some r \<Rightarrow> r | None \<Rightarrow> present)
     @ '' is present in the extension directory but absent from manifest.json ''
     @ [byte 0xE2, byte 0x80, byte 0x94]
     @ '' refusing to load a pack carrying files the signed ledger does not cover''"

text \<open>One turn of the loop over the manifest's entries.\<close>

definition check_entry ::
  "('j, 'd, 'ts) sdk_env \<Rightarrow> filesystem \<Rightarrow> path \<Rightarrow> string \<Rightarrow> manifest_entry
   \<Rightarrow> (path \<rightharpoonup> string) \<Rightarrow> (runtime_error, path \<rightharpoonup> string) result" where
  "check_entry env fs dir extension_id entry listed =
     and_then (map_err (SignatureInvalid extension_id) (pack_relative_path dir (me_path entry))) (\<lambda>p.
       and_then
         (map_err (\<lambda>e. SignatureInvalid extension_id
             (if io_kind_of e = IoNotFound
              then ''manifest lists missing file: '' @ me_path entry
              else ''manifest lists unreadable file '' @ me_path entry @ '': '' @ io_text e))
            (fs_lstat fs p)) (\<lambda>meta.
         if meta \<noteq> RegularFile
         then Inl (SignatureInvalid extension_id
                (''manifest entry '' @ me_path entry @ '' is not a regular file''))
         else and_then (map_err Io (fs_read fs p)) (\<lambda>bytes.
           if sha256_hex env bytes \<noteq> me_sha256 entry
           then Inl (SignatureInvalid extension_id
                  (''manifest sha256 mismatch for '' @ me_path entry @ '': expected ''
                   @ me_sha256 entry @ '' got '' @ sha256_hex env bytes))
           else Inr (listed(p \<mapsto> me_sha256 entry)))))"

definition ledger_exempt :: "('j, 'd, 'ts) sdk_env \<Rightarrow> path \<Rightarrow> path list" where
  "ledger_exempt env dir = map (join_name dir) [manifest_entry_name env, describe_entry_name env]"

definition check_coverage ::
  "('j, 'd, 'ts) sdk_env \<Rightarrow> path \<Rightarrow> string \<Rightarrow> (path \<rightharpoonup> string) \<Rightarrow> path list
   \<Rightarrow> (runtime_error, unit) result" where
  "check_coverage env dir extension_id listed files =
     for_each (\<lambda>present _.
       if present \<in> set (ledger_exempt env dir) \<or> listed present \<noteq> None then Inr ()
       else Inl (SignatureInvalid extension_id (uncovered_text dir present)))
     files ()"

definition verify_dir_manifest ::
  "('j, 'k, 't, 'w, 'ts) env \<Rightarrow> filesystem \<Rightarrow> path \<Rightarrow> ('k, 't, 'w) describe
   \<Rightarrow> (runtime_error, ledger) result" where
  "verify_dir_manifest env fs dir d =
     (let invalid = SignatureInvalid (d_id d) in
      and_then
        (map_err (\<lambda>e. if io_kind_of e = IoNotFound then invalid manifest_absent_text else Io e)
           (fs_read fs (join_name dir (manifest_entry_name env)))) (\<lambda>raw.
      and_then (map_err (\<lambda>e. invalid (''manifest binding: '' @ e))
                 (verify_manifest_binding env d raw)) (\<lambda>_.
      and_then (map_err (\<lambda>e. invalid (''manifest.json parse: '' @ e))
                 (manifest_from_slice env raw)) (\<lambda>m.
      if mf_schema m \<noteq> manifest_schema_v1 env
      then Inl (invalid (''manifest schema unsupported: '' @ mf_schema m))
      else and_then (for_each (check_entry env fs dir (d_id d)) (mf_entries m) Map.empty) (\<lambda>listed.
        and_then (collect_pack_files fs dir) (\<lambda>files.
          map_ok (\<lambda>_. Some listed) (check_coverage env dir (d_id d) listed files)))))))"

section \<open>The gate\<close>

text \<open>Steps 1 and 2 with the resolution of the trust root: all that precedes the anchor.\<close>

definition integrity_checks ::
  "('j, 'k, 't, 'w, 'ts) env \<Rightarrow> host_env \<Rightarrow> 'ho runtime_config \<Rightarrow> filesystem \<Rightarrow> path
   \<Rightarrow> ('k, 't, 'w) describe \<Rightarrow> (runtime_error, string \<times> ledger \<times> path) result" where
  "integrity_checks env he cfg fs dir d =
     and_then (map_err (SignatureInvalid (d_id d)) (verify_self_consistent env d)) (\<lambda>_.
     and_then (ok_or (SignatureInvalid (d_id d) ''unsigned describe cannot be anchored'')
                (d_public_key d)) (\<lambda>key_b64.
     and_then (verify_dir_manifest env fs dir d) (\<lambda>ledger.
     and_then (resolve_trust_root he cfg) (\<lambda>trust_root. Inr (key_b64, ledger, trust_root)))))"

definition verify_dir_signature ::
  "('j, 'k, 't, 'w, 'ts) env \<Rightarrow> host_env \<Rightarrow> 'ho runtime_config \<Rightarrow> filesystem \<Rightarrow> 'ts \<Rightarrow> path
   \<Rightarrow> (runtime_error, ('k, 't, 'w) describe \<times> ledger) result \<times> 'ts" where
  "verify_dir_signature env he cfg fs ts dir =
     (case read_describe env fs dir of
        Inl e \<Rightarrow> (Inl e, ts)
      | Inr d \<Rightarrow>
          if he_allow_unsigned he then (Inr (d, None), ts)
          else
            (case integrity_checks env he cfg fs dir d of
               Inl e \<Rightarrow> (Inl e, ts)
             | Inr (key_b64, ledger, trust_root) \<Rightarrow>
                 (let (r, ts') = pin_or_verify env ts trust_root (d_id d) key_b64 in
                  (map_ok (\<lambda>_. (d, ledger)) (map_err (SignatureInvalid (d_id d)) r), ts'))))"

section \<open>What the walk returns\<close>

text \<open>
  The entries below a directory, by depth: those of the directory itself have depth 0. Only a
  directory, seen without following links, is descended into.
\<close>

inductive tree_entry :: "filesystem \<Rightarrow> path \<Rightarrow> nat \<Rightarrow> path \<Rightarrow> bool" for fs where
  here: "fs_read_dir fs dir = Inr es \<Longrightarrow> Inr n \<in> set es \<Longrightarrow> tree_entry fs dir 0 (entry_path dir n)"
| below: "fs_read_dir fs dir = Inr es \<Longrightarrow> Inr n \<in> set es
    \<Longrightarrow> fs_lstat fs (entry_path dir n) = Inr Directory \<Longrightarrow> tree_entry fs (entry_path dir n) k p
    \<Longrightarrow> tree_entry fs dir (Suc k) p"

inductive_cases tree_entryE: "tree_entry fs dir k p"

definition tree_files :: "filesystem \<Rightarrow> path \<Rightarrow> path set" where
  "tree_files fs dir = {p. \<exists>k. tree_entry fs dir k p \<and> fs_lstat fs p \<noteq> Inr Directory}"

text \<open>What one entry of a directory contributes to the walk.\<close>

definition walk_group ::
  "filesystem \<Rightarrow> path \<Rightarrow> nat \<Rightarrow> (io_error, string) result \<Rightarrow> path list \<Rightarrow> bool" where
  "walk_group fs current depth entry ps \<longleftrightarrow>
     (\<exists>name meta. entry = Inr name \<and> fs_lstat fs (entry_path current name) = Inr meta \<and>
       (if meta = Directory
        then set ps = tree_files fs (entry_path current name) \<and>
             (\<forall>k p. tree_entry fs (entry_path current name) k p \<longrightarrow> depth + 1 + k \<le> MAX_PACK_DEPTH)
        else ps = [entry_path current name]))"

lemma tree_entry_iff:
  assumes "fs_read_dir fs dir = Inr es"
  shows "tree_entry fs dir k p \<longleftrightarrow>
     (\<exists>n. Inr n \<in> set es \<and>
        (k = 0 \<and> p = entry_path dir n \<or>
         (\<exists>l. k = Suc l \<and> fs_lstat fs (entry_path dir n) = Inr Directory \<and>
              tree_entry fs (entry_path dir n) l p)))"
proof
  assume "tree_entry fs dir k p"
  then show "\<exists>n. Inr n \<in> set es \<and>
        (k = 0 \<and> p = entry_path dir n \<or>
         (\<exists>l. k = Suc l \<and> fs_lstat fs (entry_path dir n) = Inr Directory \<and>
              tree_entry fs (entry_path dir n) l p))"
    by (cases rule: tree_entry.cases) (use assms in auto)
qed (use assms in \<open>blast intro: tree_entry.intros\<close>)

lemma tree_files_iff:
  assumes "fs_read_dir fs dir = Inr es"
  shows "p \<in> tree_files fs dir \<longleftrightarrow>
     (\<exists>n. Inr n \<in> set es \<and>
        (p = entry_path dir n \<and> fs_lstat fs p \<noteq> Inr Directory \<or>
         fs_lstat fs (entry_path dir n) = Inr Directory \<and> p \<in> tree_files fs (entry_path dir n)))"
  unfolding tree_files_def mem_Collect_eq tree_entry_iff [OF assms] by blast

text \<open>The files one entry stands for.\<close>

definition entry_files :: "filesystem \<Rightarrow> path \<Rightarrow> (io_error, string) result \<Rightarrow> path set" where
  "entry_files fs dir entry =
     {p. \<exists>n. entry = Inr n \<and>
        (p = entry_path dir n \<and> fs_lstat fs p \<noteq> Inr Directory \<or>
         fs_lstat fs (entry_path dir n) = Inr Directory \<and> p \<in> tree_files fs (entry_path dir n))}"

lemma walk_group_files: "walk_group fs dir depth entry g \<Longrightarrow> set g = entry_files fs dir entry"
  by (auto simp: walk_group_def entry_files_def split: if_splits)

lemma walk_groups_files:
  "list_all2 (walk_group fs dir depth) es gs \<Longrightarrow> set (concat gs) = (\<Union>e\<in>set es. entry_files fs dir e)"
  by (induction rule: list_all2_induct) (simp_all add: walk_group_files)

lemma walk_groups_depth:
  assumes "fs_read_dir fs dir = Inr es" and groups: "list_all2 (walk_group fs dir depth) es gs"
    and "depth \<le> MAX_PACK_DEPTH" and "tree_entry fs dir k p"
  shows "depth + k \<le> MAX_PACK_DEPTH"
proof -
  obtain n where n: "Inr n \<in> set es" and
    "k = 0 \<or> (\<exists>l. k = Suc l \<and> fs_lstat fs (entry_path dir n) = Inr Directory \<and>
              tree_entry fs (entry_path dir n) l p)"
    using assms(4) unfolding tree_entry_iff [OF assms(1)] by blast
  moreover obtain g where "walk_group fs dir depth (Inr n) g"
    using groups n by (auto simp: list_all2_conv_all_nth in_set_conv_nth)
  ultimately show ?thesis using assms(3) by (auto simp: walk_group_def split: if_splits)
qed

lemma collect_into_exact:
  "collect_into fs dir depth out = Inr out' \<Longrightarrow>
     \<exists>ps. out' = out @ ps \<and> set ps = tree_files fs dir \<and>
       (\<forall>k p. tree_entry fs dir k p \<longrightarrow> depth + k \<le> MAX_PACK_DEPTH)"
proof (induction fs dir depth out arbitrary: out' rule: collect_into.induct)
  case (1 fs dir depth out)
  from "1.prems" obtain es where depth: "depth \<le> MAX_PACK_DEPTH"
    and es: "fs_read_dir fs dir = Inr es"
    and loop: "for_each (\<lambda>entry out. and_then (map_err Io entry) (\<lambda>name.
            and_then (map_err Io (fs_lstat fs (entry_path dir name))) (\<lambda>meta.
              if meta = Directory
              then collect_into fs (entry_path dir name) (depth + 1) out
              else Inr (out @ [entry_path dir name])))) es out = Inr out'"
    by (subst (asm) collect_into.simps) (auto simp: result_simps split: if_splits)
  have "\<exists>gs. list_all2 (walk_group fs dir depth) es gs \<and> out' = out @ concat gs"
  proof (rule for_each_appends [OF loop])
    fix entry u v
    assume entry: "entry \<in> set es"
      and body: "and_then (map_err Io entry) (\<lambda>name.
            and_then (map_err Io (fs_lstat fs (entry_path dir name))) (\<lambda>meta.
              if meta = Directory
              then collect_into fs (entry_path dir name) (depth + 1) u
              else Inr (u @ [entry_path dir name]))) = Inr v"
    then obtain name meta where name: "entry = Inr name"
      and meta: "fs_lstat fs (entry_path dir name) = Inr meta"
      by (auto simp: result_simps)
    show "\<exists>g. walk_group fs dir depth entry g \<and> v = u @ g"
    proof (cases "meta = Directory")
      case True
      with body name meta have "collect_into fs (entry_path dir name) (depth + 1) u = Inr v" by simp
      with True obtain ps where "v = u @ ps" "set ps = tree_files fs (entry_path dir name)"
        "\<forall>k p. tree_entry fs (entry_path dir name) k p \<longrightarrow> depth + 1 + k \<le> MAX_PACK_DEPTH"
        using "1.IH" [of es entry name meta u v] depth es entry name meta by auto
      with True name meta show ?thesis by (auto simp: walk_group_def)
    next
      case False
      with body name meta show ?thesis by (auto simp: walk_group_def)
    qed
  qed
  then obtain gs where gs: "list_all2 (walk_group fs dir depth) es gs" "out' = out @ concat gs"
    by blast
  have "set (concat gs) = tree_files fs dir"
    unfolding walk_groups_files [OF gs(1)]
    unfolding entry_files_def by (rule set_eqI) (use tree_files_iff [OF es] in blast)
  with gs walk_groups_depth [OF es gs(1) depth] show ?case by blast
qed

lemma collect_pack_files_exact:
  assumes "collect_pack_files fs dir = Inr files"
  shows "set files = tree_files fs dir" and "tree_entry fs dir k p \<Longrightarrow> k \<le> MAX_PACK_DEPTH"
  using collect_into_exact [of fs dir 0 "[]"] assms by (auto simp: collect_pack_files_def)

section \<open>What an accepted manifest says\<close>

text \<open>An entry names a regular file inside the pack that hashes to what it records.\<close>

definition entry_ok ::
  "('j, 'd, 'ts) sdk_env \<Rightarrow> filesystem \<Rightarrow> path \<Rightarrow> manifest_entry \<Rightarrow> path \<Rightarrow> bool" where
  "entry_ok env fs dir e p \<longleftrightarrow>
     pack_relative_path dir (me_path e) = Inr p \<and> fs_lstat fs p = Inr RegularFile \<and>
     map_ok (sha256_hex env) (fs_read fs p) = Inr (me_sha256 e)"

definition ledger_of ::
  "('j, 'd, 'ts) sdk_env \<Rightarrow> filesystem \<Rightarrow> path \<Rightarrow> manifest_entry list \<Rightarrow> path \<rightharpoonup> string" where
  "ledger_of env fs dir es p =
     (if \<exists>e\<in>set es. entry_ok env fs dir e p
      then to_option (map_ok (sha256_hex env) (fs_read fs p)) else None)"

lemma check_entry_iff:
  "check_entry env fs dir x e listed = Inr listed' \<longleftrightarrow>
     (\<exists>p. entry_ok env fs dir e p \<and> listed' = listed(p \<mapsto> me_sha256 e))"
  by (auto simp: check_entry_def entry_ok_def and_then_Inr_iff map_err_Inr_iff map_ok_Inr_iff
      split: if_splits)

lemma entry_ok_unique: "entry_ok env fs dir e p \<Longrightarrow> entry_ok env fs dir e q \<longleftrightarrow> q = p"
  by (auto simp: entry_ok_def)

lemma ledger_of_Nil [simp]: "ledger_of env fs dir [] = Map.empty"
  by (rule ext) (simp add: ledger_of_def)

lemma ledger_of_Cons:
  assumes "entry_ok env fs dir e p"
  shows "ledger_of env fs dir (e # es) = [p \<mapsto> me_sha256 e] ++ ledger_of env fs dir es"
proof (rule ext)
  fix q
  have hash: "to_option (map_ok (sha256_hex env) (fs_read fs p)) = Some (me_sha256 e)"
    using assms by (simp add: entry_ok_def)
  show "ledger_of env fs dir (e # es) q = ([p \<mapsto> me_sha256 e] ++ ledger_of env fs dir es) q"
  proof (cases "\<exists>x\<in>set es. entry_ok env fs dir x q")
    case True
    then obtain x where "entry_ok env fs dir x q" "x \<in> set es" by blast
    then have "ledger_of env fs dir es q = Some (me_sha256 x)"
      "ledger_of env fs dir (e # es) q = Some (me_sha256 x)"
      by (auto simp: ledger_of_def entry_ok_def)
    then show ?thesis by (simp add: map_add_def)
  next
    case False
    then have "ledger_of env fs dir es q = None" by (simp add: ledger_of_def)
    moreover have "ledger_of env fs dir (e # es) q = (if q = p then Some (me_sha256 e) else None)"
      using False hash entry_ok_unique [OF assms, of q] by (auto simp: ledger_of_def)
    ultimately show ?thesis by (simp add: map_add_def)
  qed
qed

lemma check_entries_iff:
  "for_each (check_entry env fs dir x) es m = Inr listed \<longleftrightarrow>
     (\<forall>e\<in>set es. \<exists>p. entry_ok env fs dir e p) \<and> listed = m ++ ledger_of env fs dir es"
proof (induction es arbitrary: m)
  case Nil
  then show ?case by auto
next
  case (Cons e es)
  show ?case
  proof (cases "\<exists>p. entry_ok env fs dir e p")
    case True
    then obtain p where p: "entry_ok env fs dir e p" by blast
    then have "check_entry env fs dir x e m = Inr (m(p \<mapsto> me_sha256 e))"
      by (auto simp: check_entry_iff)
    moreover have "m ++ ledger_of env fs dir (e # es) = m(p \<mapsto> me_sha256 e) ++ ledger_of env fs dir es"
      by (simp only: ledger_of_Cons [OF p] map_add_assoc map_add_upd map_add_empty)
    moreover have "\<exists>p. entry_ok env fs dir e p" using p by blast
    ultimately show ?thesis by (simp add: Cons.IH del: fun_upd_apply)
  next
    case False
    then have "check_entry env fs dir x e m \<noteq> Inr m'" for m' by (simp add: check_entry_iff)
    with False show ?thesis by (auto simp: and_then_Inr_iff)
  qed
qed

lemma check_coverage_iff:
  "check_coverage env dir x listed files = Inr u \<longleftrightarrow>
     set files \<subseteq> set (ledger_exempt env dir) \<union> dom listed"
  unfolding check_coverage_def
  by (induction files) (auto simp: and_then_Inr_iff)

lemma verify_dir_manifest_iff:
  "verify_dir_manifest env fs dir d = Inr ledger \<longleftrightarrow>
     (\<exists>raw m files. fs_read fs (join_name dir (manifest_entry_name env)) = Inr raw \<and>
        verify_manifest_binding env d raw = Inr () \<and>
        manifest_from_slice env raw = Inr m \<and> mf_schema m = manifest_schema_v1 env \<and>
        (\<forall>e\<in>set (mf_entries m). \<exists>p. entry_ok env fs dir e p) \<and>
        collect_pack_files fs dir = Inr files \<and>
        tree_files fs dir \<subseteq> set (ledger_exempt env dir) \<union> dom (ledger_of env fs dir (mf_entries m)) \<and>
        ledger = Some (ledger_of env fs dir (mf_entries m)))"
  (is "?lhs \<longleftrightarrow> ?rhs")
proof
  assume ?lhs
  then obtain raw m files where
    "fs_read fs (join_name dir (manifest_entry_name env)) = Inr raw"
    "verify_manifest_binding env d raw = Inr ()"
    "manifest_from_slice env raw = Inr m" "mf_schema m = manifest_schema_v1 env"
    "\<forall>e\<in>set (mf_entries m). \<exists>p. entry_ok env fs dir e p"
    "collect_pack_files fs dir = Inr files"
    "set files \<subseteq> set (ledger_exempt env dir) \<union> dom (ledger_of env fs dir (mf_entries m))"
    "ledger = Some (ledger_of env fs dir (mf_entries m))"
    unfolding verify_dir_manifest_def Let_def and_then_Inr_iff map_err_Inr_iff
    by (auto simp: check_entries_iff and_then_Inr_iff map_ok_Inr_iff check_coverage_iff split: if_splits)
  then show ?rhs using collect_pack_files_exact(1) [of fs dir files] by blast
next
  assume ?rhs
  then show ?lhs
    unfolding verify_dir_manifest_def Let_def
    using collect_pack_files_exact(1)
    by (auto simp: check_entries_iff and_then_Inr_iff map_ok_Inr_iff map_err_Inr_iff
        check_coverage_iff)
qed

lemma ledger_of_hash:
  "ledger_of env fs dir es p = Some h \<Longrightarrow>
     \<exists>e\<in>set es. entry_ok env fs dir e p \<and> me_sha256 e = h"
  by (auto simp: ledger_of_def entry_ok_def result_simps split: if_splits)

section \<open>The gate's decision\<close>

lemma integrity_checks_iff:
  "integrity_checks env he cfg fs dir d = Inr (key, L, root) \<longleftrightarrow>
     verify_self_consistent env d = Inr () \<and> d_public_key d = Some key \<and>
     verify_dir_manifest env fs dir d = Inr L \<and> resolve_trust_root he cfg = Inr root"
  by (auto simp: integrity_checks_def result_simps)

lemma verify_dir_signature_steps:
  "verify_dir_signature env he cfg fs ts dir = (r, ts') \<Longrightarrow>
     (ts' = ts \<and> (\<exists>e. r = Inl e)) \<or>
     (\<exists>d. read_describe env fs dir = Inr d \<and> he_allow_unsigned he \<and> r = Inr (d, None) \<and> ts' = ts) \<or>
     (\<exists>d key L root p. read_describe env fs dir = Inr d \<and> \<not> he_allow_unsigned he \<and>
        integrity_checks env he cfg fs dir d = Inr (key, L, root) \<and>
        pin_or_verify env ts root (d_id d) key = (p, ts') \<and>
        map_ok (\<lambda>_. (d, L)) (map_err (SignatureInvalid (d_id d)) p) = r)"
  by (auto simp: verify_dir_signature_def Let_def split: sum.splits if_splits prod.splits)

text \<open>A sequence of loads over time, each with the directory tree it finds: the store is carried
  along, and the describes accepted under a checked signature are recorded.\<close>

fun gate_run ::
  "('j, 'k, 't, 'w, 'ts) env \<Rightarrow> host_env \<Rightarrow> 'ho runtime_config \<Rightarrow> 'ts \<Rightarrow> (filesystem \<times> path) list
   \<Rightarrow> ('k, 't, 'w) describe list \<times> 'ts" where
  "gate_run env he cfg ts [] = ([], ts)"
| "gate_run env he cfg ts ((fs, dir) # loads) =
     (let (r, ts1) = verify_dir_signature env he cfg fs ts dir;
          (accepted, ts2) = gate_run env he cfg ts1 loads
      in ((case r of Inr (d, _) \<Rightarrow> d # accepted | Inl _ \<Rightarrow> accepted), ts2))"

text \<open>
  What the store documents: the first key seen for an id under a root is recorded, a later call
  succeeds only with that key, and no call changes another id's record or one already made.
\<close>

definition tofu_store ::
  "('j, 'd, 'ts) sdk_env \<Rightarrow> ('ts \<Rightarrow> path \<Rightarrow> string \<Rightarrow> string option) \<Rightarrow> bool" where
  "tofu_store env pinned \<longleftrightarrow>
     (\<forall>ts root x key. case pin_or_verify env ts root x key of (r, ts') \<Rightarrow>
        (r = Inr () \<longrightarrow> pinned ts' root x = Some key) \<and>
        (\<forall>root' x' k. pinned ts root' x' = Some k \<longrightarrow> pinned ts' root' x' = Some k))"

lemma tofu_storeD:
  assumes "tofu_store env pinned" and "pin_or_verify env ts root x key = (r, ts')"
  shows "r = Inr () \<Longrightarrow> pinned ts' root x = Some key"
    and "pinned ts root' x' = Some k \<Longrightarrow> pinned ts' root' x' = Some k"
proof -
  have "case pin_or_verify env ts root x key of (r, ts') \<Rightarrow>
        (r = Inr () \<longrightarrow> pinned ts' root x = Some key) \<and>
        (\<forall>root' x' k. pinned ts root' x' = Some k \<longrightarrow> pinned ts' root' x' = Some k)"
    using assms(1) by (simp add: tofu_store_def)
  then show "r = Inr () \<Longrightarrow> pinned ts' root x = Some key"
    and "pinned ts root' x' = Some k \<Longrightarrow> pinned ts' root' x' = Some k"
    by (simp_all add: assms(2))
qed

lemma gate_keeps_pins:
  assumes "tofu_store env pinned" and "pinned ts root x = Some k"
  shows "pinned (snd (verify_dir_signature env he cfg fs ts dir)) root x = Some k"
proof (cases "verify_dir_signature env he cfg fs ts dir")
  case (Pair r ts')
  from verify_dir_signature_steps [OF this] assms tofu_storeD(2) [OF assms(1)]
  show ?thesis unfolding Pair by fastforce
qed

lemma gate_run_keeps_pins:
  assumes "tofu_store env pinned"
  shows "pinned ts root x = Some k \<Longrightarrow> pinned (snd (gate_run env he cfg ts loads)) root x = Some k"
proof (induction loads arbitrary: ts)
  case (Cons load loads)
  obtain fs dir where "load = (fs, dir)" by fastforce
  with Cons.IH [OF gate_keeps_pins [OF assms Cons.prems]] show ?case
    by (simp add: case_prod_beta Let_def)
qed simp

lemma gate_pins_accepted:
  assumes "tofu_store env pinned" and "\<not> he_allow_unsigned he"
    and "verify_dir_signature env he cfg fs ts dir = (Inr (d, L), ts')"
  shows "\<exists>root key. resolve_trust_root he cfg = Inr root \<and> d_public_key d = Some key \<and>
           pinned ts' root (d_id d) = Some key"
  using verify_dir_signature_steps [OF assms(3)] assms(2) tofu_storeD(1) [OF assms(1)]
  by (auto simp: integrity_checks_iff result_simps)

lemma gate_run_pins_accepted:
  assumes "tofu_store env pinned" and "\<not> he_allow_unsigned he"
    and "d \<in> set (fst (gate_run env he cfg ts loads))"
  shows "\<exists>root key. resolve_trust_root he cfg = Inr root \<and> d_public_key d = Some key \<and>
           pinned (snd (gate_run env he cfg ts loads)) root (d_id d) = Some key"
  using assms(3)
proof (induction loads arbitrary: ts)
  case (Cons load loads)
  obtain fs dir where load: "load = (fs, dir)" by fastforce
  obtain r ts1 where gate: "verify_dir_signature env he cfg fs ts dir = (r, ts1)" by fastforce
  show ?case
  proof (cases "d \<in> set (fst (gate_run env he cfg ts1 loads))")
    case True
    from Cons.IH [OF this] show ?thesis by (simp add: load gate case_prod_beta Let_def)
  next
    case False
    with Cons.prems obtain L where "r = Inr (d, L)"
      by (auto simp: load gate case_prod_beta Let_def split: sum.splits)
    with gate gate_pins_accepted [OF assms(1,2)] gate_run_keeps_pins [OF assms(1)]
    show ?thesis by (fastforce simp: load case_prod_beta Let_def)
  qed
qed simp

section \<open>A concrete pack\<close>

text \<open>
  Concrete values for the parameters, on which the theorems' hypotheses hold: a describe document
  is its id, version and key separated by commas, the manifest lists \<open>extension.wasm\<close> with the
  digest it consists of, the digest is the identity, the store is an association list.
\<close>

definition example_describe :: "string \<Rightarrow> string \<Rightarrow> string \<Rightarrow> (unit, 't, 'w) describe" where
  "example_describe x v key =
     \<lparr>d_api_version = ''v2'', d_id = x, d_version = v, d_kind = (), d_public_key = Some key,
      d_offered = [\<lparr>oc_id = ''cap'', oc_version = v\<rparr>], d_components = [],
      d_permissions = permissions_default, d_tools = [], d_views = []\<rparr>"

type_synonym example_store = "((path \<times> string) \<times> string) list"

definition example_pin ::
  "example_store \<Rightarrow> path \<Rightarrow> string \<Rightarrow> string \<Rightarrow> (string, unit) result \<times> example_store" where
  "example_pin ts root x key =
     (case map_of ts (root, x) of
        None \<Rightarrow> (Inr (), ((root, x), key) # ts)
      | Some k \<Rightarrow> ((if k = key then Inr () else Inl ''pinned to another key''), ts))"

definition example_env :: "(string, (unit, 't, 'w) describe, example_store) sdk_env" where
  "example_env =
     \<lparr>json_from_slice = Inr,
      validate_describe_json = (\<lambda>_. Inr ()),
      describe_from_value = (\<lambda>j. case split_on (CHR '','') j of
          [x, v, key] \<Rightarrow> Inr (example_describe x v key) | _ \<Rightarrow> Inl ''not a describe''),
      verify_self_consistent = (\<lambda>_. Inr ()),
      verify_manifest_binding = (\<lambda>_ _. Inr ()),
      manifest_from_slice = (\<lambda>raw.
        Inr \<lparr>mf_schema = ''v1'', mf_entries = [\<lparr>me_path = ''extension.wasm'', me_sha256 = raw\<rparr>]\<rparr>),
      manifest_schema_v1 = ''v1'',
      manifest_entry_name = ''manifest.json'',
      describe_entry_name = ''describe.json'',
      sha256_hex = (\<lambda>bytes. bytes),
      pin_or_verify = example_pin\<rparr>"

definition example_fs :: "path \<Rightarrow> (string \<times> string) list \<Rightarrow> filesystem" where
  "example_fs dir files =
     (let absent = IoError IoNotFound ''absent'';
          content = map_of (map (\<lambda>(n, c). (dir @ [Normal n], c)) files) in
      \<lparr>fs_read = (\<lambda>p. ok_or absent (content p)),
       fs_lstat = (\<lambda>p. if p = dir then Inr Directory else map_ok (\<lambda>_. RegularFile) (ok_or absent (content p))),
       fs_read_dir = (\<lambda>p. if p = dir then Inr (map (Inr \<circ> fst) files) else Inl absent),
       fs_exists = (\<lambda>p. p = dir \<or> content p \<noteq> None)\<rparr>)"

definition example_dir :: path where "example_dir = [RootDir, Normal ''x'']"

definition example_pack :: "string \<Rightarrow> string \<Rightarrow> filesystem" where
  "example_pack header wasm =
     example_fs example_dir
       [(''describe.json'', header), (''manifest.json'', ''W''), (''extension.wasm'', wasm)]"

definition example_host :: host_env where
  "example_host =
     \<lparr>he_greentic_home = Some ''/g'', he_home_dir = None, he_allow_unsigned = False\<rparr>"

definition example_config :: "'ho \<Rightarrow> 'ho runtime_config" where
  "example_config ho = from_paths ho (discovery_new [RootDir])"

definition example_wasm :: path where "example_wasm = [RootDir, Normal ''x'', Normal ''extension.wasm'']"

lemma components_name: "plain_name n \<Longrightarrow> components n = [Normal n]"
  using components_join [of "[n]"] by simp

lemma plain_example_names [simp]:
  "plain_name ''describe.json''" "plain_name ''manifest.json''" "plain_name ''extension.wasm''"
  by (simp_all add: plain_name_def)

lemma join_plain [simp]: "plain_name n \<Longrightarrow> join_name dir n = dir @ [Normal n]"
  by (simp add: join_name_def components_name)

lemma pack_relative_plain [simp]: "plain_name n \<Longrightarrow> pack_relative_path dir n = Inr (dir @ [Normal n])"
  by (rule iffD2 [OF pack_relative_iff], rule exI [of _ "[n]"]) (simp add: components_name)

lemma example_env_fields [simp]:
  "json_from_slice example_env = Inr"
  "validate_describe_json example_env j = Inr ()"
  "verify_self_consistent example_env d = Inr ()"
  "verify_manifest_binding example_env d raw = Inr ()"
  "manifest_from_slice example_env raw =
     Inr \<lparr>mf_schema = ''v1'', mf_entries = [\<lparr>me_path = ''extension.wasm'', me_sha256 = raw\<rparr>]\<rparr>"
  "manifest_schema_v1 example_env = ''v1''"
  "manifest_entry_name example_env = ''manifest.json''"
  "describe_entry_name example_env = ''describe.json''"
  "sha256_hex example_env bytes = bytes"
  "pin_or_verify example_env = example_pin"
  by (simp_all add: example_env_def)

lemma example_walk:
  "collect_pack_files (example_pack h w) example_dir =
     Inr [example_dir @ [Normal ''describe.json''], example_dir @ [Normal ''manifest.json''],
          example_dir @ [Normal ''extension.wasm'']]"
  by (simp add: collect_pack_files_def collect_into.simps example_pack_def example_fs_def Let_def
      entry_path_def)

lemma example_manifest:
  "verify_dir_manifest example_env (example_pack h w) example_dir d =
     (if w = ''W'' then Inr (Some [example_dir @ [Normal ''extension.wasm''] \<mapsto> ''W''])
      else Inl (SignatureInvalid (d_id d)
        (''manifest sha256 mismatch for extension.wasm: expected W got '' @ w)))"
  unfolding verify_dir_manifest_def Let_def
  by (simp add: example_walk) (simp add: example_pack_def example_fs_def Let_def
      check_entry_def check_coverage_def ledger_exempt_def)

lemma example_read_describe:
  "read_describe example_env (example_pack h w) example_dir =
     map_err Json (case split_on (CHR '','') h of
        [x, v, key] \<Rightarrow> Inr (example_describe x v key) | _ \<Rightarrow> Inl ''not a describe'')"
  by (simp add: read_describe_def Let_def example_pack_def example_fs_def)
     (simp add: example_env_def)

lemma example_root: "resolve_trust_root example_host (example_config ho) = Inr [RootDir, Normal ''g'']"
  by (simp add: resolve_trust_root_def example_host_def example_config_def from_paths_def
      components_def body_components_def segment_def starts_with_def)

lemma example_describe_fields [simp]:
  "d_id (example_describe x v key) = x" "d_version (example_describe x v key) = v"
  "d_public_key (example_describe x v key) = Some key"
  by (simp_all add: example_describe_def)

lemma example_signed [simp]: "\<not> he_allow_unsigned example_host"
  by (simp add: example_host_def)

lemma example_gate:
  "verify_dir_signature example_env example_host (example_config ho) (example_pack h ''W'') ts example_dir =
     (case split_on (CHR '','') h of
        [x, v, key] \<Rightarrow>
          (let (r, ts') = example_pin ts [RootDir, Normal ''g''] x key in
           (map_ok (\<lambda>_. (example_describe x v key,
                          Some [example_dir @ [Normal ''extension.wasm''] \<mapsto> ''W'']))
              (map_err (SignatureInvalid x) r), ts'))
      | _ \<Rightarrow> (Inl (Json ''not a describe''), ts))"
  by (simp add: verify_dir_signature_def integrity_checks_def example_read_describe example_manifest
      example_root split: list.split)

lemma example_tofu: "tofu_store example_env (\<lambda>ts root x. map_of ts (root, x))"
  by (auto simp: tofu_store_def example_pin_def split: option.splits)

section \<open>Properties\<close>

text \<open>
  C36: A ledger path is accepted exactly when it consists of one or more plain segments, and then
  it resolves to the file below the pack root with those segments; every relative path of plain
  segments is accepted in its usual spelling. Absolute paths, the empty path, \<open>.\<close> and \<open>..\<close>
  are refused.
\<close>

theorem pack_relative_exact:
  "(pack_relative_path dir rel = Inr p \<longleftrightarrow>
      (\<exists>names. names \<noteq> [] \<and> list_all plain_name names \<and> components rel = map Normal names \<and>
         p = dir @ map Normal names)) \<and>
   {join_with ''/'' names | names. names \<noteq> [] \<and> list_all plain_name names}
     \<subseteq> {r. is_ok (pack_relative_path dir r)} \<and>
   (rel = [] \<or> hd rel = CHR ''/'' \<or> ParentDir \<in> set (components rel) \<or> CurDir \<in> set (components rel)
     \<longleftrightarrow> \<not> is_ok (pack_relative_path dir rel))"
proof (intro conjI)
  show "pack_relative_path dir rel = Inr p \<longleftrightarrow>
      (\<exists>names. names \<noteq> [] \<and> list_all plain_name names \<and> components rel = map Normal names \<and>
         p = dir @ map Normal names)"
    using components_plain by (auto simp: pack_relative_iff)
  show "{join_with ''/'' names | names. names \<noteq> [] \<and> list_all plain_name names}
     \<subseteq> {r. is_ok (pack_relative_path dir r)}"
    by (auto simp: is_ok_iff pack_relative_iff) (use components_join in blast)
  have root: "RootDir \<in> set (components rel) \<longleftrightarrow> rel \<noteq> [] \<and> hd rel = CHR ''/''"
    by (cases rel) (auto simp: components_def body_components_def segment_def starts_with_def)
  show "rel = [] \<or> hd rel = CHR ''/'' \<or> ParentDir \<in> set (components rel) \<or> CurDir \<in> set (components rel)
     \<longleftrightarrow> \<not> is_ok (pack_relative_path dir rel)"
  proof -
    have "is_normal c \<longleftrightarrow> c \<noteq> RootDir \<and> c \<noteq> ParentDir \<and> c \<noteq> CurDir" for c by (cases c) auto
    then have "list_all is_normal (components rel) \<longleftrightarrow>
      RootDir \<notin> set (components rel) \<and> ParentDir \<notin> set (components rel) \<and> CurDir \<notin> set (components rel)"
      by (auto simp: list_all_iff)
    then show ?thesis using root by (auto simp: pack_relative_path_def)
  qed
qed

text \<open>
  C7: When the manifest check accepts a directory, every file of the tree below it, found without
  following links, is exempt or listed; the tree nests at most 32 levels; and every listed path
  lies strictly below the pack root, is a regular file and hashes to the digest the ledger records.
\<close>

theorem accepted_pack_is_covered:
  assumes "verify_dir_manifest env fs dir d = Inr ledger"
  shows "\<exists>listed. ledger = Some listed \<and>
    tree_files fs dir \<subseteq> set (ledger_exempt env dir) \<union> dom listed \<and>
    (\<forall>k p. tree_entry fs dir k p \<longrightarrow> k \<le> MAX_PACK_DEPTH) \<and>
    (\<forall>p h. listed p = Some h \<longrightarrow>
       (\<exists>names. names \<noteq> [] \<and> list_all plain_name names \<and> p = dir @ map Normal names) \<and>
       fs_lstat fs p = Inr RegularFile \<and> map_ok (sha256_hex env) (fs_read fs p) = Inr h)"
proof -
  from assms obtain m :: manifest and files where
    "collect_pack_files fs dir = Inr files" and
    listed: "ledger = Some (ledger_of env fs dir (mf_entries m))"
    "tree_files fs dir \<subseteq> set (ledger_exempt env dir) \<union> dom (ledger_of env fs dir (mf_entries m))"
    unfolding verify_dir_manifest_iff by blast
  moreover have "(\<exists>names. names \<noteq> [] \<and> list_all plain_name names \<and> p = dir @ map Normal names) \<and>
       fs_lstat fs p = Inr RegularFile \<and> map_ok (sha256_hex env) (fs_read fs p) = Inr h"
    if "ledger_of env fs dir (mf_entries m) p = Some h" for p h
    using ledger_of_hash [OF that] components_plain by (auto simp: entry_ok_def pack_relative_iff)
  ultimately show ?thesis using collect_pack_files_exact(2) by blast
qed

theorem accepted_pack_is_covered_witness:
  "tree_files (example_pack ''e,1,K'' ''W'') example_dir
     \<subseteq> set (ledger_exempt example_env example_dir) \<union> {example_dir @ [Normal ''extension.wasm'']}"
proof -
  have "verify_dir_manifest example_env (example_pack ''e,1,K'' ''W'') example_dir
      (example_describe ''e'' ''1'' ''K'') =
    Inr (Some [example_dir @ [Normal ''extension.wasm''] \<mapsto> ''W''])"
    by (simp add: example_manifest)
  from accepted_pack_is_covered [OF this] show ?thesis by auto
qed

text \<open>
  C25: The walk over a directory that nests deeper than the limit is refused, also when the tree has
  no end, and so no manifest makes the gate accept it.
\<close>

theorem deep_tree_refused:
  assumes "tree_entry fs dir k p" and "MAX_PACK_DEPTH < k"
  shows "\<not> is_ok (collect_pack_files fs dir) \<and> \<not> is_ok (verify_dir_manifest env fs dir d)"
  using collect_pack_files_exact(2) [OF _ assms(1)] assms(2)
  by (auto simp: is_ok_iff verify_dir_manifest_iff)

definition endless_fs :: filesystem where
  "endless_fs =
     \<lparr>fs_read = (\<lambda>_. Inr ''W''), fs_lstat = (\<lambda>_. Inr Directory), fs_read_dir = (\<lambda>_. Inr [Inr ''a'']),
      fs_exists = (\<lambda>_. True)\<rparr>"

lemma endless_entry: "\<exists>p. tree_entry endless_fs dir k p"
proof (induction k arbitrary: dir)
  case 0
  show ?case by (rule exI, rule tree_entry.here [of _ _ "[Inr ''a'']" "''a''"]) (simp_all add: endless_fs_def)
next
  case (Suc k)
  from Suc [of "entry_path dir ''a''"] obtain p where "tree_entry endless_fs (entry_path dir ''a'') k p"
    by blast
  then have "tree_entry endless_fs dir (Suc k) p"
    by (rule tree_entry.below [of _ _ "[Inr ''a'']" "''a''", rotated 3]) (simp_all add: endless_fs_def)
  then show ?case by blast
qed

theorem deep_tree_refused_witness:
  "\<not> is_ok (collect_pack_files endless_fs example_dir) \<and>
   \<not> is_ok (verify_dir_manifest example_env endless_fs example_dir (example_describe ''e'' ''1'' ''K''))"
  using endless_entry [of example_dir 33] deep_tree_refused [of endless_fs example_dir 33]
  by (auto simp: MAX_PACK_DEPTH_def)

text \<open>
  C30: The anchor comes last. A run of the gate leaves the trust store as it found it, or the
  describe was read, is self-consistent and signed, the whole directory matched the manifest it
  binds and the root was resolved, and the store is what one call for the describe's own id and
  the key that signed it returned. A load that fails before that never writes a pin.
\<close>

theorem anchor_after_integrity:
  "snd (verify_dir_signature env he cfg fs ts dir) = ts \<or>
   (\<exists>d key ledger root. read_describe env fs dir = Inr d \<and> verify_self_consistent env d = Inr () \<and>
      d_public_key d = Some key \<and> verify_dir_manifest env fs dir d = Inr ledger \<and>
      resolve_trust_root he cfg = Inr root \<and>
      snd (verify_dir_signature env he cfg fs ts dir) = snd (pin_or_verify env ts root (d_id d) key))"
proof (cases "verify_dir_signature env he cfg fs ts dir")
  case (Pair r ts')
  from verify_dir_signature_steps [OF this] show ?thesis
    by (auto simp: Pair integrity_checks_iff)
qed

text \<open>
  C13: The gate accepts a directory with a describe and a ledger exactly when the describe reads and
  validates and, unless the development escape is on, it is self-consistent, carries a key, the
  directory matches its manifest with that ledger, and the store under the resolved root agrees
  with the key.
\<close>

theorem gate_accepts_exactly:
  "fst (verify_dir_signature env he cfg fs ts dir) = Inr (d, ledger) \<longleftrightarrow>
     read_describe env fs dir = Inr d \<and>
     (if he_allow_unsigned he then ledger = None
      else verify_self_consistent env d = Inr () \<and> verify_dir_manifest env fs dir d = Inr ledger \<and>
        (\<exists>key root. d_public_key d = Some key \<and> resolve_trust_root he cfg = Inr root \<and>
           fst (pin_or_verify env ts root (d_id d) key) = Inr ()))"
proof (cases "read_describe env fs dir")
  case (Inr e)
  show ?thesis
    by (cases "integrity_checks env he cfg fs dir e")
      (auto simp: verify_dir_signature_def Inr case_prod_beta result_simps integrity_checks_iff
        split: sum.splits, auto simp: integrity_checks_def result_simps)
qed (simp add: verify_dir_signature_def)

text \<open>
  One publisher per id. With a trust store that keeps its records, all describes accepted for
  an id over any sequence of loads of any directories, each with the tree it finds, carry the same
  publisher key.
\<close>

theorem one_publisher_per_id:
  assumes "tofu_store env pinned" and "\<not> he_allow_unsigned he"
    and "d \<in> set (fst (gate_run env he cfg ts loads))" and "e \<in> set (fst (gate_run env he cfg ts loads))"
    and "d_id d = d_id e"
  shows "d_public_key d = d_public_key e"
  using gate_run_pins_accepted [OF assms(1,2,3)] gate_run_pins_accepted [OF assms(1,2,4)] assms(5)
  by auto

theorem one_publisher_per_id_witness:
  "let loads = map (\<lambda>h. (example_pack h ''W'', example_dir)) [''e,1,K'', ''e,2,L'', ''e,3,K''];
       accepted :: (unit, unit, unit) describe list = fst (gate_run example_env example_host (example_config ()) [] loads)
   in accepted = [example_describe ''e'' ''1'' ''K'', example_describe ''e'' ''3'' ''K''] \<and>
      d_public_key (accepted ! 0) = d_public_key (accepted ! 1)"
proof -
  define loads where "loads = map (\<lambda>h. (example_pack h ''W'', example_dir)) [''e,1,K'', ''e,2,L'', ''e,3,K'']"
  define accepted :: "(unit, unit, unit) describe list" where "accepted = fst (gate_run example_env example_host (example_config ()) [] loads)"
  have run: "accepted = [example_describe ''e'' ''1'' ''K'', example_describe ''e'' ''3'' ''K'']"
    by (simp add: accepted_def loads_def example_gate example_pin_def)
  then have "d_public_key (accepted ! 0) = d_public_key (accepted ! 1)"
    unfolding accepted_def
    by (intro one_publisher_per_id
          [OF example_tofu example_signed, where cfg = "example_config ()" and ts = "[]" and loads = loads])
      simp_all
  with run show ?thesis unfolding accepted_def loads_def Let_def by (intro conjI)
qed

end
