(* ===== verification/Loaded.thy ===== *)
theory Loaded
  imports Verify
begin

text \<open>
  The load half of \<open>loaded.rs\<close> and the path half of \<open>runtime_views.rs\<close>: which file of a pack is
  compiled, the construction of a loaded extension from the describe and the ledger the gate
  checked, and the resolution of a declared view's files.

  The component compiler is a parameter, as is the rendering of a string under \<open>Debug\<close>. Loading
  observes the filesystem at a later moment than the gate: the two are unrelated records, and the
  theorem on loaded code holds whatever happened in between.
\<close>

section \<open>Loaded extensions\<close>

record ('k, 't, 'w, 'c) loaded_extension =
  le_id :: string
  le_describe :: "('k, 't, 'w) describe"
  le_kind :: 'k
  le_source_dir :: path
  le_component :: 'c
  le_health :: extension_health

definition DESIGN_WASM_NAME :: string where "DESIGN_WASM_NAME = ''extension.wasm''"

definition wasm_component_path ::
  "(string \<Rightarrow> string) \<Rightarrow> filesystem \<Rightarrow> ('k, 't, 'w) describe \<Rightarrow> path \<Rightarrow> (string, path) result" where
  "wasm_component_path dbg fs d source_dir =
     (let design_wasm = join_name source_dir DESIGN_WASM_NAME in
      if fs_exists fs design_wasm then Inr design_wasm
      else (case d_components d of
              [] \<Rightarrow> Inl ''describe.runtime.components must declare at least one entry''
            | [(x, gtpack)] \<Rightarrow>
                and_then
                  (ok_or (''describe.runtime.components['' @ dbg x @ ''].gtpack must be set for ''
                      @ ''source-dir loads (OCI-only deploy is not yet supported)'') gtpack)
                  (\<lambda>file. map_err (\<lambda>e. ''describe.runtime.components['' @ dbg x @ ''].gtpack.file: '' @ e)
                     (pack_relative_path source_dir file))
            | _ # _ # _ \<Rightarrow>
                Inl (''describe.runtime.components has more than one entry; multi-component dispatch ''
                     @ ''is not yet implemented'')))"

definition from_verified ::
  "('j, 'd, 'ts) sdk_env \<Rightarrow> (string \<Rightarrow> (string, 'c) result) \<Rightarrow> (string \<Rightarrow> string) \<Rightarrow> filesystem
   \<Rightarrow> path \<Rightarrow> ('k, 't, 'w) describe \<Rightarrow> ledger \<Rightarrow> (string, ('k, 't, 'w, 'c) loaded_extension) result" where
  "from_verified env compile dbg fs source_dir d ledger =
     and_then (wasm_component_path dbg fs d source_dir) (\<lambda>wasm_path.
     and_then (read_verified env fs ledger wasm_path) (\<lambda>wasm.
     and_then (compile wasm) (\<lambda>component.
       Inr \<lparr>le_id = d_id d, le_describe = d, le_kind = d_kind d, le_source_dir = source_dir,
            le_component = component, le_health = Healthy\<rparr>)))"

section \<open>Views\<close>

definition view_to_definition ::
  "(string \<Rightarrow> string) \<Rightarrow> ('su, 'pl, 'vi) view \<Rightarrow> path
   \<Rightarrow> (runtime_error, ('su, 'pl, 'vi, path) view_definition) result" where
  "view_to_definition dbg v source_dir =
     and_then
       (map_err (\<lambda>e. Wasmtime (''view '' @ dbg (v_id v) @ '' asset dir: '' @ e))
          (pack_relative_path source_dir (''assets/views/'' @ v_id v))) (\<lambda>asset_dir.
     and_then
       (map_err (\<lambda>e. Wasmtime (''view '' @ dbg (v_id v) @ '' entry: '' @ e))
          (pack_relative_path asset_dir (v_entry v))) (\<lambda>entry_path.
       Inr \<lparr>vd_id = v_id v, vd_surface = v_surface v, vd_title_key = v_title_key v,
            vd_title_fallback = v_title_fallback v, vd_icon = v_icon v, vd_entry = v_entry v,
            vd_placement = v_placement v, vd_min_visibility = v_min_visibility v,
            vd_tools = v_tools v, vd_asset_dir = asset_dir, vd_entry_path = entry_path\<rparr>))"

section \<open>What is compiled\<close>

lemma read_verified_ledger:
  assumes "read_verified env fs (Some entries) p = Inr bytes"
  shows "entries p = Some (sha256_hex env bytes)" and "fs_read fs p = Inr bytes"
  using assms by (auto simp: read_verified_def result_simps)

lemma from_verified_bytes:
  assumes "from_verified env compile dbg fs dir d (Some entries) = Inr ext"
  shows "\<exists>p bytes. fs_read fs p = Inr bytes \<and> entries p = Some (sha256_hex env bytes) \<and>
           compile bytes = Inr (le_component ext)"
proof -
  from assms obtain p bytes where "read_verified env fs (Some entries) p = Inr bytes"
    and "compile bytes = Inr (le_component ext)"
    by (auto simp: from_verified_def result_simps)
  with read_verified_ledger show ?thesis by blast
qed

lemma from_verified_fields:
  assumes "from_verified env compile dbg fs dir d ledger = Inr ext"
  shows "le_id ext = d_id d" and "le_describe ext = d" and "le_kind ext = d_kind d"
    and "le_source_dir ext = dir" and "le_health ext = Healthy"
  using assms by (auto simp: from_verified_def result_simps)

lemma gate_and_load_signed:
  assumes gate: "verify_dir_signature env he cfg gate_fs ts dir = (Inr (d, ledger), ts')"
    and signed: "\<not> he_allow_unsigned he"
    and load: "from_verified env compile dbg load_fs dir d ledger = Inr ext"
  shows "\<exists>raw m entry p bytes. verify_self_consistent env d = Inr () \<and>
           verify_manifest_binding env d raw = Inr () \<and> manifest_from_slice env raw = Inr m \<and>
           entry \<in> set (mf_entries m) \<and> pack_relative_path dir (me_path entry) = Inr p \<and>
           fs_read load_fs p = Inr bytes \<and> sha256_hex env bytes = me_sha256 entry \<and>
           compile bytes = Inr (le_component ext) \<and>
           le_id ext = d_id d \<and> le_describe ext = d \<and> le_kind ext = d_kind d"
proof -
  from verify_dir_signature_steps [OF gate] signed
  have self: "verify_self_consistent env d = Inr ()" and "verify_dir_manifest env gate_fs dir d = Inr ledger"
    by (auto simp: integrity_checks_iff result_simps)
  then obtain raw and m :: manifest where raw: "verify_manifest_binding env d raw = Inr ()" "manifest_from_slice env raw = Inr m"
    and ledger: "ledger = Some (ledger_of env gate_fs dir (mf_entries m))"
    unfolding verify_dir_manifest_iff by blast
  from from_verified_bytes [OF load [unfolded ledger]] obtain p bytes where
    bytes: "fs_read load_fs p = Inr bytes" "compile bytes = Inr (le_component ext)"
    and "ledger_of env gate_fs dir (mf_entries m) p = Some (sha256_hex env bytes)"
    by blast
  from ledger_of_hash [OF this(3)] obtain entry :: manifest_entry where "entry \<in> set (mf_entries m)"
    "entry_ok env gate_fs dir entry p" "me_sha256 entry = sha256_hex env bytes" by blast
  with self raw bytes from_verified_fields [OF load] show ?thesis
    by (intro exI [of _ raw] exI [of _ m] exI [of _ entry] exI [of _ p] exI [of _ bytes])
      (simp add: entry_ok_def)
qed

text \<open>
  C8: No time of check, time of use. An extension built after the gate passed under a signed
  manifest runs code compiled from bytes whose digest is recorded in an entry of a manifest the
  signed describe is bound to, for a file inside the pack, whatever happened to the tree between
  the gate and the load; its id, permissions and kind are those of the describe the gate checked.
\<close>

theorem loaded_code_is_signed:
  assumes gate: "verify_dir_signature env he cfg gate_fs ts dir = (Inr (d, ledger), ts')"
    and signed: "\<not> he_allow_unsigned he"
    and load: "from_verified env compile dbg load_fs dir d ledger = Inr ext"
  shows "\<exists>raw m entry p bytes. verify_self_consistent env d = Inr () \<and>
           verify_manifest_binding env d raw = Inr () \<and> manifest_from_slice env raw = Inr m \<and>
           entry \<in> set (mf_entries m) \<and> pack_relative_path dir (me_path entry) = Inr p \<and>
           fs_read load_fs p = Inr bytes \<and> sha256_hex env bytes = me_sha256 entry \<and>
           compile bytes = Inr (le_component ext) \<and>
           le_id ext = d_id d \<and> le_describe ext = d \<and> le_kind ext = d_kind d"
  by (rule gate_and_load_signed [OF assms])

lemma example_load:
  "from_verified example_env Inr dbg (example_pack h' w) example_dir d
     (Some [example_dir @ [Normal ''extension.wasm''] \<mapsto> ''W'']) =
   (if w = ''W'' then Inr \<lparr>le_id = d_id d, le_describe = d, le_kind = d_kind d,
      le_source_dir = example_dir, le_component = ''W'', le_health = Healthy\<rparr>
    else Inl (''/x/extension.wasm changed after verification: manifest recorded W, read '' @ w))"
  by (simp add: from_verified_def wasm_component_path_def DESIGN_WASM_NAME_def read_verified_def
      example_pack_def example_fs_def Let_def ensure_def path_display_def example_dir_def)

theorem loaded_code_is_signed_witness:
  "\<exists>ext :: (unit, unit, unit, string) loaded_extension.
     from_verified (example_env :: (string, (unit, unit, unit) describe, example_store) sdk_env)
       Inr id (example_pack ''x,9,Z'' ''W'') example_dir (example_describe ''e'' ''1'' ''K'') (Some [example_dir @ [Normal ''extension.wasm''] \<mapsto> ''W'']) = Inr ext \<and>
     le_id ext = ''e''"
proof -
  let ?d = "example_describe ''e'' ''1'' ''K'' :: (unit, unit, unit) describe"
  let ?L = "Some [example_dir @ [Normal ''extension.wasm''] \<mapsto> ''W'']"
  have gate: "verify_dir_signature example_env example_host (example_config ())
      (example_pack ''e,1,K'' ''W'') [] example_dir =
    (Inr (?d, ?L), [(([RootDir, Normal ''g''], ''e''), ''K'')])"
    by (simp add: example_gate example_pin_def)
  obtain ext where ext: "from_verified (example_env :: (string, (unit, unit, unit) describe, example_store) sdk_env)
      Inr id (example_pack ''x,9,Z'' ''W'') example_dir ?d ?L = Inr ext"
    by (simp add: example_load)
  from loaded_code_is_signed [OF gate example_signed ext] ext show ?thesis by auto
qed

text \<open>
  A file the manifest does not list is never compiled: when the component path the loader picks
  is not in the checked ledger, as with an \<open>extension.wasm\<close> dropped into a pack that ships none, or
  its bytes do not hash to the recorded digest, there is no loaded extension.
\<close>

theorem unlisted_component_refused:
  assumes "wasm_component_path dbg fs d dir = Inr p"
    and "entries p = None \<or> map_ok (sha256_hex env) (fs_read fs p) \<noteq> map_ok the (Inr (entries p))"
  shows "\<not> is_ok (from_verified env compile dbg fs dir d (Some entries))"
  using assms by (auto simp: from_verified_def result_simps read_verified_def)

theorem unlisted_component_refused_witness:
  "\<not> is_ok (from_verified example_env Inr id (example_pack ''e,1,K'' ''V'') example_dir
       (example_describe ''e'' ''1'' ''K'' :: (unit, unit, unit) describe) (Some Map.empty)
       :: (string, (unit, unit, unit, string) loaded_extension) result)"
  by (rule unlisted_component_refused [where p = "example_dir @ [Normal ''extension.wasm'']"])
    (simp_all add: wasm_component_path_def DESIGN_WASM_NAME_def example_pack_def example_fs_def Let_def)

section \<open>Where a view's files are\<close>

lemma split_on_prefix: "c \<notin> set a \<Longrightarrow> split_on c (a @ [c] @ s) = a # split_on c s"
  by (simp add: split_on_append)

lemma components_asset_dir:
  "components (''assets/views/'' @ x) =
     Normal ''assets'' # Normal ''views'' # body_components (split_on (CHR ''/'') x)"
proof -
  have "split_on (CHR ''/'') (''assets/views/'' @ x) = ''assets'' # ''views'' # split_on (CHR ''/'') x"
    using split_on_prefix [of "CHR ''/''" "''assets''" "''views/'' @ x"]
      split_on_prefix [of "CHR ''/''" "''views''" x] by simp
  then show ?thesis by (simp add: components_split body_components_def segment_def)
qed

text \<open>
  C40: A view definition is produced exactly when the view's id and entry are free of \<open>..\<close> and the
  entry is a plain relative path; then the asset directory is \<open>assets/views\<close> of the pack followed
  by the plain segments of the id, the entry file lies strictly below it, and the declared
  fields are copied unchanged.
\<close>

theorem view_paths_inside:
  "view_to_definition dbg v dir = Inr vd \<longleftrightarrow>
     (\<exists>ids names. list_all plain_name ids \<and> list_all plain_name names \<and> names \<noteq> [] \<and>
        components (''assets/views/'' @ v_id v) = map Normal (''assets'' # ''views'' # ids) \<and>
        components (v_entry v) = map Normal names \<and>
        vd_asset_dir vd = dir @ map Normal (''assets'' # ''views'' # ids) \<and>
        vd_entry_path vd = vd_asset_dir vd @ map Normal names) \<and>
     vd_id vd = v_id v \<and> vd_surface vd = v_surface v \<and> vd_title_key vd = v_title_key v \<and>
     vd_title_fallback vd = v_title_fallback v \<and> vd_icon vd = v_icon v \<and> vd_entry vd = v_entry v \<and>
     vd_placement vd = v_placement v \<and> vd_min_visibility vd = v_min_visibility v \<and>
     vd_tools vd = v_tools v"
proof -
  have asset: "pack_relative_path dir (''assets/views/'' @ v_id v) = Inr a \<longleftrightarrow>
     (\<exists>ids. list_all plain_name ids \<and>
        components (''assets/views/'' @ v_id v) = map Normal (''assets'' # ''views'' # ids) \<and>
        a = dir @ map Normal (''assets'' # ''views'' # ids))" for a
  proof
    assume "pack_relative_path dir (''assets/views/'' @ v_id v) = Inr a"
    then obtain names where names: "components (''assets/views/'' @ v_id v) = map Normal names"
      "a = dir @ map Normal names" by (auto simp: pack_relative_iff)
    moreover from this(1) obtain ids where "names = ''assets'' # ''views'' # ids"
      unfolding components_asset_dir by (auto simp: Cons_eq_map_conv)
    moreover have "list_all plain_name names" using names(1) by (rule components_plain)
    ultimately show "\<exists>ids. list_all plain_name ids \<and>
        components (''assets/views/'' @ v_id v) = map Normal (''assets'' # ''views'' # ids) \<and>
        a = dir @ map Normal (''assets'' # ''views'' # ids)" by auto
  qed (auto simp: pack_relative_iff intro: exI [of _ "''assets'' # ''views'' # _"])
  have entry: "pack_relative_path a (v_entry v) = Inr p \<longleftrightarrow>
     (\<exists>names. list_all plain_name names \<and> names \<noteq> [] \<and> components (v_entry v) = map Normal names \<and>
        p = a @ map Normal names)" for a p
    using components_plain by (auto simp: pack_relative_iff)
  show ?thesis
    unfolding view_to_definition_def and_then_Inr_iff map_err_Inr_iff asset entry
    by (cases vd) auto
qed

end
