(* ===== verification/Capability.thy ===== *)
theory Capability
  imports Prelude "HOL-Library.Multiset"
begin

text \<open>
  \<open>capability.rs\<close>: the registry of offered capabilities, the resolution of an extension's
  requirements against it, and the search for dependency cycles.

  The \<open>semver\<close> crate is a parameter: \<open>semver_api\<close> carries its two parsers and the match of a
  requirement with a version; versions are a linear order, as \<open>semver::Version\<close> is under \<open>Ord\<close>.
  A \<open>CapabilityId\<close> is a string. The SDK's \<open>CapabilityRef\<close> is an extensible record, so that
  the fields the code never reads stay open. The traversal is modelled with its mutable
  visited set passed through every call; the lemmas show that it decides whether a node reaches a
  cycle of the declared dependency graph.
\<close>

section \<open>Data\<close>

type_synonym capability_id = string

record capability_ref =
  cr_id :: capability_id
  cr_version :: string

record ('v, 'r) semver_api =
  parse_version :: "string \<Rightarrow> (string, 'v) result"
  parse_req :: "string \<Rightarrow> (string, 'r) result"
  req_matches :: "'r \<Rightarrow> 'v \<Rightarrow> bool"

record ('v, 'k) offered_binding =
  ob_extension_id :: string
  ob_cap_id :: capability_id
  ob_version :: 'v
  ob_kind :: 'k
  ob_export_path :: string

record ('v, 'k) resolution_plan =
  rp_consumer :: string
  rp_resolved :: "(capability_id, ('v, 'k) offered_binding) hashmap"
  rp_unresolved :: "capability_ref list"

type_synonym ('v, 'k) capability_registry =
  "(capability_id, ('v, 'k) offered_binding list) hashmap"

section \<open>Operations\<close>

definition registry_new :: "('v, 'k) capability_registry" where
  "registry_new = []"

definition add_offering ::
  "('v, 'k) capability_registry \<Rightarrow> ('v, 'k) offered_binding \<Rightarrow> ('v, 'k) capability_registry" where
  "add_offering reg ob =
     AList.update (ob_cap_id ob)
       ((case map_of reg (ob_cap_id ob) of None \<Rightarrow> [] | Some os \<Rightarrow> os) @ [ob]) reg"

definition offerings :: "('v, 'k) capability_registry \<Rightarrow> ('v, 'k) offered_binding list" where
  "offerings reg = concat (map snd reg)"

text \<open>A requirement that does not parse is unresolvable.\<close>

definition parse_requirement :: "('v, 'r) semver_api \<Rightarrow> string \<Rightarrow> 'r option" where
  "parse_requirement sv raw = to_option (parse_req sv raw)"

text \<open>\<open>Iterator::max_by\<close>: of several maximal elements the last is returned.\<close>

fun max_by_key :: "('a \<Rightarrow> 'v::linorder) \<Rightarrow> 'a list \<Rightarrow> 'a option" where
  "max_by_key key [] = None"
| "max_by_key key (x # xs) = Some (foldl (\<lambda>m y. if key m > key y then m else y) x xs)"

definition matching_offers ::
  "('v, 'r) semver_api \<Rightarrow> ('v, 'k) capability_registry \<Rightarrow> capability_id \<Rightarrow> 'r
     \<Rightarrow> ('v, 'k) offered_binding list" where
  "matching_offers sv reg c vr =
     (case map_of reg c of None \<Rightarrow> [] | Some offers \<Rightarrow> filter (\<lambda>ob. req_matches sv vr (ob_version ob)) offers)"

definition best_offer ::
  "('v::linorder, 'r) semver_api \<Rightarrow> ('v, 'k) capability_registry \<Rightarrow> capability_ref
     \<Rightarrow> ('v, 'k) offered_binding option" where
  "best_offer sv reg req =
     (case parse_requirement sv (cr_version req) of
        None \<Rightarrow> None
      | Some vr \<Rightarrow> max_by_key ob_version (matching_offers sv reg (cr_id req) vr))"

fun resolve_loop ::
  "('v::linorder, 'r) semver_api \<Rightarrow> ('v, 'k) capability_registry \<Rightarrow> capability_ref list
     \<Rightarrow> (capability_id, ('v, 'k) offered_binding) hashmap \<Rightarrow> capability_ref list
     \<Rightarrow> (capability_id, ('v, 'k) offered_binding) hashmap \<times> capability_ref list" where
  "resolve_loop sv reg [] resolved unresolved = (resolved, unresolved)"
| "resolve_loop sv reg (req # reqs) resolved unresolved =
     (case best_offer sv reg req of
        Some ob \<Rightarrow> resolve_loop sv reg reqs (AList.update (cr_id req) ob resolved) unresolved
      | None \<Rightarrow> resolve_loop sv reg reqs resolved (unresolved @ [req]))"

definition resolve ::
  "('v::linorder, 'r) semver_api \<Rightarrow> ('v, 'k) capability_registry \<Rightarrow> string \<Rightarrow> capability_ref list
     \<Rightarrow> ('v, 'k) resolution_plan" where
  "resolve sv reg consumer required =
     (case resolve_loop sv reg required [] [] of
        (resolved, unresolved) \<Rightarrow>
          \<lparr>rp_consumer = consumer, rp_resolved = resolved, rp_unresolved = unresolved\<rparr>)"

section \<open>Cycle detection\<close>

text \<open>The extensions the offers of one requirement list lead to, in the order of the two loops.\<close>

definition targets ::
  "('v, 'r) semver_api \<Rightarrow> ('v, 'k) capability_registry \<Rightarrow> capability_ref list \<Rightarrow> string list" where
  "targets sv reg reqs =
     concat (map (\<lambda>req.
        (case parse_requirement sv (cr_version req) of
           None \<Rightarrow> []
         | Some vr \<Rightarrow> map ob_extension_id (matching_offers sv reg (cr_id req) vr))) reqs)"

type_synonym ext_reqs = "(string, capability_ref list) hashmap"

text \<open>Each call returns the answer and the visited set as the code leaves it.\<close>

function (sequential) dfs_has_cycle ::
  "('v, 'r) semver_api \<Rightarrow> ('v, 'k) capability_registry \<Rightarrow> ext_reqs \<Rightarrow> string \<Rightarrow> string set
     \<Rightarrow> bool \<times> string set"
  and dfs_targets ::
  "('v, 'r) semver_api \<Rightarrow> ('v, 'k) capability_registry \<Rightarrow> ext_reqs \<Rightarrow> string list \<Rightarrow> string set
     \<Rightarrow> bool \<times> string set" where
  "dfs_has_cycle sv reg m ext_id visited =
     (if ext_id \<in> visited then (True, visited)
      else (case map_of m ext_id of
              None \<Rightarrow> (False, insert ext_id visited - {ext_id})
            | Some reqs \<Rightarrow>
                (case dfs_targets sv reg m (targets sv reg reqs) (insert ext_id visited) of
                   (found, v) \<Rightarrow> if found then (True, v) else (False, v - {ext_id}))))"
| "dfs_targets sv reg m [] visited = (False, visited)"
| "dfs_targets sv reg m (t # ts) visited =
     (case dfs_has_cycle sv reg m t visited of
        (found, v) \<Rightarrow> if found then (True, v) else dfs_targets sv reg m ts v)"
  by pat_completeness auto

text \<open>A call that finds nothing restores the visited set; the recursion needs this to terminate.\<close>

lemma dfs_restores_partial:
  "dfs_has_cycle_dfs_targets_dom (Inl (sv, reg, m, x, vis)) \<Longrightarrow>
     \<not> fst (dfs_has_cycle sv reg m x vis) \<Longrightarrow> snd (dfs_has_cycle sv reg m x vis) = vis"
  "dfs_has_cycle_dfs_targets_dom (Inr (sv, reg, m, ts, vis)) \<Longrightarrow>
     \<not> fst (dfs_targets sv reg m ts vis) \<Longrightarrow> snd (dfs_targets sv reg m ts vis) = vis"
proof (induction sv reg m x vis and sv reg m ts vis rule: dfs_has_cycle_dfs_targets.pinduct)
  case (1 sv reg m x vis)
  then show ?case
    by (auto simp: dfs_has_cycle.psimps split: if_splits option.splits prod.splits)
next
  case (2 sv reg m vis)
  then show ?case by (simp add: dfs_targets.psimps)
next
  case (3 sv reg m t ts vis)
  then show ?case
    by (auto simp: dfs_targets.psimps split: if_splits prod.splits)
qed

termination dfs_has_cycle
proof (relation "measures [
    \<lambda>p. (case p of Inl (sv, reg, m, x, vis) \<Rightarrow> card (fst ` set m - vis)
                 | Inr (sv, reg, m, ts, vis) \<Rightarrow> card (fst ` set m - vis)),
    \<lambda>p. (case p of Inl (sv, reg, m, x, vis) \<Rightarrow> 0
                 | Inr (sv, reg, m, ts, vis) \<Rightarrow> Suc (length ts))]", goal_cases)
  case 1
  show ?case by simp
next
  case (2 sv reg m x vis reqs)
  then have "x \<in> fst ` set m - vis" by (force dest: map_of_SomeD)
  then have "card (fst ` set m - insert x vis) < card (fst ` set m - vis)"
    by (metis Diff_insert card_Diff1_less finite_Diff finite_imageI List.finite_set)
  then show ?case by simp
next
  case (3 sv reg m t ts vis)
  show ?case by simp
next
  case (4 sv reg m t ts vis found v)
  then have "v = vis" using dfs_restores_partial(1) [of sv reg m t vis] by (metis fst_conv snd_conv)
  then show ?case by simp
qed

declare dfs_has_cycle.simps [simp del] dfs_targets.simps [simp del]

definition ext_map_of :: "(string \<times> capability_ref list) list \<Rightarrow> ext_reqs" where
  "ext_map_of exts = foldl (\<lambda>m (x, reqs). AList.update x reqs m) [] exts"

definition detect_cycle ::
  "('v, 'r) semver_api \<Rightarrow> ('v, 'k) capability_registry \<Rightarrow> (string \<times> capability_ref list) list
     \<Rightarrow> string list" where
  "detect_cycle sv reg exts =
     filter (\<lambda>x. fst (dfs_has_cycle sv reg (ext_map_of exts) x {})) (map fst exts)"

section \<open>Facts about resolution\<close>

lemma foldl_max_by:
  "foldl (\<lambda>m y. if key m > key y then m else y) x xs \<in> insert x (set xs) \<and>
   (\<forall>y \<in> insert x (set xs). key y \<le> (key (foldl (\<lambda>m y. if key m > key y then m else y) x xs) :: 'v::linorder))"
proof (induction xs arbitrary: x)
  case Nil
  show ?case by simp
next
  case (Cons a xs)
  then show ?case by (cases "key x > key a") (simp_all, (meson dual_order.trans less_imp_le not_le)+)
qed

lemma max_by_key_Some:
  assumes "max_by_key key xs = Some b"
  shows "b \<in> set xs" and "y \<in> set xs \<Longrightarrow> key y \<le> key b"
  using assms foldl_max_by [of key "hd xs" "tl xs"] by (cases xs; auto)+

lemma max_by_key_None [simp]: "max_by_key key xs = None \<longleftrightarrow> xs = []"
  by (cases xs) simp_all

lemma max_by_key_key_mset:
  assumes "mset xs = mset ys"
  shows "map_option key (max_by_key key xs) = map_option key (max_by_key key ys)"
proof (cases "max_by_key key xs")
  case None
  with assms show ?thesis by simp
next
  case (Some b)
  with assms have "max_by_key key ys \<noteq> None" by auto
  then obtain c where c: "max_by_key key ys = Some c" by (cases "max_by_key key ys") simp_all
  from assms have "set xs = set ys" by (rule mset_eq_setD)
  then have "key b = key c"
    using max_by_key_Some [OF Some] max_by_key_Some [OF c] by (metis order_antisym)
  with Some c show ?thesis by simp
qed

lemma matching_offers_iff:
  "ob \<in> set (matching_offers sv reg c vr) \<longleftrightarrow>
     (\<exists>os. map_of reg c = Some os \<and> ob \<in> set os \<and> req_matches sv vr (ob_version ob))"
  by (cases "map_of reg c") (auto simp: matching_offers_def)

text \<open>What it means that an offer answers a requirement.\<close>

definition answers ::
  "('v, 'r) semver_api \<Rightarrow> ('v, 'k) capability_registry \<Rightarrow> capability_ref
     \<Rightarrow> ('v, 'k) offered_binding \<Rightarrow> bool" where
  "answers sv reg req ob \<longleftrightarrow>
     (\<exists>vr os. parse_req sv (cr_version req) = Inr vr \<and> map_of reg (cr_id req) = Some os \<and>
        ob \<in> set os \<and> req_matches sv vr (ob_version ob))"

lemma best_offer_Some:
  assumes "best_offer sv reg req = Some ob"
  shows "answers sv reg req ob"
    and "answers sv reg req other \<Longrightarrow> ob_version other \<le> ob_version ob"
proof -
  from assms obtain vr where vr: "parse_req sv (cr_version req) = Inr vr"
    and max: "max_by_key ob_version (matching_offers sv reg (cr_id req) vr) = Some ob"
    by (auto simp: best_offer_def parse_requirement_def result_simps split: option.splits)
  show "answers sv reg req ob"
    using vr max_by_key_Some(1) [OF max] by (auto simp: answers_def matching_offers_iff)
  assume "answers sv reg req other"
  with vr have "other \<in> set (matching_offers sv reg (cr_id req) vr)"
    by (auto simp: answers_def matching_offers_iff)
  then show "ob_version other \<le> ob_version ob" by (rule max_by_key_Some(2) [OF max])
qed

lemma best_offer_None: "best_offer sv reg req = None \<longleftrightarrow> (\<nexists>ob. answers sv reg req ob)"
proof -
  have "matching_offers sv reg (cr_id req) vr = [] \<longleftrightarrow>
      (\<nexists>ob. ob \<in> set (matching_offers sv reg (cr_id req) vr))" for vr
    by auto
  then show ?thesis
    by (auto simp: best_offer_def parse_requirement_def answers_def matching_offers_iff result_simps
        split: option.splits)
qed

text \<open>The loop in closed form: a requirement is unresolved exactly when no offer answers it, and
  the binding of an id is that of the last requirement on it that has one.\<close>

lemma resolve_loop_unresolved:
  "snd (resolve_loop sv reg reqs res unres) =
     unres @ filter (\<lambda>r. best_offer sv reg r = None) reqs"
  by (induction reqs arbitrary: res unres) (auto split: option.splits)

lemma resolve_loop_resolved:
  "map_of (fst (resolve_loop sv reg reqs res unres)) c =
     (case filter (\<lambda>r. cr_id r = c \<and> best_offer sv reg r \<noteq> None) reqs of
        [] \<Rightarrow> map_of res c
      | rs \<Rightarrow> best_offer sv reg (last rs))"
proof (induction reqs arbitrary: res unres)
  case Nil
  show ?case by simp
next
  case (Cons r reqs)
  then show ?case by (auto split: option.splits list.splits)
qed

lemma resolve_unresolved:
  "rp_unresolved (resolve sv reg x reqs) = filter (\<lambda>r. best_offer sv reg r = None) reqs"
  using resolve_loop_unresolved [of sv reg reqs "[]" "[]"]
  by (simp add: resolve_def case_prod_beta)

lemma resolve_resolved:
  "map_of (rp_resolved (resolve sv reg x reqs)) c =
     (case filter (\<lambda>r. cr_id r = c \<and> best_offer sv reg r \<noteq> None) reqs of
        [] \<Rightarrow> None | rs \<Rightarrow> best_offer sv reg (last rs))"
  using resolve_loop_resolved [of sv reg reqs "[]" "[]" c]
  by (simp add: resolve_def case_prod_beta cong: list.case_cong)

lemma resolved_by_requirement:
  assumes "map_of (rp_resolved (resolve sv reg x reqs)) c = Some ob"
  obtains req where "req \<in> set reqs" and "cr_id req = c" and "best_offer sv reg req = Some ob"
proof -
  let ?rs = "filter (\<lambda>r. cr_id r = c \<and> best_offer sv reg r \<noteq> None) reqs"
  from assms have ne: "?rs \<noteq> []" and ob: "best_offer sv reg (last ?rs) = Some ob"
    by (auto simp: resolve_resolved split: list.splits)
  from ne have "last ?rs \<in> set ?rs" by (rule last_in_set)
  with ob that show thesis by auto
qed

lemma requirement_resolved:
  assumes "req \<in> set reqs" and "best_offer sv reg req = Some ob"
  shows "map_of (rp_resolved (resolve sv reg x reqs)) (cr_id req) \<noteq> None"
proof -
  let ?rs = "filter (\<lambda>r. cr_id r = cr_id req \<and> best_offer sv reg r \<noteq> None) reqs"
  from assms have ne: "?rs \<noteq> []" by (auto simp: filter_empty_conv)
  then have "best_offer sv reg (last ?rs) \<noteq> None" using last_in_set [OF ne] by auto
  with ne show ?thesis by (auto simp: resolve_resolved split: list.splits)
qed

lemma resolved_is_offered:
  assumes "map_of (rp_resolved (resolve sv reg consumer required)) c = Some ob"
  shows "ob \<in> set (offerings reg)"
proof -
  from assms obtain req where "best_offer sv reg req = Some ob" by (rule resolved_by_requirement)
  from best_offer_Some(1) [OF this] show ?thesis
    by (force simp: answers_def offerings_def dest: map_of_SomeD)
qed

text \<open>Two registries that differ only in the order in which offers were added.\<close>

definition same_offers :: "('v, 'k) capability_registry \<Rightarrow> ('v, 'k) capability_registry \<Rightarrow> bool" where
  "same_offers r s \<longleftrightarrow> (\<forall>c. map_option mset (map_of r c) = map_option mset (map_of s c))"

lemma same_offers_matching:
  assumes "same_offers r s"
  shows "mset (matching_offers sv r c vr) = mset (matching_offers sv s c vr)"
  using assms [unfolded same_offers_def, rule_format, of c]
  by (auto simp: matching_offers_def mset_filter split: option.splits)

lemma same_offers_best:
  assumes "same_offers r s"
  shows "map_option ob_version (best_offer sv r req) = map_option ob_version (best_offer sv s req)"
  by (auto simp: best_offer_def split: option.splits
      intro: max_by_key_key_mset same_offers_matching [OF assms])

section \<open>Facts about the registry\<close>

lemma map_of_add_offering:
  "map_of (add_offering reg ob) c =
     (if c = ob_cap_id ob
      then Some ((case map_of reg c of None \<Rightarrow> [] | Some os \<Rightarrow> os) @ [ob]) else map_of reg c)"
  by (simp add: add_offering_def)

lemma map_of_foldl_add:
  "map_of (foldl add_offering reg obs) c =
     (let mine = filter (\<lambda>ob. ob_cap_id ob = c) obs in
      if mine = [] then map_of reg c
      else Some ((case map_of reg c of None \<Rightarrow> [] | Some os \<Rightarrow> os) @ mine))"
  by (induction obs arbitrary: reg) (auto simp: map_of_add_offering Let_def split: option.splits)

lemma foldl_add_same_offers:
  assumes "mset obs = mset obs'"
  shows "same_offers (foldl add_offering registry_new obs) (foldl add_offering registry_new obs')"
proof -
  have m: "mset (filter (\<lambda>ob. ob_cap_id ob = c) obs) = mset (filter (\<lambda>ob. ob_cap_id ob = c) obs')" for c
    using assms by (simp add: mset_filter)
  then have e: "filter (\<lambda>ob. ob_cap_id ob = c) obs = [] \<longleftrightarrow> filter (\<lambda>ob. ob_cap_id ob = c) obs' = []" for c
    by (metis mset_zero_iff)
  show ?thesis
    using m e by (auto simp: same_offers_def map_of_foldl_add registry_new_def Let_def)
qed

section \<open>Facts about cycle detection\<close>

lemma dfs_restores:
  "\<not> fst (dfs_has_cycle sv reg m x vis) \<Longrightarrow> snd (dfs_has_cycle sv reg m x vis) = vis"
  "\<not> fst (dfs_targets sv reg m ts vis) \<Longrightarrow> snd (dfs_targets sv reg m ts vis) = vis"
proof (induction sv reg m x vis and sv reg m ts vis rule: dfs_has_cycle_dfs_targets.induct)
  case (1 sv reg m x vis)
  then show ?case
    by (subst dfs_has_cycle.simps)
      (auto simp: dfs_has_cycle.simps [of sv reg m x vis] split: if_splits option.splits prod.splits)
next
  case (3 sv reg m t ts vis)
  then show ?case
    by (auto simp: dfs_targets.simps(2) split: if_splits prod.splits)
qed (simp add: dfs_targets.simps)

text \<open>The answer alone, without the bookkeeping of the visited set.\<close>

lemma dfs_targets_fst:
  "fst (dfs_targets sv reg m ts vis) \<longleftrightarrow> (\<exists>t \<in> set ts. fst (dfs_has_cycle sv reg m t vis))"
proof (induction ts)
  case Nil
  show ?case by (simp add: dfs_targets.simps)
next
  case (Cons t ts)
  then show ?case
    using dfs_restores(1) [of sv reg m t vis]
    by (cases "fst (dfs_has_cycle sv reg m t vis)")
      (simp_all add: dfs_targets.simps(2) case_prod_beta)
qed

lemma dfs_has_cycle_fst:
  "fst (dfs_has_cycle sv reg m x vis) \<longleftrightarrow>
     x \<in> vis \<or> (\<exists>reqs. map_of m x = Some reqs \<and>
        (\<exists>t \<in> set (targets sv reg reqs). fst (dfs_has_cycle sv reg m t (insert x vis))))"
  by (subst dfs_has_cycle.simps, cases "map_of m x")
    (simp_all add: case_prod_beta dfs_targets_fst)

text \<open>The declared dependency graph.\<close>

definition depends ::
  "('v, 'r) semver_api \<Rightarrow> ('v, 'k) capability_registry \<Rightarrow> ext_reqs \<Rightarrow> (string \<times> string) set" where
  "depends sv reg m = {(x, y). \<exists>reqs. map_of m x = Some reqs \<and> y \<in> set (targets sv reg reqs)}"

definition reaches_cycle ::
  "('v, 'r) semver_api \<Rightarrow> ('v, 'k) capability_registry \<Rightarrow> ext_reqs \<Rightarrow> string \<Rightarrow> bool" where
  "reaches_cycle sv reg m x \<longleftrightarrow>
     (\<exists>y. (x, y) \<in> (depends sv reg m)\<^sup>* \<and> (y, y) \<in> (depends sv reg m)\<^sup>+)"

lemma targets_iff:
  "y \<in> set (targets sv reg reqs) \<longleftrightarrow>
     (\<exists>req \<in> set reqs. \<exists>ob. answers sv reg req ob \<and> ob_extension_id ob = y)"
proof -
  have "y \<in> set (case parse_requirement sv (cr_version req) of None \<Rightarrow> []
       | Some vr \<Rightarrow> map ob_extension_id (matching_offers sv reg (cr_id req) vr)) \<longleftrightarrow>
     (\<exists>ob. answers sv reg req ob \<and> ob_extension_id ob = y)" for req
    by (cases "parse_req sv (cr_version req)")
      (auto simp: parse_requirement_def answers_def matching_offers_iff)
  then show ?thesis by (simp add: targets_def)
qed

lemma reaches_cycle_step:
  "(x, y) \<in> depends sv reg m \<Longrightarrow> reaches_cycle sv reg m y \<Longrightarrow> reaches_cycle sv reg m x"
  by (meson converse_rtrancl_into_rtrancl reaches_cycle_def)

lemma reaches_cycle_next:
  assumes "reaches_cycle sv reg m x"
  obtains y where "(x, y) \<in> depends sv reg m" and "reaches_cycle sv reg m y"
proof -
  let ?d = "depends sv reg m"
  from assms obtain z where z: "(x, z) \<in> ?d\<^sup>*" "(z, z) \<in> ?d\<^sup>+"
    by (auto simp: reaches_cycle_def)
  from z(2) obtain w where w: "(z, w) \<in> ?d" "(w, z) \<in> ?d\<^sup>*" by (meson tranclD)
  then have rw: "reaches_cycle sv reg m w" using z(2) by (auto simp: reaches_cycle_def)
  from z(1) show thesis
  proof (cases rule: converse_rtranclE)
    case base
    with w rw that show thesis by auto
  next
    case (step y)
    then have "reaches_cycle sv reg m y" using z(2) by (auto simp: reaches_cycle_def)
    with step that show thesis by auto
  qed
qed

lemma dfs_sound:
  "fst (dfs_has_cycle sv reg m x vis) \<Longrightarrow>
     (\<exists>p \<in> vis. (x, p) \<in> (depends sv reg m)\<^sup>*) \<or> reaches_cycle sv reg m x"
  "fst (dfs_targets sv reg m ts vis) \<Longrightarrow>
     \<exists>t \<in> set ts. (\<exists>p \<in> vis. (t, p) \<in> (depends sv reg m)\<^sup>*) \<or> reaches_cycle sv reg m t"
proof (induction sv reg m x vis and sv reg m ts vis rule: dfs_has_cycle_dfs_targets.induct)
  case (1 sv reg m x vis)
  show ?case
  proof (cases "x \<in> vis")
    case True
    then show ?thesis by auto
  next
    case False
    with 1(2) obtain reqs where reqs: "map_of m x = Some reqs"
      and "fst (dfs_targets sv reg m (targets sv reg reqs) (insert x vis))"
      by (auto simp: dfs_has_cycle_fst [of sv reg m x vis] dfs_targets_fst)
    from 1(1) [OF False this] obtain t where t: "t \<in> set (targets sv reg reqs)"
      and "(\<exists>p \<in> insert x vis. (t, p) \<in> (depends sv reg m)\<^sup>*) \<or> reaches_cycle sv reg m t"
      by blast
    moreover have xt: "(x, t) \<in> depends sv reg m" using reqs t by (auto simp: depends_def)
    ultimately show ?thesis
      by (auto intro: converse_rtrancl_into_rtrancl reaches_cycle_step simp: reaches_cycle_def
          dest: rtrancl_into_trancl2)
  qed
next
  case (3 sv reg m t ts vis)
  then show ?case
    using dfs_restores(1) [of sv reg m t vis]
    by (auto simp: dfs_targets_fst) (metis prod.collapse)+
qed (simp add: dfs_targets.simps)

lemma dfs_complete:
  "reaches_cycle sv reg m x \<Longrightarrow> fst (dfs_has_cycle sv reg m x vis)"
  "t \<in> set ts \<Longrightarrow> reaches_cycle sv reg m t \<Longrightarrow> fst (dfs_targets sv reg m ts vis)"
proof (induction sv reg m x vis and sv reg m ts vis arbitrary: and t
    rule: dfs_has_cycle_dfs_targets.induct)
  case (1 sv reg m x vis)
  from 1(2) obtain y where xy: "(x, y) \<in> depends sv reg m" and y: "reaches_cycle sv reg m y"
    by (rule reaches_cycle_next)
  from xy obtain reqs where reqs: "map_of m x = Some reqs" and t: "y \<in> set (targets sv reg reqs)"
    by (auto simp: depends_def)
  show ?case
    using 1(1) [OF _ reqs t y] reqs
    by (auto simp: dfs_has_cycle_fst [of sv reg m x vis] dfs_targets_fst)
next
  case (3 sv reg m u ts vis)
  then show ?case
    using dfs_restores(1) [of sv reg m u vis]
    by (auto simp: dfs_targets_fst) (metis prod.collapse)+
qed simp

lemma dfs_has_cycle_iff:
  "fst (dfs_has_cycle sv reg m x {}) \<longleftrightarrow> reaches_cycle sv reg m x"
  using dfs_sound(1) [of sv reg m x "{}"] dfs_complete(1) [of sv reg m x "{}"] by auto

lemma map_of_ext_map: "map_of (ext_map_of exts) = map_of (rev exts)"
proof -
  have "map_of (foldl (\<lambda>m (x, reqs). AList.update x reqs m) m0 exts) = map_of m0 ++ map_of (rev exts)"
    for m0
    by (induction exts arbitrary: m0) (auto simp: map_add_def split: option.splits)
  then show ?thesis by (simp add: ext_map_of_def)
qed

section \<open>Properties\<close>

text \<open>A concrete reading of the \<open>semver\<close> interface, for the examples: a version is its number of
  characters and a requirement matches exactly that version.\<close>

definition exact_semver :: "(nat, nat) semver_api" where
  "exact_semver = \<lparr>parse_version = (\<lambda>s. Inr (length s)),
     parse_req = (\<lambda>s. if s = ''?'' then Inl ''bad'' else Inr (length s)),
     req_matches = (\<lambda>r v. v = r)\<rparr>"

definition example_offer :: "string \<Rightarrow> string \<Rightarrow> nat \<Rightarrow> (nat, unit) offered_binding" where
  "example_offer x c v = \<lparr>ob_extension_id = x, ob_cap_id = c, ob_version = v, ob_kind = (), ob_export_path = []\<rparr>"

text \<open>
  C24: a capability is bound only to an offer that answers one of the consumer's requirements on
  that capability, and no offer answering that requirement has a higher version.
\<close>

theorem resolve_sound:
  assumes "map_of (rp_resolved (resolve sv reg consumer required)) c = Some ob"
  shows "\<exists>req \<in> set required. cr_id req = c \<and> answers sv reg req ob \<and>
    (\<forall>other. answers sv reg req other \<longrightarrow> ob_version other \<le> ob_version ob)"
proof -
  from assms obtain req where "req \<in> set required" "cr_id req = c" "best_offer sv reg req = Some ob"
    by (rule resolved_by_requirement)
  with best_offer_Some show ?thesis by blast
qed

definition example_registry :: "(nat, unit) capability_registry" where
  "example_registry = foldl add_offering registry_new
     [example_offer ''x.a'' ''cap'' 1, example_offer ''x.b'' ''cap'' 2]"

definition example_requirement :: "string \<Rightarrow> capability_ref" where
  "example_requirement v = \<lparr>cr_id = ''cap'', cr_version = v\<rparr>"

lemma example_resolution:
  "map_of (rp_resolved (resolve exact_semver example_registry ''c'' [example_requirement ''11''])) ''cap''
     = Some (example_offer ''x.b'' ''cap'' 2)"
  by (simp add: resolve_def best_offer_def parse_requirement_def matching_offers_def exact_semver_def
      example_registry_def example_requirement_def example_offer_def add_offering_def registry_new_def)

theorem resolve_sound_witness:
  "\<exists>req \<in> set [example_requirement ''11'']. cr_id req = ''cap'' \<and>
     answers exact_semver example_registry req (example_offer ''x.b'' ''cap'' 2) \<and>
     (\<forall>other. answers exact_semver example_registry req other \<longrightarrow>
        ob_version other \<le> ob_version (example_offer ''x.b'' ''cap'' 2))"
  by (rule resolve_sound [OF example_resolution])

text \<open>
  C23: resolution is complete. The unresolved list holds, in order, exactly the requirements that no
  offer answers (a requirement that does not parse among them), and the bound capabilities are
  exactly those of the answered requirements.
\<close>

theorem resolve_complete:
  "rp_unresolved (resolve sv reg consumer required) =
     filter (\<lambda>req. \<nexists>ob. answers sv reg req ob) required \<and>
   dom (map_of (rp_resolved (resolve sv reg consumer required))) =
     cr_id ` {req \<in> set required. \<exists>ob. answers sv reg req ob}"
proof
  show "rp_unresolved (resolve sv reg consumer required) =
      filter (\<lambda>req. \<nexists>ob. answers sv reg req ob) required"
    by (simp add: resolve_unresolved best_offer_None)
  have some: "(\<exists>ob. answers sv reg req ob) \<longleftrightarrow> (\<exists>ob. best_offer sv reg req = Some ob)" for req
    using best_offer_None [of sv reg req] by auto
  show "dom (map_of (rp_resolved (resolve sv reg consumer required))) =
      cr_id ` {req \<in> set required. \<exists>ob. answers sv reg req ob}"
    unfolding some
    by (force elim: resolved_by_requirement dest: requirement_resolved)
qed

text \<open>
  C28: resolution does not depend on the order in which offers entered the registry, which under a
  hash map is arbitrary. For two orders of the same offers the same requirements stay unresolved
  and every capability is bound at the same version.
\<close>

theorem resolve_order_independent:
  assumes "mset obs = mset obs'"
  shows "rp_unresolved (resolve sv (foldl add_offering registry_new obs) consumer required) =
       rp_unresolved (resolve sv (foldl add_offering registry_new obs') consumer required) \<and>
     map_option ob_version
         (map_of (rp_resolved (resolve sv (foldl add_offering registry_new obs) consumer required)) c) =
       map_option ob_version
         (map_of (rp_resolved (resolve sv (foldl add_offering registry_new obs') consumer required)) c)"
proof -
  let ?r = "foldl add_offering registry_new obs"
  let ?s = "foldl add_offering registry_new obs'"
  have same: "map_option ob_version (best_offer sv ?r req) = map_option ob_version (best_offer sv ?s req)"
    for req by (rule same_offers_best) (rule foldl_add_same_offers [OF assms])
  have none: "best_offer sv ?r req = None \<longleftrightarrow> best_offer sv ?s req = None" for req
    using same [of req] by (metis option.map_disc_iff)
  have "rp_unresolved (resolve sv ?r consumer required) = rp_unresolved (resolve sv ?s consumer required)"
    by (simp add: resolve_unresolved none)
  moreover have "map_option ob_version (map_of (rp_resolved (resolve sv ?r consumer required)) c) =
      map_option ob_version (map_of (rp_resolved (resolve sv ?s consumer required)) c)"
    by (simp add: resolve_resolved none same split: list.split del: not_None_eq)
  ultimately show ?thesis ..
qed

theorem resolve_order_independent_witness:
  "map_option ob_version (map_of (rp_resolved (resolve exact_semver
      (foldl add_offering registry_new [example_offer ''x.a'' ''cap'' 1, example_offer ''x.b'' ''cap'' 2])
      ''c'' [example_requirement ''11''])) ''cap'') =
   map_option ob_version (map_of (rp_resolved (resolve exact_semver
      (foldl add_offering registry_new [example_offer ''x.b'' ''cap'' 2, example_offer ''x.a'' ''cap'' 1])
      ''c'' [example_requirement ''11''])) ''cap'')"
  by (rule conjunct2 [OF resolve_order_independent]) simp

text \<open>
  Two requirements on one capability share one binding, and the later one decides it. Both can
  have an answer, nothing is reported unresolved, and yet the binding answers only the second.
\<close>

theorem resolve_duplicate_overwrites:
  "rp_unresolved (resolve exact_semver example_registry ''c''
      [example_requirement ''1'', example_requirement ''11'']) = [] \<and>
   map_of (rp_resolved (resolve exact_semver example_registry ''c''
      [example_requirement ''1'', example_requirement ''11''])) ''cap'' =
      Some (example_offer ''x.b'' ''cap'' 2) \<and>
   \<not> answers exact_semver example_registry (example_requirement ''1'') (example_offer ''x.b'' ''cap'' 2)"
  by (simp add: resolve_def best_offer_def parse_requirement_def matching_offers_def exact_semver_def
      example_registry_def example_requirement_def example_offer_def add_offering_def registry_new_def
      answers_def)

text \<open>
  C9: cycle detection is exact. It returns, in input order, those extensions from which the graph
  "requires a capability that an extension offers at a matching version" reaches a cycle: none is
  missed and none is reported without one. (That the traversal returns at all is its termination,
  proved with its definition.)
\<close>

theorem detect_cycle_exact:
  "detect_cycle sv reg exts = filter (reaches_cycle sv reg (ext_map_of exts)) (map fst exts)"
  by (simp add: detect_cycle_def dfs_has_cycle_iff [abs_def])

end
