(* ===== verification/Epoch.thy ===== *)
theory Epoch
  imports Limits
begin

text \<open>
  \<open>EpochTicker\<close> of \<open>limits.rs\<close>: the thread that advances the engine's epoch, interleaved with the
  passing of time, with the drop of the ticker and with the end of the engine. A location of the
  thread's loop is a constructor; \<open>ticker_turn\<close> is what the thread does from one location to the
  next. Time is nanoseconds. A \<open>sleep\<close> returns at the requested moment or later, which is what the
  standard library promises; \<open>timely_step\<close> adds that the scheduler lets the thread run at once when
  it can. The epoch is a counter that grows by one at \<open>increment_epoch\<close>; it starts at 0 and gains one
  a second, so its 64 bits are not exhausted in any run of the program.
\<close>

section \<open>The thread\<close>

datatype ticker_thread =
    NotSpawned
  | CheckStop
  | Sleeping duration
  | Woken
  | Finished

record epoch_ticker =
  et_stop :: bool
  et_join :: bool

record ticker_world = epoch_ticker +
  tw_now :: duration
  tw_epoch :: nat
  tw_engine :: bool
  tw_thread :: ticker_thread

definition ticker_spawn :: "(string, unit) result \<Rightarrow> duration \<Rightarrow> ticker_world" where
  "ticker_spawn spawned now =
     \<lparr>et_stop = False, et_join = is_ok spawned, tw_now = now, tw_epoch = 0, tw_engine = True,
      tw_thread = (if is_ok spawned then CheckStop else NotSpawned)\<rparr>"

definition ticker_turn :: "ticker_world \<Rightarrow> ticker_world" where
  "ticker_turn s =
     (case tw_thread s of
        CheckStop \<Rightarrow>
          if et_stop s then s\<lparr>tw_thread := Finished\<rparr>
          else s\<lparr>tw_thread := Sleeping (tw_now s + EPOCH_TICK)\<rparr>
      | Sleeping wake \<Rightarrow> if tw_now s < wake then s else s\<lparr>tw_thread := Woken\<rparr>
      | Woken \<Rightarrow>
          if tw_engine s then s\<lparr>tw_epoch := tw_epoch s + 1, tw_thread := CheckStop\<rparr>
          else s\<lparr>tw_thread := Finished\<rparr>
      | _ \<Rightarrow> s)"

definition ticker_drop :: "ticker_world \<Rightarrow> ticker_world" where
  "ticker_drop s = s\<lparr>et_stop := True, et_join := False\<rparr>"

definition engine_gone :: "ticker_world \<Rightarrow> ticker_world" where
  "engine_gone s = s\<lparr>tw_engine := False\<rparr>"

definition elapse :: "duration \<Rightarrow> ticker_world \<Rightarrow> ticker_world" where
  "elapse d s = s\<lparr>tw_now := tw_now s + d\<rparr>"

section \<open>Interleavings\<close>

inductive ticker_step :: "ticker_world \<Rightarrow> ticker_world \<Rightarrow> bool" where
  turn: "ticker_step s (ticker_turn s)"
| time: "ticker_step s (elapse d s)"
| drop: "ticker_step s (ticker_drop s)"
| gone: "ticker_step s (engine_gone s)"

definition asleep_until :: "ticker_world \<Rightarrow> duration \<Rightarrow> bool" where
  "asleep_until s later =
     (case tw_thread s of
        Sleeping wake \<Rightarrow> later \<le> wake
      | CheckStop \<Rightarrow> False
      | Woken \<Rightarrow> False
      | _ \<Rightarrow> True)"

inductive timely_step :: "ticker_world \<Rightarrow> ticker_world \<Rightarrow> bool" where
  turn: "timely_step s (ticker_turn s)"
| time: "asleep_until s (tw_now s + d) \<Longrightarrow> timely_step s (elapse d s)"
| drop: "timely_step s (ticker_drop s)"
| gone: "timely_step s (engine_gone s)"

lemma timely_is_ticker_step: "timely_step s s' \<Longrightarrow> ticker_step s s'"
  by (auto elim: timely_step.cases intro: ticker_step.intros)

lemmas turn_simps = ticker_turn_def ticker_drop_def engine_gone_def elapse_def

text \<open>The earliest moment of the next increment, for a thread that is still in its loop.\<close>

definition in_loop :: "ticker_world \<Rightarrow> bool" where
  "in_loop s = (tw_thread s \<noteq> NotSpawned \<and> tw_thread s \<noteq> Finished)"

definition next_tick :: "ticker_world \<Rightarrow> duration" where
  "next_tick s =
     (case tw_thread s of
        CheckStop \<Rightarrow> tw_now s + EPOCH_TICK
      | Sleeping wake \<Rightarrow> max (tw_now s) wake
      | _ \<Rightarrow> tw_now s)"

section \<open>What every interleaving keeps\<close>

text \<open>A sleep never ends more than one tick ahead, and only a thread in its loop counts.\<close>

definition ticker_ok :: "ticker_world \<Rightarrow> bool" where
  "ticker_ok s = (case tw_thread s of Sleeping wake \<Rightarrow> wake \<le> tw_now s + EPOCH_TICK | _ \<Rightarrow> True)"

lemma ticker_ok_step: "ticker_step s s' \<Longrightarrow> ticker_ok s \<Longrightarrow> ticker_ok s'"
  by (erule ticker_step.cases) (auto simp: ticker_ok_def turn_simps split: ticker_thread.splits)

lemma ticker_ok_reachable: "ticker_step\<^sup>*\<^sup>* (ticker_spawn r now) s \<Longrightarrow> ticker_ok s"
  by (induction rule: rtranclp_induct)
     (auto simp: ticker_ok_def ticker_spawn_def dest: ticker_ok_step [unfolded ticker_ok_def])

text \<open>How far a run has got: the increments it made are at least a tick apart.\<close>

definition paced :: "ticker_world \<Rightarrow> ticker_world \<Rightarrow> bool" where
  "paced s s' \<longleftrightarrow> tw_epoch s \<le> tw_epoch s' \<and> tw_now s \<le> tw_now s' \<and>
     (tw_epoch s < tw_epoch s' \<longrightarrow>
        next_tick s + (tw_epoch s' - tw_epoch s - 1) * EPOCH_TICK \<le> tw_now s') \<and>
     (in_loop s' \<longrightarrow> next_tick s + (tw_epoch s' - tw_epoch s) * EPOCH_TICK \<le> next_tick s')"

lemma paced_refl: "paced s s"
  by (simp add: paced_def)

lemma paced_step: "paced s u \<Longrightarrow> ticker_step u v \<Longrightarrow> paced s v"
proof (erule ticker_step.cases)
  fix w assume "u = w" "v = ticker_turn w" and p: "paced s u"
  then show ?thesis
    by (cases "tw_thread w")
       (auto simp: paced_def in_loop_def next_tick_def ticker_turn_def Suc_diff_le algebra_simps
          split: if_splits)
qed (auto simp: paced_def in_loop_def next_tick_def turn_simps split: ticker_thread.splits)

lemma paced_run: "ticker_step\<^sup>*\<^sup>* s s' \<Longrightarrow> paced s s'"
  by (induction rule: rtranclp_induct) (blast intro: paced_refl paced_step)+


section \<open>Runs that tick as early as they can\<close>

lemma ticker_runs:
  "ticker_step\<^sup>*\<^sup>* s (ticker_turn s)" "ticker_step\<^sup>*\<^sup>* s (elapse d s)"
  by (blast intro: ticker_step.intros)+

lemma woken_round:
  assumes "tw_thread s = Woken" and "tw_engine s" and "\<not> et_stop s"
  shows "ticker_step\<^sup>*\<^sup>* s (s\<lparr>tw_now := tw_now s + EPOCH_TICK, tw_epoch := tw_epoch s + 1\<rparr>)"
proof -
  have "ticker_turn (elapse EPOCH_TICK (ticker_turn (ticker_turn s))) =
        s\<lparr>tw_now := tw_now s + EPOCH_TICK, tw_epoch := tw_epoch s + 1\<rparr>"
    using assms by (cases s) (simp add: ticker_turn_def elapse_def)
  then show ?thesis
    by (metis rtranclp_trans ticker_runs)
qed

lemma woken_rounds:
  assumes "tw_thread s = Woken" and "tw_engine s" and "\<not> et_stop s"
  shows "ticker_step\<^sup>*\<^sup>* s (s\<lparr>tw_now := tw_now s + k * EPOCH_TICK, tw_epoch := tw_epoch s + k\<rparr>)"
proof (induction k)
  case 0
  show ?case by simp
next
  case (Suc k)
  let ?t = "s\<lparr>tw_now := tw_now s + k * EPOCH_TICK, tw_epoch := tw_epoch s + k\<rparr>"
  have "ticker_step\<^sup>*\<^sup>* ?t (?t\<lparr>tw_now := tw_now ?t + EPOCH_TICK, tw_epoch := tw_epoch ?t + 1\<rparr>)"
    by (rule woken_round) (simp_all add: assms)
  with Suc.IH show ?case by (simp add: algebra_simps)
qed

lemma woken_reachable:
  "\<exists>s. ticker_step\<^sup>*\<^sup>* (ticker_spawn (Inr ()) now) s \<and> tw_thread s = Woken \<and> tw_engine s \<and> \<not> et_stop s"
proof (intro exI conjI)
  let ?s = "ticker_turn (elapse EPOCH_TICK (ticker_turn (ticker_spawn (Inr ()) now)))"
  show "ticker_step\<^sup>*\<^sup>* (ticker_spawn (Inr ()) now) ?s" by (meson rtranclp_trans ticker_runs)
  show "tw_thread ?s = Woken" "tw_engine ?s" "\<not> et_stop ?s"
    by (simp_all add: ticker_spawn_def turn_simps)
qed

lemma early_run:
  assumes "tw_thread s = Woken" and "tw_engine s" and "\<not> et_stop s" and "n * EPOCH_TICK \<le> d"
  shows "\<exists>s'. ticker_step\<^sup>*\<^sup>* s s' \<and> tw_now s' = tw_now s + d \<and> tw_epoch s + Suc n = tw_epoch s'"
proof (intro exI conjI)
  let ?t = "s\<lparr>tw_now := tw_now s + n * EPOCH_TICK, tw_epoch := tw_epoch s + n\<rparr>"
  let ?u = "elapse (d - n * EPOCH_TICK) (ticker_turn ?t)"
  show "ticker_step\<^sup>*\<^sup>* s ?u"
    by (rule rtranclp_trans [OF woken_rounds [OF assms(1-3), of n]
          rtranclp_trans [OF ticker_runs(1) ticker_runs(2)]])
  show "tw_now ?u = tw_now s + d" "tw_epoch s + Suc n = tw_epoch ?u"
    using assms by (simp_all add: turn_simps)
qed

lemma paced_elapsed: "paced s s' \<Longrightarrow> tw_epoch s + n \<le> tw_epoch s' \<Longrightarrow> (n - 1) * EPOCH_TICK \<le> tw_now s' - tw_now s"
proof (cases n)
  case (Suc m)
  assume p: "paced s s'" and n: "tw_epoch s + n \<le> tw_epoch s'"
  have "tw_now s \<le> next_tick s" by (simp add: next_tick_def split: ticker_thread.split)
  moreover have "next_tick s + (tw_epoch s' - tw_epoch s - 1) * EPOCH_TICK \<le> tw_now s'"
    using p n Suc by (simp add: paced_def)
  moreover have "(n - 1) * EPOCH_TICK \<le> (tw_epoch s' - tw_epoch s - 1) * EPOCH_TICK"
    using n by (intro mult_right_mono) auto
  ultimately show ?thesis by linarith
qed simp

text \<open>C37: when a dispatch deadline can be reached. A call is given the deadline of \<open>deadline_ticks\<close>
  ticks beyond the epoch it starts at; whatever the interleaving of the ticker with the call, the
  epoch can stand at that deadline exactly when all but one of the ticks have elapsed in full. So a
  budget is never undercut by more than one tick, and one tick less is really possible: 299 seconds
  for a budget of 300, and no time at all for a budget of up to a second.\<close>

theorem deadline_window:
  "(\<exists>s s'. ticker_step\<^sup>*\<^sup>* (ticker_spawn (Inr ()) now) s \<and> ticker_step\<^sup>*\<^sup>* s s' \<and>
       tw_now s' = tw_now s + d \<and>
       tw_epoch s + sl_epoch_deadline (apply_limits l (Some t) st) \<le> tw_epoch s')
   \<longleftrightarrow> (deadline_ticks t - 1) * EPOCH_TICK \<le> d"
  (is "?L \<longleftrightarrow> ?R")
proof
  assume ?L
  then show ?R using paced_elapsed [OF paced_run] by (fastforce simp: apply_limits_def)
next
  assume d: ?R
  obtain s where s: "ticker_step\<^sup>*\<^sup>* (ticker_spawn (Inr ()) now) s"
    and w: "tw_thread s = Woken" "tw_engine s" "\<not> et_stop s"
    using woken_reachable by blast
  have "1 \<le> deadline_ticks t" by (simp add: deadline_ticks_def Let_def u64_max_def)
  with early_run [OF w d] obtain s' where "ticker_step\<^sup>*\<^sup>* s s'" "tw_now s' = tw_now s + d"
    "tw_epoch s + deadline_ticks t = tw_epoch s'" by auto
  with s show ?L by (intro exI conjI) (assumption | simp add: apply_limits_def)+
qed


section \<open>A scheduler that lets the thread run\<close>

definition on_pace :: "ticker_world \<Rightarrow> ticker_world \<Rightarrow> bool" where
  "on_pace s s' \<longleftrightarrow> (in_loop s \<and> \<not> et_stop s' \<and> tw_engine s' \<longrightarrow>
     in_loop s' \<and> tw_epoch s \<le> tw_epoch s' \<and>
     next_tick s' \<le> next_tick s + (tw_epoch s' - tw_epoch s) * EPOCH_TICK)"

lemma on_pace_step: "on_pace s u \<Longrightarrow> timely_step u v \<Longrightarrow> on_pace s v"
proof (erule timely_step.cases)
  fix w assume "u = w" "v = ticker_turn w" and p: "on_pace s u"
  then show ?thesis
    by (cases "tw_thread w")
       (auto simp: on_pace_def in_loop_def next_tick_def ticker_turn_def Suc_diff_le split: if_splits)
next
  fix w d assume "asleep_until w (tw_now w + d)" "u = w" "v = elapse d w" and p: "on_pace s u"
  then show ?thesis
    by (cases "tw_thread w") (auto simp: on_pace_def in_loop_def next_tick_def elapse_def asleep_until_def)
qed (auto simp: on_pace_def in_loop_def next_tick_def turn_simps split: ticker_thread.splits)

lemma on_pace_run: "timely_step\<^sup>*\<^sup>* s s' \<Longrightarrow> on_pace s s'"
  by (induction rule: rtranclp_induct) (simp add: on_pace_def, blast intro: on_pace_step)

lemma timely_runs: "timely_step\<^sup>*\<^sup>* s s' \<Longrightarrow> ticker_step\<^sup>*\<^sup>* s s'"
  by (erule rtranclp_mono [THEN predicate2D, rotated]) (blast intro: timely_is_ticker_step)

lemma alive_before:
  "ticker_step\<^sup>*\<^sup>* s s' \<Longrightarrow> \<not> et_stop s' \<and> tw_engine s' \<longrightarrow> \<not> et_stop s \<and> tw_engine s"
  by (induction rule: rtranclp_induct)
     (auto elim!: ticker_step.cases simp: turn_simps split: ticker_thread.splits if_splits)

lemma alive_in_loop:
  assumes "timely_step\<^sup>*\<^sup>* (ticker_spawn (Inr ()) now) s" and "\<not> et_stop s" and "tw_engine s"
  shows "in_loop s"
  using on_pace_run [OF assms(1)] assms(2,3) by (simp add: on_pace_def in_loop_def ticker_spawn_def)

lemma next_tick_near: "ticker_ok s \<Longrightarrow> next_tick s \<le> tw_now s + EPOCH_TICK"
  by (auto simp: ticker_ok_def next_tick_def split: ticker_thread.splits)

lemma now_before_next: "tw_now s \<le> next_tick s"
  by (simp add: next_tick_def split: ticker_thread.split)

lemma ticks_reach:
  assumes "next_tick s' \<le> next_tick s + k * EPOCH_TICK" and "ticker_ok s"
    and "tw_now s + n * EPOCH_TICK < tw_now s'"
  shows "n \<le> k"
proof -
  have "n * EPOCH_TICK < Suc k * EPOCH_TICK"
    using assms(1,3) next_tick_near [OF assms(2)] now_before_next [of s'] by simp
  then have "n < Suc k" by (rule mult_right_less_imp_less) simp
  then show ?thesis by simp
qed

lemma timely_turn_run: "timely_step\<^sup>*\<^sup>* s u \<Longrightarrow> timely_step\<^sup>*\<^sup>* s (ticker_turn u)"
  by (erule rtranclp.rtrancl_into_rtrancl) (rule timely_step.turn)

lemma timely_time_run:
  "timely_step\<^sup>*\<^sup>* s u \<Longrightarrow> asleep_until u (tw_now u + d) \<Longrightarrow> timely_step\<^sup>*\<^sup>* s (elapse d u)"
  by (erule rtranclp.rtrancl_into_rtrancl) (rule timely_step.time)

lemma one_second_run:
  "timely_step\<^sup>*\<^sup>* (ticker_spawn (Inr ()) 0)
     (elapse 1 (ticker_turn (ticker_turn (ticker_turn (elapse EPOCH_TICK (ticker_turn (ticker_spawn (Inr ()) 0)))))))"
  by (intro timely_time_run timely_turn_run rtranclp.rtrancl_refl)
     (simp_all add: asleep_until_def ticker_spawn_def turn_simps EPOCH_TICK_def)

text \<open>C29: the deadline fires. While the runtime holds its engine and its ticker, and the scheduler lets
  the ticker thread run when it can, the epoch stands at a call's deadline as soon as more time has
  passed than the ticks the budget was rounded up to; a guest that is still executing is then
  interrupted at its next check.\<close>

theorem deadline_fires:
  assumes "timely_step\<^sup>*\<^sup>* (ticker_spawn (Inr ()) now) s" and "timely_step\<^sup>*\<^sup>* s s'"
    and "\<not> et_stop s'" and "tw_engine s'"
    and "tw_now s + deadline_ticks t * EPOCH_TICK < tw_now s'"
  shows "tw_epoch s + sl_epoch_deadline (apply_limits l (Some t) st) \<le> tw_epoch s'"
proof -
  have "in_loop s" using alive_in_loop [OF assms(1)] alive_before [OF timely_runs [OF assms(2)]] assms(3,4) by simp
  with on_pace_run [OF assms(2)] assms(3,4)
  have "tw_epoch s \<le> tw_epoch s'" "next_tick s' \<le> next_tick s + (tw_epoch s' - tw_epoch s) * EPOCH_TICK"
    by (simp_all add: on_pace_def)
  with ticks_reach [OF _ ticker_ok_reachable [OF timely_runs [OF assms(1)]] assms(5)]
  show ?thesis by (fastforce simp: apply_limits_def)
qed

theorem deadline_fires_witness:
  "\<exists>s'. timely_step\<^sup>*\<^sup>* (ticker_spawn (Inr ()) 0) s' \<and>
     tw_now s' = EPOCH_TICK + 1 \<and>
     tw_epoch (ticker_spawn (Inr ()) 0) + sl_epoch_deadline (apply_limits pack_limits_new (Some 1) store_unlimited)
       \<le> tw_epoch s'"
proof (intro exI conjI)
  let ?s' = "elapse 1 (ticker_turn (ticker_turn (ticker_turn (elapse EPOCH_TICK (ticker_turn (ticker_spawn (Inr ()) 0))))))"
  show "timely_step\<^sup>*\<^sup>* (ticker_spawn (Inr ()) 0) ?s'" by (rule one_second_run)
  show "tw_now ?s' = EPOCH_TICK + 1" by (simp add: ticker_spawn_def turn_simps EPOCH_TICK_def)
  show "tw_epoch (ticker_spawn (Inr ()) 0) + sl_epoch_deadline (apply_limits pack_limits_new (Some 1) store_unlimited)
       \<le> tw_epoch ?s'"
    by (rule deadline_fires [OF rtranclp.rtrancl_refl one_second_run])
       (simp_all add: ticker_spawn_def turn_simps EPOCH_TICK_def deadline_ticks_def div_ceil_def u64_max_def)
qed

section \<open>The end of the thread\<close>

definition may_still_tick :: "ticker_world \<Rightarrow> nat" where
  "may_still_tick s = (case tw_thread s of Sleeping _ \<Rightarrow> 1 | Woken \<Rightarrow> 1 | _ \<Rightarrow> 0)"

lemma stopped_run:
  assumes "ticker_step\<^sup>*\<^sup>* s s'" and "et_stop s"
  shows "et_stop s' \<and> tw_epoch s' + may_still_tick s' \<le> tw_epoch s + may_still_tick s"
  using assms(1)
proof (induction rule: rtranclp_induct)
  case base
  show ?case using assms(2) by simp
next
  case (step u v)
  from step(2) step.IH show ?case
    by cases (auto simp: may_still_tick_def turn_simps split: ticker_thread.splits if_splits)
qed

lemma stopped_thread_ends:
  "ticker_ok s \<Longrightarrow> et_stop s \<Longrightarrow>
   tw_thread ((ticker_turn ^^ 3) (elapse EPOCH_TICK s)) \<in> {NotSpawned, Finished}"
  by (cases "tw_thread s") (auto simp: ticker_ok_def turn_simps eval_nat_numeral split: ticker_thread.splits)

text \<open>Dropping the ticker stops its thread without a join. From the drop on, in every interleaving,
  the epoch advances at most once more, and from wherever the thread is, one tick of time and three
  turns of its loop end it.\<close>

theorem dropped_ticker_stops:
  assumes "ticker_step\<^sup>*\<^sup>* (ticker_spawn r now) s" and "ticker_step\<^sup>*\<^sup>* (ticker_drop s) s'"
  shows "tw_epoch s' \<le> tw_epoch s + 1 \<and>
    tw_thread ((ticker_turn ^^ 3) (elapse EPOCH_TICK s')) \<in> {NotSpawned, Finished}"
proof -
  have run: "et_stop s'" "tw_epoch s' + may_still_tick s' \<le> tw_epoch s + may_still_tick (ticker_drop s)"
    using stopped_run [OF assms(2)] by (simp_all add: ticker_drop_def)
  have "may_still_tick (ticker_drop s) \<le> 1" by (simp add: may_still_tick_def split: ticker_thread.split)
  moreover have "ticker_ok s'"
    using ticker_ok_reachable [of r now s'] assms ticker_step.drop [of s]
    by (meson rtranclp.rtrancl_into_rtrancl rtranclp_trans)
  ultimately show ?thesis using run stopped_thread_ends [of s'] by simp
qed

theorem dropped_ticker_stops_witness:
  "\<exists>s. ticker_step\<^sup>*\<^sup>* (ticker_drop (ticker_turn (ticker_spawn (Inr ()) 0))) s \<and>
     tw_epoch s \<le> tw_epoch (ticker_turn (ticker_spawn (Inr ()) 0)) + 1 \<and>
     tw_thread ((ticker_turn ^^ 3) (elapse EPOCH_TICK s)) \<in> {NotSpawned, Finished}"
  using dropped_ticker_stops [OF ticker_runs(1) rtranclp.rtrancl_refl, of "Inr ()" 0] by blast

lemma unspawned_run:
  "ticker_step\<^sup>*\<^sup>* (ticker_spawn (Inl e) now) s \<Longrightarrow> tw_epoch s = 0 \<and> tw_thread s = NotSpawned"
  by (induction rule: rtranclp_induct)
     (auto elim!: ticker_step.cases simp: ticker_spawn_def turn_simps)

lemma unspawned_never_fires:
  assumes "ticker_step\<^sup>*\<^sup>* (ticker_spawn (Inl e) now) s" and "ticker_step\<^sup>*\<^sup>* s s'"
  shows "tw_epoch s' < tw_epoch s + sl_epoch_deadline (apply_limits l timeout st)"
proof -
  have "ticker_step\<^sup>*\<^sup>* (ticker_spawn (Inl e) now) s'" by (rule rtranclp_trans [OF assms])
  then show ?thesis
    using unspawned_run [OF assms(1)] unspawned_run [of e now s']
    by (auto simp: apply_limits_def deadline_ticks_def u64_max_def Let_def split: option.splits)
qed

end
