(* ===== verification/Runtime.thy ===== *)
theory Runtime
  imports Loaded Capability Epoch
begin

text \<open>
  \<open>runtime.rs\<close> (construction and the stores), \<open>runtime_registry.rs\<close> and \<open>runtime_watch.rs\<close>: the loaded map and the
  capability registry derived from it, the operations that change them, and what a filesystem
  event does. The broadcast channel is the list of events sent; the publisher-key store, which
  other tools write too, is a field of the state. The read-modify-write of \<open>mutate_loaded\<close> runs
  under one lock in the source and is one step here.

  An operation observes the filesystem at up to three moments: when it looks for what changed, in
  the gate and in the load; each is a record of its own.
\<close>

section \<open>State\<close>

datatype runtime_event =
    ExtensionInstalled string
  | ExtensionUpdated string string
  | ExtensionRemoved string
  | StateFileChanged

record ('k, 't, 'w, 'c, 'v, 'ts, 'ho) runtime =
  rn_config :: "'ho runtime_config"
  rn_loaded :: "(string, ('k, 't, 'w, 'c) loaded_extension) hashmap"
  rn_registry :: "('v, 'k) capability_registry"
  rn_events :: "runtime_event list"
  rn_trust :: 'ts

text \<open>What the runtime relies on: the SDK, the environment, \<open>semver\<close>, the component compiler, the
  rendering of strings, and the directory names of all extension kinds.\<close>

record ('j, 'k, 't, 'w, 'ts, 'v, 'r, 'c) runtime_api =
  ra_env :: "('j, ('k, 't, 'w) describe, 'ts) sdk_env"
  ra_host :: host_env
  ra_semver :: "('v, 'r) semver_api"
  ra_compile :: "string \<Rightarrow> (string, 'c) result"
  ra_dbg :: "string \<Rightarrow> string"
  ra_kind_dirs :: "string list"

record moments =
  mo_find :: filesystem
  mo_gate :: filesystem
  mo_load :: filesystem

definition runtime_new :: "'ho runtime_config \<Rightarrow> 'ts \<Rightarrow> ('k, 't, 'w, 'c, 'v, 'ts, 'ho) runtime" where
  "runtime_new cfg ts =
     \<lparr>rn_config = cfg, rn_loaded = [], rn_registry = registry_new, rn_events = [], rn_trust = ts\<rparr>"

text \<open>
  Construction. \<open>engine_new\<close> is the WebAssembly engine's constructor, which reads the configuration;
  the cache is used when it could be opened and passed over when not. The new runtime comes with the
  ticker of its engine, whose thread the operating system may refuse.
\<close>

record engine_config =
  ec_component_model :: bool
  ec_epoch_interruption :: bool
  ec_cache :: bool

definition engine_config_for :: "(string, unit) result \<Rightarrow> engine_config" where
  "engine_config_for cache =
     \<lparr>ec_component_model = True, ec_epoch_interruption = True, ec_cache = is_ok cache\<rparr>"

definition extension_runtime_new ::
  "(engine_config \<Rightarrow> (string, unit) result) \<Rightarrow> (string, unit) result \<Rightarrow> (string, unit) result
   \<Rightarrow> duration \<Rightarrow> 'ts \<Rightarrow> 'ho runtime_config
   \<Rightarrow> (runtime_error, ('k, 't, 'w, 'c, 'v, 'ts, 'ho) runtime \<times> ticker_world) result" where
  "extension_runtime_new engine_new cache spawned now ts cfg =
     map_ok (\<lambda>_. (runtime_new cfg ts, ticker_spawn spawned now))
       (map_err Wasmtime (engine_new (engine_config_for cache)))"

definition for_test ::
  "(engine_config \<Rightarrow> (string, unit) result) \<Rightarrow> (string, unit) result \<Rightarrow> (string, unit) result
   \<Rightarrow> duration \<Rightarrow> 'ts \<Rightarrow> 'ho
   \<Rightarrow> (runtime_error, ('k, 't, 'w, 'c, 'v, 'ts, 'ho) runtime \<times> ticker_world) result" where
  "for_test engine_new cache spawned now ts default_overrides =
     extension_runtime_new engine_new cache spawned now ts
       (from_paths default_overrides (discovery_new (components ''/nonexistent/aw-ext-runtime-test'')))"

definition runtime_with_host_overrides ::
  "('k, 't, 'w, 'c, 'v, 'ts, 'ho) runtime \<Rightarrow> 'ho \<Rightarrow> ('k, 't, 'w, 'c, 'v, 'ts, 'ho) runtime" where
  "runtime_with_host_overrides rt ov = rt\<lparr>rn_config := with_host_overrides (rn_config rt) ov\<rparr>"

definition lookup ::
  "('k, 't, 'w, 'c, 'v, 'ts, 'ho) runtime \<Rightarrow> string
   \<Rightarrow> (runtime_error, ('k, 't, 'w, 'c) loaded_extension) result" where
  "lookup rt ext_id = ok_or (NotFound ext_id) (map_of (rn_loaded rt) ext_id)"

definition emit ::
  "('k, 't, 'w, 'c, 'v, 'ts, 'ho) runtime \<Rightarrow> runtime_event \<Rightarrow> ('k, 't, 'w, 'c, 'v, 'ts, 'ho) runtime" where
  "emit rt ev = rt\<lparr>rn_events := rn_events rt @ [ev]\<rparr>"

section \<open>The registry\<close>

text \<open>The inner loop: the offers of one extension.\<close>

definition add_offers ::
  "('v, 'r) semver_api \<Rightarrow> string \<Rightarrow> ('k, 't, 'w, 'c) loaded_extension \<Rightarrow> ('v, 'k) capability_registry
   \<Rightarrow> (runtime_error, ('v, 'k) capability_registry) result" where
  "add_offers sv x ext =
     for_each (\<lambda>cap registry.
       and_then (map_err (\<lambda>e. Wasmtime (''bad offered version: '' @ e)) (parse_version sv (oc_version cap)))
         (\<lambda>version. Inr (add_offering registry
            \<lparr>ob_extension_id = x, ob_cap_id = oc_id cap, ob_version = version, ob_kind = le_kind ext,
             ob_export_path = []\<rparr>)))
       (d_offered (le_describe ext))"

definition rebuild_registry ::
  "('v, 'r) semver_api \<Rightarrow> (string, ('k, 't, 'w, 'c) loaded_extension) hashmap
   \<Rightarrow> (runtime_error, ('v, 'k) capability_registry) result" where
  "rebuild_registry sv loaded = for_each (\<lambda>(x, ext). add_offers sv x ext) loaded registry_new"

definition mutate_loaded ::
  "('v, 'r) semver_api \<Rightarrow> ('k, 't, 'w, 'c, 'v, 'ts, 'ho) runtime
   \<Rightarrow> ((string, ('k, 't, 'w, 'c) loaded_extension) hashmap
        \<Rightarrow> 'b \<times> (string, ('k, 't, 'w, 'c) loaded_extension) hashmap)
   \<Rightarrow> (runtime_error, 'b) result \<times> ('k, 't, 'w, 'c, 'v, 'ts, 'ho) runtime" where
  "mutate_loaded sv rt edit =
     (let (out, m) = edit (rn_loaded rt) in
      case rebuild_registry sv m of
        Inl e \<Rightarrow> (Inl e, rt)
      | Inr registry \<Rightarrow> (Inr out, rt\<lparr>rn_loaded := m, rn_registry := registry\<rparr>))"

section \<open>Loading\<close>

text \<open>The two calls every load path starts with: the gate, then the build from what it checked.\<close>

definition verify_and_load ::
  "('j, 'k, 't, 'w, 'ts, 'v, 'r, 'c) runtime_api \<Rightarrow> ('k, 't, 'w, 'c, 'v, 'ts, 'ho) runtime
   \<Rightarrow> moments \<Rightarrow> path
   \<Rightarrow> (runtime_error, ('k, 't, 'w, 'c) loaded_extension) result \<times> ('k, 't, 'w, 'c, 'v, 'ts, 'ho) runtime" where
  "verify_and_load api rt mo dir =
     (let (r, ts) = verify_dir_signature (ra_env api) (ra_host api) (rn_config rt) (mo_gate mo) (rn_trust rt) dir
      in (and_then r (\<lambda>(d, ledger).
            map_err Wasmtime (from_verified (ra_env api) (ra_compile api) (ra_dbg api) (mo_load mo) dir d ledger)),
          rt\<lparr>rn_trust := ts\<rparr>))"

definition register_loaded_from_dir ::
  "('j, 'k, 't, 'w, 'ts, 'v, 'r, 'c) runtime_api \<Rightarrow> ('k, 't, 'w, 'c, 'v, 'ts, 'ho) runtime
   \<Rightarrow> moments \<Rightarrow> path
   \<Rightarrow> (runtime_error, unit) result \<times> ('k, 't, 'w, 'c, 'v, 'ts, 'ho) runtime" where
  "register_loaded_from_dir api rt mo dir =
     (case verify_and_load api rt mo dir of
        (Inl e, rt1) \<Rightarrow> (Inl e, rt1)
      | (Inr ext, rt1) \<Rightarrow>
          (case mutate_loaded (ra_semver api) rt1 (\<lambda>m. ((), AList.update (le_id ext) ext m)) of
             (Inl e, rt2) \<Rightarrow> (Inl e, rt2)
           | (Inr _, rt2) \<Rightarrow> (Inr (), emit rt2 (ExtensionInstalled (le_id ext)))))"

definition is_downgrade :: "('v::linorder, 'r) semver_api \<Rightarrow> string \<Rightarrow> string \<Rightarrow> bool" where
  "is_downgrade sv current candidate =
     (case (parse_version sv current, parse_version sv candidate) of
        (Inr c, Inr d) \<Rightarrow> d < c
      | _ \<Rightarrow> False)"

datatype reload = Installed | Updated string | RefusedDowngrade string

definition reload_edit ::
  "('v::linorder, 'r) semver_api \<Rightarrow> ('k, 't, 'w, 'c) loaded_extension
   \<Rightarrow> (string, ('k, 't, 'w, 'c) loaded_extension) hashmap
   \<Rightarrow> reload \<times> (string, ('k, 't, 'w, 'c) loaded_extension) hashmap" where
  "reload_edit sv ext m =
     (case map_option (\<lambda>e. d_version (le_describe e)) (map_of m (le_id ext)) of
        Some prev \<Rightarrow>
          (if is_downgrade sv prev (d_version (le_describe ext)) then (RefusedDowngrade prev, m)
           else (Updated prev, AList.update (le_id ext) ext m))
      | None \<Rightarrow> (Installed, AList.update (le_id ext) ext m))"

definition downgrade_text :: "string \<Rightarrow> string \<Rightarrow> string" where
  "downgrade_text prev new_version =
     ''refusing to replace version '' @ prev @ '' with the older '' @ new_version @ '': a ''
     @ ''correctly-signed older pack is still a downgrade''"

definition handle_added_or_modified ::
  "('j, 'k, 't, 'w, 'ts, 'v::linorder, 'r, 'c) runtime_api \<Rightarrow> ('k, 't, 'w, 'c, 'v, 'ts, 'ho) runtime
   \<Rightarrow> moments \<Rightarrow> path
   \<Rightarrow> (runtime_error, unit) result \<times> ('k, 't, 'w, 'c, 'v, 'ts, 'ho) runtime" where
  "handle_added_or_modified api rt mo dir =
     (case verify_and_load api rt mo dir of
        (Inl e, rt1) \<Rightarrow> (Inl e, rt1)
      | (Inr ext, rt1) \<Rightarrow>
          (case mutate_loaded (ra_semver api) rt1 (reload_edit (ra_semver api) ext) of
             (Inl e, rt2) \<Rightarrow> (Inl e, rt2)
           | (Inr (Updated prev), rt2) \<Rightarrow> (Inr (), emit rt2 (ExtensionUpdated (le_id ext) prev))
           | (Inr Installed, rt2) \<Rightarrow> (Inr (), emit rt2 (ExtensionInstalled (le_id ext)))
           | (Inr (RefusedDowngrade prev), rt2) \<Rightarrow>
               (Inl (SignatureInvalid (le_id ext) (downgrade_text prev (d_version (le_describe ext)))), rt2)))"

section \<open>Eviction\<close>

definition report_eviction ::
  "(runtime_error, string option) result \<Rightarrow> ('k, 't, 'w, 'c, 'v, 'ts, 'ho) runtime
   \<Rightarrow> ('k, 't, 'w, 'c, 'v, 'ts, 'ho) runtime" where
  "report_eviction found rt =
     (case found of
        Inr (Some x) \<Rightarrow> emit rt (ExtensionRemoved x)
      | Inr None \<Rightarrow> rt
      | Inl e \<Rightarrow> rt)"

definition handle_removal ::
  "('v, 'r) semver_api \<Rightarrow> ('k, 't, 'w, 'c, 'v, 'ts, 'ho) runtime \<Rightarrow> path
   \<Rightarrow> ('k, 't, 'w, 'c, 'v, 'ts, 'ho) runtime" where
  "handle_removal sv rt dir =
     (let (found, rt1) = mutate_loaded sv rt (\<lambda>m.
            case List.find (\<lambda>(x, e). le_source_dir e = dir) m of
              None \<Rightarrow> (None, m)
            | Some (x, e) \<Rightarrow> (Some x, AList.delete x m))
      in report_eviction found rt1)"

definition evict ::
  "('v, 'r) semver_api \<Rightarrow> ('k, 't, 'w, 'c, 'v, 'ts, 'ho) runtime \<Rightarrow> string
   \<Rightarrow> ('k, 't, 'w, 'c, 'v, 'ts, 'ho) runtime" where
  "evict sv rt x =
     (let (found, rt1) = mutate_loaded sv rt (\<lambda>m.
            (map_option (\<lambda>_. x) (map_of m x), AList.delete x m))
      in report_eviction found rt1)"

text \<open>Only \<open>NotFound\<close> means gone; any other stat error leaves the extension loaded.\<close>

definition has_vanished :: "filesystem \<Rightarrow> path \<Rightarrow> bool" where
  "has_vanished fs dir =
     (case fs_lstat fs dir of Inr _ \<Rightarrow> False | Inl e \<Rightarrow> io_kind_of e = IoNotFound)"

definition evict_vanished_extensions ::
  "('v, 'r) semver_api \<Rightarrow> filesystem \<Rightarrow> ('k, 't, 'w, 'c, 'v, 'ts, 'ho) runtime
   \<Rightarrow> ('k, 't, 'w, 'c, 'v, 'ts, 'ho) runtime" where
  "evict_vanished_extensions sv fs rt =
     (let vanished = map fst (filter (\<lambda>(x, ext). has_vanished fs (le_source_dir ext)) (rn_loaded rt))
      in foldl (evict sv) rt vanished)"

section \<open>Filesystem events\<close>

datatype fs_event = Added path | Modified path | Removed path

fun event_path :: "fs_event \<Rightarrow> path" where
  "event_path (Added p) = p"
| "event_path (Modified p) = p"
| "event_path (Removed p) = p"

definition STATE_FILENAME :: string where "STATE_FILENAME = ''extensions-state.json''"

definition is_known_kind_dir :: "string list \<Rightarrow> string \<Rightarrow> bool" where
  "is_known_kind_dir kind_dirs name = list_ex (\<lambda>k. k = name) kind_dirs"

definition is_extension_dir :: "string list \<Rightarrow> path list \<Rightarrow> path \<Rightarrow> bool" where
  "is_extension_dir kind_dirs roots dir =
     (case parent dir of
        None \<Rightarrow> False
      | Some kind_dir \<Rightarrow>
          (case parent kind_dir of
             None \<Rightarrow> False
           | Some root \<Rightarrow>
               if \<not> list_ex (\<lambda>r. r = root) roots then False
               else (case file_name kind_dir of
                       None \<Rightarrow> False
                     | Some name \<Rightarrow> is_known_kind_dir kind_dirs name)))"

function find_extension_dir ::
  "string \<Rightarrow> string list \<Rightarrow> filesystem \<Rightarrow> path list \<Rightarrow> path \<Rightarrow> path option" where
  "find_extension_dir describe_name kind_dirs fs roots cur =
     (if fs_exists fs (join_name cur describe_name) \<and> is_extension_dir kind_dirs roots cur then Some cur
      else (case parent cur of
              None \<Rightarrow> None
            | Some up \<Rightarrow> find_extension_dir describe_name kind_dirs fs roots up))"
  by pat_completeness auto
termination
  by (relation "measure (\<lambda>(n, k, fs, roots, cur). length cur)") (auto simp: parent_def split: if_splits)

declare find_extension_dir.simps [simp del]

definition handle_fs_event ::
  "('j, 'k, 't, 'w, 'ts, 'v::linorder, 'r, 'c) runtime_api \<Rightarrow> ('k, 't, 'w, 'c, 'v, 'ts, 'ho) runtime
   \<Rightarrow> moments \<Rightarrow> fs_event
   \<Rightarrow> (runtime_error, unit) result \<times> ('k, 't, 'w, 'c, 'v, 'ts, 'ho) runtime" where
  "handle_fs_event api rt mo event =
     (let p = event_path event;
          paths = rc_paths (rn_config rt);
          is_state_file = (case home paths of None \<Rightarrow> False | Some h \<Rightarrow> p = join_name h STATE_FILENAME)
      in if is_state_file then (Inr (), emit rt StateFileChanged)
         else (case event of
                 Removed _ \<Rightarrow> (Inr (), evict_vanished_extensions (ra_semver api) (mo_find mo) rt)
               | _ \<Rightarrow>
                   (case find_extension_dir (describe_entry_name (ra_env api)) (ra_kind_dirs api)
                           (mo_find mo) (all_paths paths) p of
                      None \<Rightarrow> (Inr (), rt)
                    | Some dir \<Rightarrow> handle_added_or_modified api rt mo dir)))"

text \<open>The paths the watcher takes: the roots, and the home when it exists and is not one of them.\<close>

definition watch_paths :: "filesystem \<Rightarrow> discovery_paths \<Rightarrow> path list" where
  "watch_paths fs paths =
     (let ps = all_paths paths in
      case home paths of
        None \<Rightarrow> ps
      | Some h \<Rightarrow> if fs_exists fs h \<and> \<not> list_ex (\<lambda>p. p = h) ps then ps @ [h] else ps)"

text \<open>What the starter of the watcher holds: the sending end of the stop channel and the thread.\<close>

record watcher_guard =
  wg_stop_tx :: bool
  wg_join :: bool

definition watcher_guard_new :: watcher_guard where
  "watcher_guard_new = \<lparr>wg_stop_tx = True, wg_join = True\<rparr>"

text \<open>
  \<open>watcher.rs\<close>: what the debouncer's callback sends for a batch of \<open>notify\<close> events, and which paths
  are handed to the backend. The debouncer's creation and the backend's answer to a path are parameters.
\<close>

datatype notify_kind = CreateKind | ModifyKind | RemoveKind | OtherKind

record notify_event =
  nv_kind :: notify_kind
  nv_paths :: "path list"

fun fs_event_of :: "notify_kind \<Rightarrow> path \<Rightarrow> fs_event option" where
  "fs_event_of CreateKind p = Some (Added p)"
| "fs_event_of ModifyKind p = Some (Modified p)"
| "fs_event_of RemoveKind p = Some (Removed p)"
| "fs_event_of OtherKind p = None"

definition batch_events :: "(string list, notify_event list) result \<Rightarrow> fs_event list" where
  "batch_events res =
     (case res of
        Inl errors \<Rightarrow> []
      | Inr events \<Rightarrow> concat (map (\<lambda>ev. List.map_filter (fs_event_of (nv_kind ev)) (nv_paths ev)) events))"

definition watch ::
  "(string, unit) result \<Rightarrow> filesystem \<Rightarrow> (path \<Rightarrow> (string, unit) result) \<Rightarrow> path list
   \<Rightarrow> (runtime_error, path list) result" where
  "watch debouncer fs backend paths =
     and_then (map_err Watcher debouncer) (\<lambda>_.
       for_each (\<lambda>p taken.
         if \<not> fs_exists fs p then Inr taken
         else map_ok (\<lambda>_. taken @ [p]) (map_err Watcher (backend p)))
       paths [])"

definition start_watcher ::
  "(string, unit) result \<Rightarrow> filesystem \<Rightarrow> (path \<Rightarrow> (string, unit) result) \<Rightarrow> 'ho runtime_config
   \<Rightarrow> (runtime_error, path list \<times> watcher_guard) result" where
  "start_watcher debouncer fs backend cfg =
     map_ok (\<lambda>taken. (taken, watcher_guard_new)) (watch debouncer fs backend (watch_paths fs (rc_paths cfg)))"

text \<open>
  The watcher thread. An iteration of its loop polls the stop channel and then waits for an event; the
  thread is given by what its iterations find. A failed reload is logged and the loop goes on. The
  result says whether the thread has left its loop. The guard holds the sending end of the stop channel,
  on which nothing is ever sent: dropping it is the signal.
\<close>

datatype stop_poll = StopSent | StopDisconnected | StopEmpty

datatype received = ReceivedEvent moments fs_event | ReceiveTimeout | ReceiveDisconnected

fun watcher_loop ::
  "('j, 'k, 't, 'w, 'ts, 'v::linorder, 'r, 'c) runtime_api \<Rightarrow> ('k, 't, 'w, 'c, 'v, 'ts, 'ho) runtime
   \<Rightarrow> (stop_poll \<times> received) list \<Rightarrow> bool \<times> ('k, 't, 'w, 'c, 'v, 'ts, 'ho) runtime" where
  "watcher_loop api rt [] = (False, rt)"
| "watcher_loop api rt ((stop, received) # iterations) =
     (case stop of
        StopEmpty \<Rightarrow>
          (case received of
             ReceivedEvent mo event \<Rightarrow> watcher_loop api (snd (handle_fs_event api rt mo event)) iterations
           | ReceiveTimeout \<Rightarrow> watcher_loop api rt iterations
           | ReceiveDisconnected \<Rightarrow> (True, rt))
      | _ \<Rightarrow> (True, rt))"

definition watcher_guard_drop :: "watcher_guard \<Rightarrow> watcher_guard" where
  "watcher_guard_drop g = g\<lparr>wg_stop_tx := False, wg_join := False\<rparr>"

definition stop_of :: "watcher_guard \<Rightarrow> stop_poll" where
  "stop_of g = (if wg_stop_tx g then StopEmpty else StopDisconnected)"

end
