(* ===== verification/Gates.thy ===== *)
theory Gates
  imports Prelude
begin

text \<open>
  The contract shared by every permission check of the host: an extension's \<open>describe.json\<close>
  declares a list of grants, and a request is admitted when some single grant admits it. The
  allow-list of the URL matcher, the declared secret prefixes, the broker's extension kinds, the
  OAuth providers and the LLM role hints are all gates of this form; each component interprets
  the locale on its own check.
\<close>

locale permission_gate =
  fixes permits :: "'grant list \<Rightarrow> 'request \<Rightarrow> bool"
  assumes denies_by_default: "\<not> permits [] q"
    and permits_append: "permits (gs @ hs) q \<longleftrightarrow> permits gs q \<or> permits hs q"
begin

lemma permits_Cons: "permits (g # gs) q \<longleftrightarrow> permits [g] q \<or> permits gs q"
  using permits_append [of "[g]" gs q] by simp

lemma permits_iff: "permits gs q \<longleftrightarrow> (\<exists>g \<in> set gs. permits [g] q)"
proof (induction gs)
  case Nil
  show ?case by (simp add: denies_by_default)
next
  case (Cons g gs)
  then show ?case by (subst permits_Cons) auto
qed

lemma permits_mono: "permits gs q \<Longrightarrow> set gs \<subseteq> set hs \<Longrightarrow> permits hs q"
  by (auto simp: permits_iff [of gs] permits_iff [of hs])

lemma permits_order_irrelevant: "set gs = set hs \<Longrightarrow> permits gs q \<longleftrightarrow> permits hs q"
  by (simp add: permits_iff [of gs] permits_iff [of hs])

lemma permits_narrowed: "permits (filter P gs) q \<Longrightarrow> permits gs q"
  by (erule permits_mono) auto

lemma permits_grant: "permits gs q \<Longrightarrow> \<exists>g \<in> set gs. permits [g] q"
  by (simp add: permits_iff [of gs])

end

text \<open>A gate that is a test of each grant on its own satisfies the contract.\<close>

lemma list_ex_gate: "permission_gate (\<lambda>gs q. list_ex (\<lambda>g. ok g q) gs)"
  by unfold_locales auto

end
