(* ===== verification/Urls.thy ===== *)
theory Urls
  imports Gates "HOL-Library.Word"
begin

text \<open>
  \<open>url_matcher.rs\<close>, \<open>http_scheme_policy.rs\<close> and \<open>net_permissions.rs\<close>: which URLs an extension may
  reach. The \<open>url\<close> crate is a parameter, \<open>url_parser\<close>: \<open>Url::parse\<close> as a partial function whose
  result carries the values its accessors return. Nothing is assumed about it. What the lemmas show:
  the four facets of a match in closed form, the two normalisations of a pattern and when they
  agree, and that the effective matcher narrows what is declared by what the operator allows.
\<close>

section \<open>Parsed URLs\<close>

datatype url_host = Domain string | Ipv4 "32 word" | Ipv6 "128 word"

record url =
  u_text :: string
  u_scheme :: string
  u_host :: "url_host option"
  u_host_str :: "string option"
  u_port_or_known_default :: "nat option"
  u_path :: string
  u_query :: "string option"

type_synonym url_parser = "string \<Rightarrow> url option"

text \<open>\<open>Ipv4Addr::is_loopback\<close> is 127.0.0.0/8, \<open>Ipv6Addr::is_loopback\<close> is the one address ::1.\<close>

definition ipv4_is_loopback :: "32 word \<Rightarrow> bool" where
  "ipv4_is_loopback ip \<longleftrightarrow> drop_bit 24 ip = 127"

definition ipv6_is_loopback :: "128 word \<Rightarrow> bool" where
  "ipv6_is_loopback ip \<longleftrightarrow> ip = 1"

section \<open>The matcher\<close>

datatype host_rule = Exact string | WildcardSuffix string

record parsed_pattern =
  pp_scheme :: string
  pp_host_rule :: host_rule
  pp_port :: "nat option"
  pp_path_prefix :: string

record url_matcher =
  um_patterns :: "parsed_pattern list"
  um_raw :: "string list"
  um_allow_http :: bool

definition url_matcher_default :: url_matcher where
  "url_matcher_default = \<lparr>um_patterns = [], um_raw = [], um_allow_http = False\<rparr>"

text \<open>The text \<open>parse_pattern\<close> hands to the parser, and whether the wildcard placeholder is in it.\<close>

definition pattern_text :: "string \<Rightarrow> bool \<times> string" where
  "pattern_text pattern =
     (let stripped = trim_end_matches ''/*'' pattern in
      case strip_prefix ''https://*.'' stripped of
        Some rest \<Rightarrow> (True, ''https://__wildcard__.'' @ rest)
      | None \<Rightarrow>
          (case strip_prefix ''http://*.'' stripped of
             Some rest \<Rightarrow> (True, ''http://__wildcard__.'' @ rest)
           | None \<Rightarrow> (False, stripped)))"

definition parse_pattern :: "url_parser \<Rightarrow> string \<Rightarrow> parsed_pattern option" where
  "parse_pattern parse pattern =
     (case pattern_text pattern of (placeholder_used, normalized) \<Rightarrow>
        (case parse normalized of
           None \<Rightarrow> None
         | Some parsed \<Rightarrow>
             (case u_host_str parsed of
                None \<Rightarrow> None
              | Some host_str \<Rightarrow>
                  map_option
                    (\<lambda>rule. \<lparr>pp_scheme = u_scheme parsed, pp_host_rule = rule,
                       pp_port = u_port_or_known_default parsed,
                       pp_path_prefix =
                         (if u_path parsed = [] \<or> u_path parsed = ''/'' then ''/''
                          else u_path parsed)\<rparr>)
                    (if placeholder_used
                     then map_option WildcardSuffix (strip_prefix ''__wildcard__.'' host_str)
                     else Some (Exact host_str)))))"

definition from_patterns :: "url_parser \<Rightarrow> string list \<Rightarrow> url_matcher" where
  "from_patterns parse patterns =
     \<lparr>um_patterns = List.map_filter (parse_pattern parse) patterns, um_raw = patterns,
      um_allow_http = False\<rparr>"

definition with_allow_http :: "url_matcher \<Rightarrow> bool \<Rightarrow> url_matcher" where
  "with_allow_http m allow = m\<lparr>um_allow_http := allow\<rparr>"

definition encoded_separator_at :: "char \<Rightarrow> char \<Rightarrow> char \<Rightarrow> bool" where
  "encoded_separator_at a b c \<longleftrightarrow>
     a = CHR ''%'' \<and>
     ((ascii_lower b = CHR ''2'' \<and> ascii_lower c = CHR ''f'') \<or>
      (ascii_lower b = CHR ''5'' \<and> ascii_lower c = CHR ''c''))"

fun contains_encoded_separator :: "string \<Rightarrow> bool" where
  "contains_encoded_separator (a # b # c # r) \<longleftrightarrow>
     encoded_separator_at a b c \<or> contains_encoded_separator (b # c # r)"
| "contains_encoded_separator _ \<longleftrightarrow> False"

fun host_rule_matches :: "host_rule \<Rightarrow> string \<Rightarrow> bool" where
  "host_rule_matches (Exact h) host = eq_ignore_ascii_case h host"
| "host_rule_matches (WildcardSuffix sfx) host =
     (case strip_suffix (to_ascii_lowercase sfx) (to_ascii_lowercase host) of
        None \<Rightarrow> False
      | Some pre \<Rightarrow> ends_with ''.'' pre \<and> 1 < length pre)"

definition path_covers :: "string \<Rightarrow> string \<Rightarrow> bool" where
  "path_covers path_prefix path =
     (if path_prefix = ''/'' then True
      else (case strip_prefix path_prefix path of
              None \<Rightarrow> False
            | Some rest \<Rightarrow> rest = [] \<or> starts_with ''/'' rest))"

definition pattern_matches ::
  "parsed_pattern \<Rightarrow> string \<Rightarrow> string \<Rightarrow> nat option \<Rightarrow> string \<Rightarrow> bool" where
  "pattern_matches p scheme host port path \<longleftrightarrow>
     pp_scheme p = scheme \<and> pp_port p = port \<and> host_rule_matches (pp_host_rule p) host \<and>
     path_covers (pp_path_prefix p) path"

definition is_allowed :: "url_parser \<Rightarrow> url_matcher \<Rightarrow> string \<Rightarrow> bool" where
  "is_allowed parse m url =
     (case parse url of
        None \<Rightarrow> False
      | Some parsed \<Rightarrow>
          if \<not> (u_scheme parsed = ''https'' \<or> (um_allow_http m \<and> u_scheme parsed = ''http'')) then False
          else (case u_host_str parsed of
                  None \<Rightarrow> False
                | Some host \<Rightarrow>
                    if contains_encoded_separator (u_path parsed) then False
                    else list_ex (\<lambda>pat. pattern_matches pat (u_scheme parsed) host
                           (u_port_or_known_default parsed) (u_path parsed)) (um_patterns m)))"

section \<open>The plain-http policy\<close>

datatype http_class = Loopback | Public | Other

text \<open>\<open>str::replace\<close>: every occurrence, from the left, without overlap.\<close>

function replace :: "string \<Rightarrow> string \<Rightarrow> string \<Rightarrow> string" where
  "replace pat to s =
     (if pat = [] \<or> s = [] then s
      else if starts_with pat s then to @ replace pat to (drop (length pat) s)
      else hd s # replace pat to (tl s))"
  by pat_completeness auto
termination
  by (relation "measure (\<lambda>(pat, to, s). length s)") auto

declare replace.simps [simp del]

definition classify_text :: "string \<Rightarrow> string" where
  "classify_text pattern = replace ''://*.'' ''://__wildcard__.'' (trim_end_matches ''/*'' pattern)"

definition host_is_loopback :: "url_host option \<Rightarrow> bool" where
  "host_is_loopback h =
     (case h of
        Some (Ipv4 ip) \<Rightarrow> ipv4_is_loopback ip
      | Some (Ipv6 ip) \<Rightarrow> ipv6_is_loopback ip
      | Some (Domain d) \<Rightarrow> eq_ignore_ascii_case d ''localhost''
      | None \<Rightarrow> False)"

definition classify :: "url_parser \<Rightarrow> string \<Rightarrow> http_class" where
  "classify parse pattern =
     (case parse (classify_text pattern) of
        None \<Rightarrow> Other
      | Some url \<Rightarrow>
          if u_scheme url \<noteq> ''http'' then Other
          else if host_is_loopback (u_host url) then Loopback
          else Public)"

section \<open>The effective matcher of one instantiation\<close>

definition within_ceiling :: "string list \<Rightarrow> string list \<Rightarrow> string list" where
  "within_ceiling ceiling declared =
     (if ceiling = [] then declared else filter (\<lambda>p. list_ex (\<lambda>a. a = p) ceiling) declared)"

text \<open>The \<open>retain\<close> pass: the surviving patterns and whether a loopback one was seen.\<close>

fun retain_http :: "url_parser \<Rightarrow> string list \<Rightarrow> bool \<Rightarrow> string list \<times> bool" where
  "retain_http parse [] allow = ([], allow)"
| "retain_http parse (p # ps) allow =
     (case classify parse p of
        Loopback \<Rightarrow> (case retain_http parse ps True of (qs, a) \<Rightarrow> (p # qs, a))
      | Public \<Rightarrow> retain_http parse ps allow
      | Other \<Rightarrow> (case retain_http parse ps allow of (qs, a) \<Rightarrow> (p # qs, a)))"

definition effective_url_matcher :: "url_parser \<Rightarrow> string list \<Rightarrow> url_matcher \<Rightarrow> url_matcher" where
  "effective_url_matcher parse declared_patterns override_matcher =
     (if declared_patterns = [] then override_matcher
      else (case retain_http parse (within_ceiling (um_raw override_matcher) declared_patterns) False of
              (patterns, allow_loopback_http) \<Rightarrow>
                with_allow_http (from_patterns parse patterns) allow_loopback_http))"

section \<open>Facts\<close>

lemma wildcard_matches_iff:
  "host_rule_matches (WildcardSuffix sfx) host \<longleftrightarrow>
     (\<exists>label. label \<noteq> [] \<and> to_ascii_lowercase host = label @ ''.'' @ to_ascii_lowercase sfx)"
proof -
  have "(\<exists>pre. to_ascii_lowercase host = pre @ to_ascii_lowercase sfx \<and>
          (\<exists>r. pre = r @ ''.'') \<and> 1 < length pre) \<longleftrightarrow>
        (\<exists>label. label \<noteq> [] \<and> to_ascii_lowercase host = label @ ''.'' @ to_ascii_lowercase sfx)"
    by auto
  then show ?thesis
    by (auto simp: str_simps split: option.splits)
qed

lemma path_covers_iff:
  "path_covers pre path \<longleftrightarrow> pre = ''/'' \<or> path = pre \<or> (\<exists>r. path = pre @ ''/'' @ r)"
  by (auto simp: path_covers_def str_simps split: option.splits)

lemma encoded_separator_iff:
  "contains_encoded_separator s \<longleftrightarrow>
     (\<exists>l a b c r. s = l @ a # b # c # r \<and> encoded_separator_at a b c)"
proof
  show "contains_encoded_separator s \<Longrightarrow>
      \<exists>l a b c r. s = l @ a # b # c # r \<and> encoded_separator_at a b c"
  proof (induction s rule: contains_encoded_separator.induct)
    case (1 a b c r)
    show ?case
    proof (cases "encoded_separator_at a b c")
      case True
      then show ?thesis by (metis append_Nil)
    next
      case False
      with 1 show ?thesis by (metis append_Cons contains_encoded_separator.simps(1))
    qed
  qed simp_all
next
  have step: "contains_encoded_separator t \<Longrightarrow> contains_encoded_separator (x # t)" for x t
    by (cases t rule: contains_encoded_separator.cases) simp_all
  have "encoded_separator_at a b c \<Longrightarrow> contains_encoded_separator (l @ a # b # c # r)" for l a b c r
    by (induction l) (simp_all add: step)
  then show "\<exists>l a b c r. s = l @ a # b # c # r \<and> encoded_separator_at a b c \<Longrightarrow>
      contains_encoded_separator s" by blast
qed

lemma is_allowed_iff:
  "is_allowed parse m url \<longleftrightarrow>
     (\<exists>u host. parse url = Some u \<and> u_host_str u = Some host \<and>
        (u_scheme u = ''https'' \<or> u_scheme u = ''http'' \<and> um_allow_http m) \<and>
        \<not> contains_encoded_separator (u_path u) \<and>
        (\<exists>pat \<in> set (um_patterns m).
           pattern_matches pat (u_scheme u) host (u_port_or_known_default u) (u_path u)))"
  by (auto simp: is_allowed_def list_ex_iff split: option.splits)

lemma um_patterns_from: "um_patterns (from_patterns parse ps) = List.map_filter (parse_pattern parse) ps"
  and um_raw_from: "um_raw (from_patterns parse ps) = ps"
  by (simp_all add: from_patterns_def)

lemma set_map_filter: "y \<in> set (List.map_filter f xs) \<longleftrightarrow> (\<exists>x \<in> set xs. f x = Some y)"
  by (induction xs) (auto split: option.splits)

text \<open>The allow-list built from raw patterns, with the http toggle fixed, is a permission gate.\<close>

definition allows_with :: "url_parser \<Rightarrow> bool \<Rightarrow> string list \<Rightarrow> string \<Rightarrow> bool" where
  "allows_with parse allow ps url =
     is_allowed parse (with_allow_http (from_patterns parse ps) allow) url"

lemma allows_with_iff:
  "allows_with parse allow ps url \<longleftrightarrow>
     (\<exists>u host. parse url = Some u \<and> u_host_str u = Some host \<and>
        (u_scheme u = ''https'' \<or> u_scheme u = ''http'' \<and> allow) \<and>
        \<not> contains_encoded_separator (u_path u) \<and>
        (\<exists>p \<in> set ps. \<exists>pat. parse_pattern parse p = Some pat \<and>
           pattern_matches pat (u_scheme u) host (u_port_or_known_default u) (u_path u)))"
proof -
  have pats: "(\<exists>pat \<in> set (um_patterns (with_allow_http (from_patterns parse ps) allow)). Q pat) \<longleftrightarrow>
      (\<exists>p \<in> set ps. \<exists>pat. parse_pattern parse p = Some pat \<and> Q pat)" for Q
    unfolding Bex_def with_allow_http_def
    by (simp add: um_patterns_from set_map_filter Bex_def) blast
  have toggle: "um_allow_http (with_allow_http m allow) = allow" for m
    by (simp add: with_allow_http_def)
  show ?thesis by (simp only: allows_with_def is_allowed_iff pats toggle)
qed

interpretation url_gate: permission_gate "allows_with parse allow" for parse allow
proof
  fix q gs hs
  show "\<not> allows_with parse allow [] q" by (simp add: allows_with_iff)
  show "allows_with parse allow (gs @ hs) q \<longleftrightarrow>
      allows_with parse allow gs q \<or> allows_with parse allow hs q"
    by (simp add: allows_with_iff) blast
qed

lemma retain_http_eq:
  "retain_http parse ps allow =
     (filter (\<lambda>p. classify parse p \<noteq> Public) ps, allow \<or> list_ex (\<lambda>p. classify parse p = Loopback) ps)"
  by (induction ps arbitrary: allow) (auto split: http_class.splits)

lemma effective_matcher_allows:
  assumes "declared \<noteq> []"
  shows "is_allowed parse (effective_url_matcher parse declared m) url \<longleftrightarrow>
    allows_with parse (list_ex (\<lambda>p. classify parse p = Loopback) (within_ceiling (um_raw m) declared))
      (filter (\<lambda>p. classify parse p \<noteq> Public) (within_ceiling (um_raw m) declared)) url"
  using assms by (simp add: effective_url_matcher_def retain_http_eq allows_with_def)

lemma effective_matcher_grant:
  assumes "declared \<noteq> []" and "is_allowed parse (effective_url_matcher parse declared operator) url"
  shows "\<exists>p \<in> set (within_ceiling (um_raw operator) declared). allows_with parse True [p] url"
proof -
  let ?kept = "filter (\<lambda>p. classify parse p \<noteq> Public) (within_ceiling (um_raw operator) declared)"
  from assms have "\<exists>a. allows_with parse a ?kept url" by (auto simp: effective_matcher_allows)
  then obtain a where "allows_with parse a ?kept url" ..
  then obtain p where "p \<in> set ?kept" and "allows_with parse a [p] url"
    using url_gate.permits_grant by blast
  moreover from this have "allows_with parse True [p] url" by (auto simp: allows_with_iff)
  ultimately show ?thesis by auto
qed

lemma within_ceiling_subset: "set (within_ceiling c d) \<subseteq> set d"
  by (auto simp: within_ceiling_def)

lemma within_ceiling_mem: "c \<noteq> [] \<Longrightarrow> p \<in> set (within_ceiling c d) \<longleftrightarrow> p \<in> set d \<and> p \<in> set c"
  by (auto simp: within_ceiling_def list_ex_iff)

text \<open>The two normalisations of a pattern agree when the wildcard text occurs at most where
  \<open>parse_pattern\<close> looks for it.\<close>

lemma replace_absent:
  "pat \<noteq> [] \<Longrightarrow> (\<nexists>l r. s = l @ pat @ r) \<Longrightarrow> replace pat to s = s"
proof (induction pat to s rule: replace.induct)
  case (1 pat to s)
  show ?case
  proof (cases s)
    case Nil
    then show ?thesis by (simp add: replace.simps)
  next
    case (Cons c cs)
    with 1(4) have no: "\<not> starts_with pat s" by (auto simp: starts_with_iff) (metis append_Nil)
    have "\<nexists>l r. cs = l @ pat @ r" using 1(4) Cons by (metis append_Cons)
    with 1(2) [OF _ no] 1(3) Cons have "replace pat to cs = cs" by simp
    with no Cons 1(3) show ?thesis by (simp add: replace.simps [of pat to "c # cs"])
  qed
qed

lemma classify_text_plain:
  assumes "\<nexists>l r. trim_end_matches ''/*'' pattern = l @ ''://*.'' @ r"
  shows "classify_text pattern = snd (pattern_text pattern)" and "\<not> fst (pattern_text pattern)"
proof -
  have "strip_prefix ''https://*.'' (trim_end_matches ''/*'' pattern) = None"
    and "strip_prefix ''http://*.'' (trim_end_matches ''/*'' pattern) = None"
    using assms by (auto simp: strip_prefix_None_iff)
      (metis append.assoc append_Cons append_Nil)+
  then show "classify_text pattern = snd (pattern_text pattern)" and "\<not> fst (pattern_text pattern)"
    using assms by (simp_all add: pattern_text_def classify_text_def Let_def replace_absent)
qed

text \<open>
  The policy replaces the wildcard text wherever it occurs, the matcher only after the literal
  prefixes \<open>http\<close> and \<open>https\<close>. Where it occurs nowhere else, both read the same text.
\<close>

lemma replace_skip:
  "replace ''://*.'' to (''http'' @ ''://*.'' @ r) = ''http'' @ to @ replace ''://*.'' to r"
  "replace ''://*.'' to (''https'' @ ''://*.'' @ r) = ''https'' @ to @ replace ''://*.'' to r"
  by (simp_all add: replace.simps [of _ _ "_ # _"] starts_with_def)

lemma classify_text_agrees:
  assumes "\<nexists>pre post. trim_end_matches ''/*'' p = pre @ ''://*.'' @ post \<and> pre \<noteq> ''http'' \<and> pre \<noteq> ''https''"
  shows "classify_text p = snd (pattern_text p)"
proof -
  let ?t = "trim_end_matches ''/*'' p"
  have tail: "replace ''://*.'' to r = r" if "?t = s @ ''://*.'' @ r" for s to r
  proof (rule replace_absent)
    show "\<nexists>l r'. r = l @ ''://*.'' @ r'"
    proof
      assume "\<exists>l r'. r = l @ ''://*.'' @ r'"
      then obtain l r' where "r = l @ ''://*.'' @ r'" by blast
      with that have "?t = (s @ ''://*.'' @ l) @ ''://*.'' @ r'" by simp
      with assms have "s @ ''://*.'' @ l = ''http'' \<or> s @ ''://*.'' @ l = ''https''" by blast
      then have "CHR '':'' \<in> set ''https'' \<or> CHR '':'' \<in> set ''http''"
        by (metis append_Cons in_set_conv_decomp)
      then show False by simp
    qed
  qed simp
  show ?thesis
  proof (cases "\<exists>pre post. ?t = pre @ ''://*.'' @ post")
    case False
    then show ?thesis by (intro classify_text_plain) auto
  next
    case True
    then obtain pre post where t: "?t = pre @ ''://*.'' @ post" by blast
    with assms consider "pre = ''http''" | "pre = ''https''" by blast
    then show ?thesis
      using t tail [OF t]
      by cases (simp_all add: classify_text_def pattern_text_def strip_prefix_def starts_with_def
          replace_skip [simplified])
  qed
qed

lemma classify_loopback:
  "classify parse p = Loopback \<longleftrightarrow>
     (\<exists>u. parse (classify_text p) = Some u \<and> u_scheme u = ''http'' \<and> host_is_loopback (u_host u))"
  by (auto simp: classify_def split: option.splits)

lemma classify_public:
  "classify parse p = Public \<longleftrightarrow>
     (\<exists>u. parse (classify_text p) = Some u \<and> u_scheme u = ''http'' \<and> \<not> host_is_loopback (u_host u))"
  by (auto simp: classify_def split: option.splits)

lemma parse_pattern_Some:
  "parse_pattern parse p = Some pat \<Longrightarrow>
     \<exists>u h. parse (snd (pattern_text p)) = Some u \<and> u_host_str u = Some h \<and>
       pp_scheme pat = u_scheme u \<and> pp_port pat = u_port_or_known_default u \<and>
       (if fst (pattern_text p) then \<exists>sfx. h = ''__wildcard__.'' @ sfx else pp_host_rule pat = Exact h)"
  by (auto simp: parse_pattern_def case_prod_beta strip_prefix_Some_iff split: option.splits if_splits)

section \<open>Properties\<close>

text \<open>
  C12: what the matcher grants, in closed form. A URL is allowed exactly when it parses to a URL with
  a host, is https (or http with the opt-in), its path carries no percent-encoded separator, and
  one listed pattern agrees on all four facets: the scheme, the effective port, the host (equal up
  to ASCII case, or with at least one character and a separating dot before the wildcard's suffix)
  and the path (the prefix itself or an extension of it at a segment boundary).
\<close>

theorem url_allowed_exact:
  "is_allowed parse (with_allow_http (from_patterns parse ps) allow) url \<longleftrightarrow>
     (\<exists>u host p pat. parse url = Some u \<and> u_host_str u = Some host \<and>
        (u_scheme u = ''https'' \<or> u_scheme u = ''http'' \<and> allow) \<and>
        (\<nexists>l a b c r. u_path u = l @ a # b # c # r \<and> encoded_separator_at a b c) \<and>
        p \<in> set ps \<and> parse_pattern parse p = Some pat \<and>
        pp_scheme pat = u_scheme u \<and> pp_port pat = u_port_or_known_default u \<and>
        (case pp_host_rule pat of
           Exact h \<Rightarrow> to_ascii_lowercase h = to_ascii_lowercase host
         | WildcardSuffix sfx \<Rightarrow>
             \<exists>label. label \<noteq> [] \<and> to_ascii_lowercase host = label @ ''.'' @ to_ascii_lowercase sfx) \<and>
        (pp_path_prefix pat = ''/'' \<or> u_path u = pp_path_prefix pat \<or>
           (\<exists>r. u_path u = pp_path_prefix pat @ ''/'' @ r)))"
proof -
  have host: "host_rule_matches rule host \<longleftrightarrow> (case rule of
         Exact h \<Rightarrow> to_ascii_lowercase h = to_ascii_lowercase host
       | WildcardSuffix sfx \<Rightarrow>
           \<exists>label. label \<noteq> [] \<and> to_ascii_lowercase host = label @ ''.'' @ to_ascii_lowercase sfx)"
    for rule host
    by (cases rule) (simp_all add: eq_ignore_ascii_case_def wildcard_matches_iff
        del: host_rule_matches.simps(2))
  show ?thesis
    unfolding allows_with_def [symmetric] allows_with_iff pattern_matches_def host path_covers_iff
      encoded_separator_iff
    by blast
qed

text \<open>
  The operator's list is a ceiling. When it is not empty, whatever the effective matcher of a
  declaring extension allows is granted by one single pattern that both the extension declared and
  the operator listed.
\<close>

theorem effective_matcher_narrows:
  assumes "declared \<noteq> []" and "um_raw operator \<noteq> []"
    and "is_allowed parse (effective_url_matcher parse declared operator) url"
  shows "\<exists>p \<in> set declared \<inter> set (um_raw operator). allows_with parse True [p] url"
  using effective_matcher_grant [OF assms(1,3)] assms(2) by (auto simp: within_ceiling_mem)

definition example_url :: "string \<Rightarrow> string \<Rightarrow> url_host \<Rightarrow> string \<Rightarrow> nat \<Rightarrow> string \<Rightarrow> url" where
  "example_url text scheme host host_str port path =
     \<lparr>u_text = text, u_scheme = scheme, u_host = Some host, u_host_str = Some host_str,
      u_port_or_known_default = Some port, u_path = path, u_query = None\<rparr>"

text \<open>A parser that knows the few URLs of the examples.\<close>

definition example_parse :: url_parser where
  "example_parse = map_of
     [(''https://api.test'',
        example_url ''https://api.test/'' ''https'' (Domain ''api.test'') ''api.test'' 443 ''/''),
      (''https://api.test/v1'',
        example_url ''https://api.test/v1'' ''https'' (Domain ''api.test'') ''api.test'' 443 ''/v1''),
      (''https://evil.test/v1'',
        example_url ''https://evil.test/v1'' ''https'' (Domain ''evil.test'') ''evil.test'' 443 ''/v1''),
      (''http://127.0.0.1:8787'',
        example_url ''http://127.0.0.1:8787/'' ''http'' (Ipv4 0x7F000001) ''127.0.0.1'' 8787 ''/''),
      (''http://127.0.0.1:8787/x'',
        example_url ''http://127.0.0.1:8787/x'' ''http'' (Ipv4 0x7F000001) ''127.0.0.1'' 8787 ''/x'')]"

lemmas url_eval =
  pattern_text_def parse_pattern_def from_patterns_def with_allow_http_def is_allowed_def
  classify_text_def classify_def host_is_loopback_def within_ceiling_def effective_url_matcher_def
  pattern_matches_def path_covers_def strip_prefix_def starts_with_def ends_with_def
  trim_end_matches.simps replace.simps example_parse_def example_url_def ipv4_is_loopback_def
  eq_ignore_ascii_case_def encoded_separator_at_def Let_def

lemma example_ceiling_allows:
  "is_allowed example_parse (effective_url_matcher example_parse [''https://api.test/*'']
     (from_patterns example_parse [''https://api.test/*''])) ''https://api.test/v1''"
  by (simp add: url_eval)

theorem effective_matcher_narrows_witness:
  "\<exists>p \<in> set [''https://api.test/*''] \<inter> set (um_raw (from_patterns example_parse [''https://api.test/*''])).
     allows_with example_parse True [p] ''https://api.test/v1''"
  by (rule effective_matcher_narrows [OF _ _ example_ceiling_allows]) (simp_all add: um_raw_from)

text \<open>
  C27: plain http reaches loopback hosts only. When the effective matcher of an extension allows an http
  URL, either the extension declares no pattern and the operator's own list, with its http switch
  on, allows the URL; or some declared pattern is an http one with a loopback host, and the URL is
  granted on host, port and path by a declared pattern within the operator's ceiling that itself
  resolves to http on a loopback host and the request's port. That host is the request's own up to
  ASCII case, unless the pattern was a wildcard, and then it begins with the placeholder label, which
  no loopback host does. The exception is a pattern in which the wildcard text stands anywhere but
  right after a leading \<open>http\<close> or \<open>https\<close>: the policy and the matcher read different texts of it.
\<close>

theorem plain_http_is_loopback:
  assumes "is_allowed parse (effective_url_matcher parse declared operator) url"
    and "parse url = Some u" and "u_scheme u = ''http''"
  shows "declared = [] \<and> um_allow_http operator \<and> is_allowed parse operator url \<or>
    (\<exists>q \<in> set declared. \<exists>w. parse (classify_text q) = Some w \<and> u_scheme w = ''http'' \<and> host_is_loopback (u_host w)) \<and>
    (\<exists>p \<in> set declared. \<exists>pat host. (um_raw operator = [] \<or> p \<in> set (um_raw operator)) \<and>
       u_host_str u = Some host \<and> parse_pattern parse p = Some pat \<and>
       pattern_matches pat ''http'' host (u_port_or_known_default u) (u_path u) \<and>
       ((\<exists>v h. parse (classify_text p) = Some v \<and> u_scheme v = ''http'' \<and> host_is_loopback (u_host v) \<and>
           u_port_or_known_default v = u_port_or_known_default u \<and> u_host_str v = Some h \<and>
           (if fst (pattern_text p) then \<exists>sfx. h = ''__wildcard__.'' @ sfx else eq_ignore_ascii_case h host)) \<or>
        (\<exists>pre post. trim_end_matches ''/*'' p = pre @ ''://*.'' @ post \<and> pre \<noteq> ''http'' \<and> pre \<noteq> ''https'')))"
proof (cases "declared = []")
  case True
  with assms show ?thesis by (auto simp: effective_url_matcher_def is_allowed_iff)
next
  case False
  let ?within = "within_ceiling (um_raw operator) declared"
  from assms False obtain host p pat where host: "u_host_str u = Some host"
    and loopback: "list_ex (\<lambda>p. classify parse p = Loopback) ?within"
    and p: "p \<in> set ?within" "classify parse p \<noteq> Public" "parse_pattern parse p = Some pat"
    and m: "pattern_matches pat ''http'' host (u_port_or_known_default u) (u_path u)"
    by (auto simp: effective_matcher_allows allows_with_iff)
  from loopback have on: "\<exists>q \<in> set declared. \<exists>w. parse (classify_text q) = Some w \<and> u_scheme w = ''http'' \<and>
      host_is_loopback (u_host w)"
    using within_ceiling_subset by (fastforce simp: list_ex_iff classify_loopback)
  have decl: "p \<in> set declared" "um_raw operator = [] \<or> p \<in> set (um_raw operator)"
    using p(1) within_ceiling_subset [of "um_raw operator" declared] within_ceiling_mem [of "um_raw operator" p declared]
    by auto
  have granted: "\<exists>v h. parse (classify_text p) = Some v \<and> u_scheme v = ''http'' \<and> host_is_loopback (u_host v) \<and>
      u_port_or_known_default v = u_port_or_known_default u \<and> u_host_str v = Some h \<and>
      (if fst (pattern_text p) then \<exists>sfx. h = ''__wildcard__.'' @ sfx else eq_ignore_ascii_case h host)"
    if "classify_text p = snd (pattern_text p)"
  proof -
    from parse_pattern_Some [OF p(3)] that obtain v h where v: "parse (classify_text p) = Some v"
      "u_host_str v = Some h" "pp_scheme pat = u_scheme v" "pp_port pat = u_port_or_known_default v"
      "if fst (pattern_text p) then \<exists>sfx. h = ''__wildcard__.'' @ sfx else pp_host_rule pat = Exact h"
      by auto
    from m have "pp_scheme pat = ''http''" "pp_port pat = u_port_or_known_default u"
      "host_rule_matches (pp_host_rule pat) host"
      by (simp_all add: pattern_matches_def)
    with v p(2) show ?thesis by (auto simp: classify_public split: if_splits)
  qed
  with classify_text_agrees [of p] have "(\<exists>v h. parse (classify_text p) = Some v \<and> u_scheme v = ''http'' \<and>
      host_is_loopback (u_host v) \<and> u_port_or_known_default v = u_port_or_known_default u \<and> u_host_str v = Some h \<and>
      (if fst (pattern_text p) then \<exists>sfx. h = ''__wildcard__.'' @ sfx else eq_ignore_ascii_case h host)) \<or>
    (\<exists>pre post. trim_end_matches ''/*'' p = pre @ ''://*.'' @ post \<and> pre \<noteq> ''http'' \<and> pre \<noteq> ''https'')"
    by blast
  with host p(3) m on decl show ?thesis by blast
qed

text \<open>The two normalisations do differ, on a wildcard under a scheme in upper case.\<close>

theorem normalisations_differ:
  "classify_text ''HTTP://*.h.test/*'' = ''HTTP://__wildcard__.h.test'' \<and>
   pattern_text ''HTTP://*.h.test/*'' = (False, ''HTTP://*.h.test'')"
  by (simp add: url_eval)

lemma example_loopback_allows:
  "is_allowed example_parse (effective_url_matcher example_parse
     [''http://127.0.0.1:8787/*'', ''https://api.test/*''] url_matcher_default) ''http://127.0.0.1:8787/x''"
  by (simp add: url_eval url_matcher_default_def)

lemma example_loopback_url:
  "example_parse ''http://127.0.0.1:8787/x'' =
     Some (example_url ''http://127.0.0.1:8787/x'' ''http'' (Ipv4 0x7F000001) ''127.0.0.1'' 8787 ''/x'')"
  by (simp add: example_parse_def)

theorem plain_http_is_loopback_witness:
  "\<exists>p \<in> set [''http://127.0.0.1:8787/*'', ''https://api.test/*'']. \<exists>pat host.
     u_host_str (example_url ''http://127.0.0.1:8787/x'' ''http'' (Ipv4 0x7F000001) ''127.0.0.1'' 8787 ''/x'')
       = Some host \<and>
     parse_pattern example_parse p = Some pat \<and> pattern_matches pat ''http'' host (Some 8787) ''/x''"
  using plain_http_is_loopback [OF example_loopback_allows example_loopback_url]
  by (auto simp: example_url_def)

end
