(* ===== verification/HostState.thy ===== *)
theory HostState
  imports Loaded Urls
begin

text \<open>
  \<open>host_ports.rs\<close>, \<open>host_state.rs\<close> and the host-override half of \<open>loaded.rs\<close>: the ports a host
  supplies, the state handed to every host function of one dispatch, its builder, and the state
  one instantiation of a loaded extension is given. A port is a record of functions; the HTTP
  client, the runtime behind the weak reference and the embedding vectors' numbers are type
  variables. The WASI context grants nothing and is left out.
\<close>

section \<open>Ports\<close>

record translator =
  tr_t :: "string \<Rightarrow> string"
  tr_tf :: "string \<Rightarrow> (string \<times> string) list \<Rightarrow> string"

definition key_translator :: translator where
  "key_translator = \<lparr>tr_t = (\<lambda>key. key), tr_tf = (\<lambda>key args. key)\<rparr>"

datatype secrets_error = SecretNotFound string | SecretBackend string

fun display_secrets_error :: "secrets_error \<Rightarrow> string" where
  "display_secrets_error (SecretNotFound k) = ''secret not found: '' @ k"
| "display_secrets_error (SecretBackend m) = ''backend error: '' @ m"

type_synonym secrets_backend = "string \<Rightarrow> (secrets_error, string) result"

type_synonym in_memory_secrets = "(string, string) hashmap"

definition in_memory_new :: in_memory_secrets where
  "in_memory_new = []"

definition in_memory_insert :: "in_memory_secrets \<Rightarrow> string \<Rightarrow> string \<Rightarrow> in_memory_secrets" where
  "in_memory_insert m key value = AList.update key value m"

definition in_memory_get :: "in_memory_secrets \<Rightarrow> secrets_backend" where
  "in_memory_get m key = ok_or (SecretNotFound key) (map_of m key)"

datatype response_format = TextFormat | JsonFormat | JsonSchemaFormat string

record llm_port_request =
  lr_system_prompt :: string
  lr_messages :: "(string \<times> string) list"
  lr_response_format :: response_format

record llm_port_response =
  lo_content :: string
  lo_total_tokens :: "32 word option"

record embed_port_request =
  er_inputs :: "string list"

record 'f embed_port_response =
  eo_vectors :: "'f list list"
  eo_model :: string

datatype llm_port_error = RoleUnassigned string | LlmBackend string | Unsupported

fun display_llm_error :: "llm_port_error \<Rightarrow> string" where
  "display_llm_error (RoleUnassigned r) = ''llm role unassigned: '' @ r"
| "display_llm_error (LlmBackend m) = ''backend error: '' @ m"
| "display_llm_error Unsupported = ''embeddings not supported by this host''"

record host_call_context =
  cx_tenant :: "string option"
  cx_user_email :: "string option"

definition call_context_default :: host_call_context where
  "call_context_default = \<lparr>cx_tenant = None, cx_user_email = None\<rparr>"

record 'f llm_port =
  lp_complete :: "string \<Rightarrow> host_call_context \<Rightarrow> string \<Rightarrow> llm_port_request
    \<Rightarrow> (llm_port_error, llm_port_response) result"
  lp_embed :: "string \<Rightarrow> host_call_context \<Rightarrow> string \<Rightarrow> embed_port_request
    \<Rightarrow> (llm_port_error, 'f embed_port_response) result"

text \<open>The default body of the trait's \<open>embed\<close>.\<close>

definition embed_default ::
  "string \<Rightarrow> host_call_context \<Rightarrow> string \<Rightarrow> embed_port_request
   \<Rightarrow> (llm_port_error, 'f embed_port_response) result" where
  "embed_default x ctx role req = Inl Unsupported"

record oauth_broker_config =
  oc_http_base_url :: string
  oc_env :: string
  oc_tenant :: string
  oc_team :: "string option"
  oc_shared_secret :: "string option"

section \<open>The state of one dispatch\<close>

definition MAX_BROKER_DEPTH :: "32 word" where "MAX_BROKER_DEPTH = 8"

record ('cl, 'rt, 'f) host_state =
  hs_extension_id :: string
  hs_permissions :: permissions
  hs_call_depth :: "32 word"
  hs_translator :: translator
  hs_secrets_backend :: secrets_backend
  hs_http_client :: "'cl option"
  hs_http_timeout :: duration
  hs_llm_port :: "'f llm_port option"
  hs_call_ctx :: host_call_context
  hs_url_matcher :: url_matcher
  hs_runtime_weak :: "'rt option"
  hs_oauth_config :: "oauth_broker_config option"
  hs_limits :: pack_limits

record ('cl, 'rt, 'f) host_state_builder =
  hb_extension_id :: string
  hb_permissions :: permissions
  hb_translator :: translator
  hb_secrets_backend :: secrets_backend
  hb_http_client :: "'cl option"
  hb_llm_port :: "'f llm_port option"
  hb_call_ctx :: host_call_context
  hb_url_matcher :: url_matcher
  hb_runtime_weak :: "'rt option"
  hb_call_depth_start :: "32 word"
  hb_oauth_config :: "oauth_broker_config option"
  hb_http_timeout :: duration

definition builder :: "string \<Rightarrow> permissions \<Rightarrow> ('cl, 'rt, 'f) host_state_builder" where
  "builder extension_id perms =
     \<lparr>hb_extension_id = extension_id, hb_permissions = perms, hb_translator = key_translator,
      hb_secrets_backend = in_memory_get in_memory_new, hb_http_client = None, hb_llm_port = None,
      hb_call_ctx = call_context_default, hb_url_matcher = url_matcher_default,
      hb_runtime_weak = None, hb_call_depth_start = 0, hb_oauth_config = None,
      hb_http_timeout = http_timeout_for None\<rparr>"

text \<open>The builder's setters, named after its methods.\<close>

definition set_translator :: "translator \<Rightarrow> ('cl, 'rt, 'f) host_state_builder \<Rightarrow> ('cl, 'rt, 'f) host_state_builder" where
  "set_translator x b = b\<lparr>hb_translator := x\<rparr>"

definition set_secrets_backend :: "secrets_backend \<Rightarrow> ('cl, 'rt, 'f) host_state_builder \<Rightarrow> ('cl, 'rt, 'f) host_state_builder" where
  "set_secrets_backend x b = b\<lparr>hb_secrets_backend := x\<rparr>"

definition set_http_client :: "'cl option \<Rightarrow> ('cl, 'rt, 'f) host_state_builder \<Rightarrow> ('cl, 'rt, 'f) host_state_builder" where
  "set_http_client x b = b\<lparr>hb_http_client := x\<rparr>"

definition set_http_timeout :: "duration \<Rightarrow> ('cl, 'rt, 'f) host_state_builder \<Rightarrow> ('cl, 'rt, 'f) host_state_builder" where
  "set_http_timeout x b = b\<lparr>hb_http_timeout := x\<rparr>"

definition set_llm_port :: "'f llm_port option \<Rightarrow> ('cl, 'rt, 'f) host_state_builder \<Rightarrow> ('cl, 'rt, 'f) host_state_builder" where
  "set_llm_port x b = b\<lparr>hb_llm_port := x\<rparr>"

definition set_call_ctx :: "host_call_context \<Rightarrow> ('cl, 'rt, 'f) host_state_builder \<Rightarrow> ('cl, 'rt, 'f) host_state_builder" where
  "set_call_ctx x b = b\<lparr>hb_call_ctx := x\<rparr>"

definition set_url_matcher :: "url_matcher \<Rightarrow> ('cl, 'rt, 'f) host_state_builder \<Rightarrow> ('cl, 'rt, 'f) host_state_builder" where
  "set_url_matcher x b = b\<lparr>hb_url_matcher := x\<rparr>"

definition set_runtime_weak :: "'rt option \<Rightarrow> ('cl, 'rt, 'f) host_state_builder \<Rightarrow> ('cl, 'rt, 'f) host_state_builder" where
  "set_runtime_weak x b = b\<lparr>hb_runtime_weak := x\<rparr>"

definition set_call_depth_start :: "32 word \<Rightarrow> ('cl, 'rt, 'f) host_state_builder \<Rightarrow> ('cl, 'rt, 'f) host_state_builder" where
  "set_call_depth_start x b = b\<lparr>hb_call_depth_start := x\<rparr>"

definition set_oauth_config :: "oauth_broker_config option \<Rightarrow> ('cl, 'rt, 'f) host_state_builder \<Rightarrow> ('cl, 'rt, 'f) host_state_builder" where
  "set_oauth_config x b = b\<lparr>hb_oauth_config := x\<rparr>"

lemmas setter_defs = set_translator_def set_secrets_backend_def set_http_client_def set_http_timeout_def set_llm_port_def
  set_call_ctx_def set_url_matcher_def set_runtime_weak_def set_call_depth_start_def set_oauth_config_def

definition build :: "('cl, 'rt, 'f) host_state_builder \<Rightarrow> ('cl, 'rt, 'f) host_state" where
  "build b =
     \<lparr>hs_extension_id = hb_extension_id b, hs_permissions = hb_permissions b,
      hs_call_depth = hb_call_depth_start b, hs_translator = hb_translator b,
      hs_secrets_backend = hb_secrets_backend b, hs_http_client = hb_http_client b,
      hs_http_timeout = hb_http_timeout b, hs_llm_port = hb_llm_port b,
      hs_call_ctx = hb_call_ctx b, hs_url_matcher = hb_url_matcher b,
      hs_runtime_weak = hb_runtime_weak b, hs_oauth_config = hb_oauth_config b,
      hs_limits = pack_limits_new\<rparr>"

section \<open>Host overrides\<close>

record ('cl, 'rt, 'f) host_overrides =
  ho_translator :: translator
  ho_secrets_backend :: secrets_backend
  ho_http_client :: "'cl option"
  ho_llm_port :: "'f llm_port option"
  ho_url_matcher :: url_matcher
  ho_runtime_weak :: "'rt option"
  ho_call_depth_start :: "32 word"
  ho_oauth_config :: "oauth_broker_config option"

definition host_overrides_default :: "('cl, 'rt, 'f) host_overrides" where
  "host_overrides_default =
     \<lparr>ho_translator = key_translator, ho_secrets_backend = in_memory_get in_memory_new,
      ho_http_client = None, ho_llm_port = None, ho_url_matcher = url_matcher_default,
      ho_runtime_weak = None, ho_call_depth_start = 0, ho_oauth_config = None\<rparr>"

text \<open>
  The \<open>Debug\<close> rendering as field and value: only what is no secret and no handle is rendered; \<open>dbg\<close>
  renders a string, \<open>dbg_opt\<close> an optional one, \<open>dbg_matcher\<close> the matcher.
\<close>

definition host_overrides_debug ::
  "(string \<Rightarrow> string) \<Rightarrow> (string option \<Rightarrow> string) \<Rightarrow> (url_matcher \<Rightarrow> string)
   \<Rightarrow> ('cl, 'rt, 'f) host_overrides \<Rightarrow> (string \<times> string) list" where
  "host_overrides_debug dbg dbg_opt dbg_matcher ho =
     [(''translator'', dbg ''<dyn Translator>''),
      (''secrets_backend'', dbg ''<dyn SecretsBackend>''),
      (''http_client'', dbg_opt (map_option (\<lambda>_. ''<Client>'') (ho_http_client ho))),
      (''llm_port'', dbg_opt (map_option (\<lambda>_. ''<dyn LlmPort>'') (ho_llm_port ho))),
      (''url_matcher'', dbg_matcher (ho_url_matcher ho)),
      (''runtime_weak'', dbg_opt (map_option (\<lambda>_. ''<Arc<ExtensionRuntime>>'') (ho_runtime_weak ho))),
      (''call_depth_start'', show_nat (unat (ho_call_depth_start ho))),
      (''oauth_config'', dbg_opt (map_option (\<lambda>_. ''<OAuthBrokerConfig>'') (ho_oauth_config ho)))]"

text \<open>
  The state and the store limits \<open>build_store_and_instance\<close> prepares before it instantiates: the
  guest runs with the describe's permissions, and with the declared network patterns narrowed by
  the host's.
\<close>

definition dispatch_state ::
  "url_parser \<Rightarrow> ('k, 't, 'w, 'c) loaded_extension \<Rightarrow> ('cl, 'rt, 'f) host_overrides
   \<Rightarrow> host_call_context \<Rightarrow> duration option \<Rightarrow> ('cl, 'rt, 'f) host_state \<times> store_limits" where
  "dispatch_state parse ext ho ctx dispatch_timeout =
     (let matcher = effective_url_matcher parse (network (d_permissions (le_describe ext)))
                      (ho_url_matcher ho);
          state = build
            (set_oauth_config (ho_oauth_config ho)
            (set_call_depth_start (ho_call_depth_start ho)
            (set_runtime_weak (ho_runtime_weak ho)
            (set_url_matcher matcher
            (set_call_ctx ctx
            (set_llm_port (ho_llm_port ho)
            (set_http_timeout (http_timeout_for dispatch_timeout)
            (set_http_client (ho_http_client ho)
            (set_secrets_backend (ho_secrets_backend ho)
            (set_translator (ho_translator ho)
            (builder (le_id ext) (d_permissions (le_describe ext)))))))))))))
      in (state, apply_limits (hs_limits state) dispatch_timeout store_unlimited))"

lemma dispatch_state_fields [simp]:
  "hs_extension_id (fst (dispatch_state parse ext ho ctx t)) = le_id ext"
  "hs_permissions (fst (dispatch_state parse ext ho ctx t)) = d_permissions (le_describe ext)"
  "hs_url_matcher (fst (dispatch_state parse ext ho ctx t)) =
     effective_url_matcher parse (network (d_permissions (le_describe ext))) (ho_url_matcher ho)"
  "hs_http_timeout (fst (dispatch_state parse ext ho ctx t)) = http_timeout_for t"
  "hs_secrets_backend (fst (dispatch_state parse ext ho ctx t)) = ho_secrets_backend ho"
  "hs_call_ctx (fst (dispatch_state parse ext ho ctx t)) = ctx"
  "hs_http_client (fst (dispatch_state parse ext ho ctx t)) = ho_http_client ho"
  "hs_llm_port (fst (dispatch_state parse ext ho ctx t)) = ho_llm_port ho"
  by (simp_all add: dispatch_state_def build_def builder_def setter_defs Let_def)

lemma in_memory_round_trip:
  "in_memory_get (in_memory_insert m key value) k = (if k = key then Inr value else in_memory_get m k)"
  by (simp add: in_memory_get_def in_memory_insert_def)

end
