(* ===== verification/Tools.thy ===== *)
theory Tools
  imports Sdk
begin

text \<open>
  \<open>tool_metadata_report.rs\<close> and the tool mapper of \<open>runtime_design.rs\<close>: which declared tools of a
  v2 extension miss which metadata, the text of the report, and the definition a host is given
  for a declared tool. The lemmas tie the two: a tool is reported exactly when the definition
  served for it is blank in the same place.
\<close>

definition V2_API_VERSION :: string where "V2_API_VERSION = ''greentic.ai/v2''"

definition MAX_NAMES_SHOWN :: nat where "MAX_NAMES_SHOWN = 3"

record tool_metadata_gaps =
  g_tools :: nat
  g_no_description :: "string list"
  g_no_input_schema :: "string list"
  g_no_capabilities :: "string list"

definition blank_or_absent :: "string option \<Rightarrow> bool" where
  "blank_or_absent x = (case x of None \<Rightarrow> True | Some s \<Rightarrow> is_blank s)"

definition gap_step :: "'s tool \<Rightarrow> tool_metadata_gaps \<Rightarrow> tool_metadata_gaps" where
  "gap_step t gaps =
     (let g1 = (if blank_or_absent (t_description t)
                then gaps\<lparr>g_no_description := g_no_description gaps @ [t_name t]\<rparr> else gaps);
          g2 = (if blank_or_absent (t_input_schema t)
                then g1\<lparr>g_no_input_schema := g_no_input_schema g1 @ [t_name t]\<rparr> else g1)
      in if t_capabilities t = None
         then g2\<lparr>g_no_capabilities := g_no_capabilities g2 @ [t_name t]\<rparr> else g2)"

definition collect_tool_metadata_gaps ::
  "('k, 's tool, 'w) describe \<Rightarrow> tool_metadata_gaps option" where
  "collect_tool_metadata_gaps d =
     (if d_api_version d \<noteq> V2_API_VERSION then None
      else
        let gaps = fold gap_step (d_tools d)
              \<lparr>g_tools = length (d_tools d), g_no_description = [], g_no_input_schema = [],
               g_no_capabilities = []\<rparr>;
            nothing_missing =
              g_no_description gaps = [] \<and> g_no_input_schema gaps = [] \<and> g_no_capabilities gaps = []
        in if \<not> nothing_missing then Some gaps else None)"

definition format_names :: "string list \<Rightarrow> string" where
  "format_names names =
     (if names = [] then ''0''
      else
        let shown = min (length names) MAX_NAMES_SHOWN;
            elided = length names - shown;
            more = (if elided = 0 then [] else '', +'' @ show_nat elided @ '' more'')
        in show_nat (length names) @ '' ('' @ join_with '', '' (take shown names) @ more @ '')'')"

text \<open>The one warning of a load: the values of its fields.\<close>

record tool_metadata_warning =
  tw_extension :: string
  tw_tools :: nat
  tw_no_description :: string
  tw_no_input_schema :: string
  tw_no_capabilities :: string

definition report_tool_metadata_gaps :: "('k, 's tool, 'w) describe \<Rightarrow> tool_metadata_warning option" where
  "report_tool_metadata_gaps d =
     (case collect_tool_metadata_gaps d of
        None \<Rightarrow> None
      | Some gaps \<Rightarrow>
          Some \<lparr>tw_extension = d_id d, tw_tools = g_tools gaps,
                tw_no_description = format_names (g_no_description gaps),
                tw_no_input_schema = format_names (g_no_input_schema gaps),
                tw_no_capabilities = format_names (g_no_capabilities gaps)\<rparr>)"

definition contribution_tool_to_definition :: "'s tool \<Rightarrow> 's tool_definition" where
  "contribution_tool_to_definition t =
     \<lparr>td_name = t_name t,
      td_description = (case t_description t of None \<Rightarrow> [] | Some s \<Rightarrow> s),
      td_input_schema_json = (case t_input_schema t of None \<Rightarrow> [] | Some s \<Rightarrow> s),
      td_output_schema_json = t_output_schema t,
      td_capabilities = t_capabilities t,
      td_agentic_worker_metadata = t_agentic_worker_metadata t,
      td_secret_requirements = t_secret_requirements t\<rparr>"

lemma gap_step_eq:
  "gap_step t g =
     g\<lparr>g_no_description := g_no_description g @ (if blank_or_absent (t_description t) then [t_name t] else []),
       g_no_input_schema := g_no_input_schema g @ (if blank_or_absent (t_input_schema t) then [t_name t] else []),
       g_no_capabilities := g_no_capabilities g @ (if t_capabilities t = None then [t_name t] else [])\<rparr>"
  by (cases "blank_or_absent (t_description t)"; cases "blank_or_absent (t_input_schema t)")
    (simp_all add: gap_step_def Let_def)

lemma fold_gap_step:
  "fold gap_step ts g =
     g\<lparr>g_no_description := g_no_description g @ map t_name (filter (\<lambda>t. blank_or_absent (t_description t)) ts),
       g_no_input_schema := g_no_input_schema g @ map t_name (filter (\<lambda>t. blank_or_absent (t_input_schema t)) ts),
       g_no_capabilities := g_no_capabilities g @ map t_name (filter (\<lambda>t. t_capabilities t = None) ts)\<rparr>"
proof (induction ts arbitrary: g)
  case (Cons t ts)
  have "fold gap_step (t # ts) g = fold gap_step ts (gap_step t g)" by simp
  also note Cons.IH [of "gap_step t g"]
  finally show ?case unfolding gap_step_eq by simp
qed simp

lemma blank_served:
  "blank_or_absent (t_description t) \<longleftrightarrow> is_blank (td_description (contribution_tool_to_definition t))"
  "blank_or_absent (t_input_schema t) \<longleftrightarrow> is_blank (td_input_schema_json (contribution_tool_to_definition t))"
  by (simp_all add: blank_or_absent_def contribution_tool_to_definition_def split: option.split)

lemma served_names:
  "map td_name (filter P (map contribution_tool_to_definition ts)) =
     map t_name (filter (\<lambda>t. P (contribution_tool_to_definition t)) ts)"
  by (induction ts) (simp_all add: contribution_tool_to_definition_def)

lemma served_caps: "td_capabilities (contribution_tool_to_definition t) = t_capabilities t"
  by (simp add: contribution_tool_to_definition_def)

text \<open>
  The load-time report agrees with what hosts are served. For a v2 describe each category lists,
  in declaration order, exactly the tools whose served definition has a blank description, a blank
  input schema, or no capabilities; there is no report exactly when no served definition is
  deficient or the describe is not on the v2 contract.
\<close>

theorem gaps_match_served_tools:
  "(let served = map contribution_tool_to_definition (d_tools d);
        bad_description = filter (\<lambda>x. is_blank (td_description x)) served;
        bad_schema = filter (\<lambda>x. is_blank (td_input_schema_json x)) served;
        no_caps = filter (\<lambda>x. td_capabilities x = None) served
    in collect_tool_metadata_gaps d =
         (if d_api_version d = V2_API_VERSION \<and> bad_description @ bad_schema @ no_caps \<noteq> []
          then Some \<lparr>g_tools = length served, g_no_description = map td_name bad_description,
                     g_no_input_schema = map td_name bad_schema,
                     g_no_capabilities = map td_name no_caps\<rparr>
          else None))"
  unfolding collect_tool_metadata_gaps_def fold_gap_step Let_def served_names
  by (auto simp: blank_served served_caps filter_empty_conv)

end
