(* ===== verification/Dispatch.thy ===== *)
theory Dispatch
  imports Runtime HostState Tools
begin

text \<open>
  The dispatch plumbing of \<open>runtime.rs\<close> and the calls into design extensions: \<open>runtime_design.rs\<close>,
  \<open>runtime_knowledge.rs\<close>, \<open>runtime_views.rs\<close> and \<open>guardrail_map.rs\<close>.

  Wasmtime is a parameter. \<open>wasm_api\<close> links the import interfaces, instantiates a component with a prepared host state and looks
  exports up; a typed function is an argument of the operation that calls it, one per signature: it
  stands for \<open>get_typed_func\<close> followed by \<open>call\<close> and returns wasmtime's error or the value the
  guest returned, which is itself a result where the WIT says so.
\<close>

section \<open>Instances and exports\<close>

text \<open>The import interfaces a guest is linked against, by the module that provides each.\<close>

datatype host_interface = Wasi | Logging | I18n | Secrets | Broker | Http | Llm | OAuthBroker

record ('c, 's, 'i, 'x) wasm_api =
  wa_link :: "host_interface \<Rightarrow> (string, unit) result"
  wa_instantiate :: "'c \<Rightarrow> 's \<Rightarrow> (string, 'i) result"
  wa_export :: "'i \<Rightarrow> string \<Rightarrow> 'x option"
  wa_func :: "'i \<Rightarrow> 'x \<Rightarrow> string \<Rightarrow> 'x option"

type_synonym ('c, 'cl, 'rt, 'f, 'i, 'x) wasm =
  "('c, ('cl, 'rt, 'f) host_state \<times> store_limits, 'i, 'x) wasm_api"

type_synonym ('i, 'x, 'a, 'b) typed_func = "'i \<Rightarrow> 'x \<Rightarrow> 'a \<Rightarrow> (string, 'b) result"

definition LINKED_INTERFACES :: "host_interface list" where
  "LINKED_INTERFACES = [Wasi, Logging, I18n, Secrets, Broker, Http, Llm, OAuthBroker]"

definition build_store_and_instance ::
  "url_parser \<Rightarrow> ('c, 'cl, 'rt, 'f, 'i, 'x) wasm \<Rightarrow> ('k, 't, 'w, 'c) loaded_extension
   \<Rightarrow> ('cl, 'rt, 'f) host_overrides \<Rightarrow> host_call_context \<Rightarrow> duration option \<Rightarrow> (string, 'i) result" where
  "build_store_and_instance parse wa ext ho ctx dispatch_timeout =
     and_then (for_each (\<lambda>i _. wa_link wa i) LINKED_INTERFACES ()) (\<lambda>_.
       wa_instantiate wa (le_component ext) (dispatch_state parse ext ho ctx dispatch_timeout))"

definition dispatch_instance_ctx ::
  "url_parser \<Rightarrow> ('c, 'cl, 'rt, 'f, 'i, 'x) wasm
   \<Rightarrow> ('k, 't, 'w, 'c, 'v, 'ts, ('cl, 'rt, 'f) host_overrides) runtime \<Rightarrow> string \<Rightarrow> host_call_context
   \<Rightarrow> (runtime_error, 'i) result" where
  "dispatch_instance_ctx parse wa rt ext_id ctx =
     and_then (lookup rt ext_id) (\<lambda>loaded.
       map_err Wasmtime (build_store_and_instance parse wa loaded (rc_host_overrides (rn_config rt)) ctx
         (rc_dispatch_timeout (rn_config rt))))"

definition dispatch_instance ::
  "url_parser \<Rightarrow> ('c, 'cl, 'rt, 'f, 'i, 'x) wasm
   \<Rightarrow> ('k, 't, 'w, 'c, 'v, 'ts, ('cl, 'rt, 'f) host_overrides) runtime \<Rightarrow> string
   \<Rightarrow> (runtime_error, 'i) result" where
  "dispatch_instance parse wa rt ext_id = dispatch_instance_ctx parse wa rt ext_id call_context_default"

definition versions_debug :: "string list \<Rightarrow> string" where
  "versions_debug vs = ''['' @ join_with '', '' (map (\<lambda>v. [CHR 0x22] @ v @ [CHR 0x22]) vs) @ '']''"

fun first_exported ::
  "('c, 's, 'i, 'x) wasm_api \<Rightarrow> 'i \<Rightarrow> string \<Rightarrow> string list \<Rightarrow> ('x \<times> string \<times> string) option" where
  "first_exported wa inst base [] = None"
| "first_exported wa inst base (v # vs) =
     (case wa_export wa inst (base @ ''@'' @ v) of
        Some idx \<Rightarrow> Some (idx, base @ ''@'' @ v, v)
      | None \<Rightarrow> first_exported wa inst base vs)"

definition resolve_iface_versions ::
  "('c, 's, 'i, 'x) wasm_api \<Rightarrow> 'i \<Rightarrow> string \<Rightarrow> string list
   \<Rightarrow> (runtime_error, 'x \<times> string \<times> string) result" where
  "resolve_iface_versions wa inst base versions =
     ok_or (Wasmtime (''extension does not export interface '' @ [CHR 0x27] @ base @ [CHR 0x27]
        @ '' at any supported version ('' @ versions_debug versions @ '')''))
       (first_exported wa inst base versions)"

definition resolve_func ::
  "('c, 's, 'i, 'x) wasm_api \<Rightarrow> 'i \<Rightarrow> 'x \<Rightarrow> string \<Rightarrow> string \<Rightarrow> (runtime_error, 'x) result" where
  "resolve_func wa inst iface_idx iface_name func =
     ok_or (Wasmtime (''interface '' @ [CHR 0x27] @ iface_name @ [CHR 0x27] @ '' does not export ''
        @ [CHR 0x27] @ func @ [CHR 0x27]))
       (wa_func wa inst iface_idx func)"

definition DESIGN_VERSIONS :: "string list" where "DESIGN_VERSIONS = [''0.3.0'', ''0.2.0'', ''0.1.0'']"

definition DEPLOY_VERSIONS :: "string list" where "DEPLOY_VERSIONS = [''0.2.0'', ''0.1.0'']"

definition BUNDLE_VERSIONS :: "string list" where "BUNDLE_VERSIONS = [''0.2.0'', ''0.1.0'']"

definition GUARDRAIL_VERSIONS :: "string list" where "GUARDRAIL_VERSIONS = [''0.3.0'']"

definition resolve_design_iface ::
  "('c, 's, 'i, 'x) wasm_api \<Rightarrow> 'i \<Rightarrow> string \<Rightarrow> (runtime_error, 'x \<times> string) result" where
  "resolve_design_iface wa inst base =
     map_ok (\<lambda>(idx, name, _). (idx, name)) (resolve_iface_versions wa inst base DESIGN_VERSIONS)"

text \<open>The one-shot deprecation notice: the set of ids already warned about, and whether this call warns.\<close>

definition warn_if_legacy_contract ::
  "string set \<Rightarrow> string \<Rightarrow> string \<Rightarrow> string \<Rightarrow> string set \<times> bool" where
  "warn_if_legacy_contract warned ext_id version newest =
     (if version = newest then (warned, False) else (insert ext_id warned, ext_id \<notin> warned))"

section \<open>Calling a typed function\<close>

definition call_typed ::
  "('i, 'x, 'a, 'b) typed_func \<Rightarrow> 'i \<Rightarrow> 'x \<Rightarrow> 'a \<Rightarrow> (runtime_error, 'b) result" where
  "call_typed f inst idx args = map_err Wasmtime (f inst idx args)"

text \<open>A typed function whose successful results are converted to the host's types.\<close>

definition converting ::
  "('b \<Rightarrow> 'd) \<Rightarrow> ('i, 'x, 'a, ('e, 'b) result) typed_func \<Rightarrow> ('i, 'x, 'a, ('e, 'd) result) typed_func" where
  "converting g f = (\<lambda>inst idx args. map_ok (map_ok g) (f inst idx args))"

text \<open>Open an instance, resolve an interface newest-first and a function in it.\<close>

definition open_call ::
  "url_parser \<Rightarrow> ('c, 'cl, 'rt, 'f, 'i, 'x) wasm
   \<Rightarrow> ('k, 't, 'w, 'c, 'v, 'ts, ('cl, 'rt, 'f) host_overrides) runtime \<Rightarrow> string \<Rightarrow> host_call_context
   \<Rightarrow> string \<Rightarrow> string list \<Rightarrow> string \<Rightarrow> (runtime_error, 'i \<times> 'x \<times> string) result" where
  "open_call parse wa rt ext_id ctx base versions func =
     and_then (dispatch_instance_ctx parse wa rt ext_id ctx) (\<lambda>inst.
     and_then (resolve_iface_versions wa inst base versions) (\<lambda>(iface_idx, iface_name, version).
     and_then (resolve_func wa inst iface_idx iface_name func) (\<lambda>func_idx. Inr (inst, func_idx, version))))"

text \<open>The same without a context, for a call whose signature does not depend on the version.\<close>

definition plain_call ::
  "url_parser \<Rightarrow> ('c, 'cl, 'rt, 'f, 'i, 'x) wasm
   \<Rightarrow> ('k, 't, 'w, 'c, 'v, 'ts, ('cl, 'rt, 'f) host_overrides) runtime \<Rightarrow> string
   \<Rightarrow> string \<Rightarrow> string list \<Rightarrow> string \<Rightarrow> ('i, 'x, 'a, 'b) typed_func \<Rightarrow> 'a \<Rightarrow> (runtime_error, 'b) result" where
  "plain_call parse wa rt ext_id base versions func f args =
     and_then (open_call parse wa rt ext_id call_context_default base versions func)
       (\<lambda>(inst, idx, version). call_typed f inst idx args)"

text \<open>A call whose error ABI depends on the version: \<open>f_new\<close> with its map at \<open>newest\<close>, else \<open>f_old\<close>.\<close>

definition versioned_call ::
  "url_parser \<Rightarrow> ('c, 'cl, 'rt, 'f, 'i, 'x) wasm
   \<Rightarrow> ('k, 't, 'w, 'c, 'v, 'ts, ('cl, 'rt, 'f) host_overrides) runtime \<Rightarrow> string \<Rightarrow> host_call_context
   \<Rightarrow> string \<Rightarrow> string list \<Rightarrow> string \<Rightarrow> string
   \<Rightarrow> ('i, 'x, 'a, ('e2, 'b) result) typed_func \<Rightarrow> ('e2 \<Rightarrow> 'h)
   \<Rightarrow> ('i, 'x, 'a, ('e1, 'b) result) typed_func \<Rightarrow> ('e1 \<Rightarrow> 'h) \<Rightarrow> 'a
   \<Rightarrow> (runtime_error, ('h, 'b) result) result" where
  "versioned_call parse wa rt ext_id ctx base versions func newest f_new err_new f_old err_old args =
     and_then (open_call parse wa rt ext_id ctx base versions func) (\<lambda>(inst, idx, version).
       if version = newest then map_ok (map_err err_new) (call_typed f_new inst idx args)
       else map_ok (map_err err_old) (call_typed f_old inst idx args))"

section \<open>Design extensions\<close>

definition TOOLS_IFACE :: string where "TOOLS_IFACE = ''greentic:extension-design/tools''"

definition VALIDATION_IFACE :: string where "VALIDATION_IFACE = ''greentic:extension-design/validation''"

definition GUARDRAIL_IFACE :: string where "GUARDRAIL_IFACE = ''greentic:extension-design/guardrail''"

definition invoke_tool_ctx ::
  "url_parser \<Rightarrow> ('c, 'cl, 'rt, 'f, 'i, 'x) wasm
   \<Rightarrow> ('i, 'x, string \<times> string, (wit_error_v2, string) result) typed_func
   \<Rightarrow> ('i, 'x, string \<times> string, (wit_error_v1, string) result) typed_func
   \<Rightarrow> ('k, 't, 'w, 'c, 'v, 'ts, ('cl, 'rt, 'f) host_overrides) runtime
   \<Rightarrow> string \<Rightarrow> string \<Rightarrow> string \<Rightarrow> host_call_context \<Rightarrow> (runtime_error, string) result" where
  "invoke_tool_ctx parse wa f3 f1 rt ext_id tool_name args_json ctx =
     and_then (versioned_call parse wa rt ext_id ctx TOOLS_IFACE DESIGN_VERSIONS ''invoke-tool'' ''0.3.0''
        f3 from_design_v03 f1 from_design_v01 (tool_name, args_json)) (map_err Extension)"

definition invoke_tool ::
  "url_parser \<Rightarrow> ('c, 'cl, 'rt, 'f, 'i, 'x) wasm
   \<Rightarrow> ('i, 'x, string \<times> string, (wit_error_v2, string) result) typed_func
   \<Rightarrow> ('i, 'x, string \<times> string, (wit_error_v1, string) result) typed_func
   \<Rightarrow> ('k, 't, 'w, 'c, 'v, 'ts, ('cl, 'rt, 'f) host_overrides) runtime
   \<Rightarrow> string \<Rightarrow> string \<Rightarrow> string \<Rightarrow> (runtime_error, string) result" where
  "invoke_tool parse wa f3 f1 rt ext_id tool_name args_json =
     invoke_tool_ctx parse wa f3 f1 rt ext_id tool_name args_json call_context_default"

text \<open>
  The same call with its effect on the process-wide set of warned ids, which does not bear on the
  result: the notice is given once the interface is resolved, before the function is.
\<close>

definition invoke_tool_ctx_warned ::
  "url_parser \<Rightarrow> ('c, 'cl, 'rt, 'f, 'i, 'x) wasm
   \<Rightarrow> ('i, 'x, string \<times> string, (wit_error_v2, string) result) typed_func
   \<Rightarrow> ('i, 'x, string \<times> string, (wit_error_v1, string) result) typed_func
   \<Rightarrow> ('k, 't, 'w, 'c, 'v, 'ts, ('cl, 'rt, 'f) host_overrides) runtime
   \<Rightarrow> string \<Rightarrow> string \<Rightarrow> string \<Rightarrow> host_call_context \<Rightarrow> string set
   \<Rightarrow> (runtime_error, string) result \<times> string set \<times> bool" where
  "invoke_tool_ctx_warned parse wa f3 f1 rt ext_id tool_name args_json ctx warned =
     (invoke_tool_ctx parse wa f3 f1 rt ext_id tool_name args_json ctx,
      (case and_then (dispatch_instance_ctx parse wa rt ext_id ctx)
              (\<lambda>inst. resolve_iface_versions wa inst TOOLS_IFACE DESIGN_VERSIONS) of
         Inl e \<Rightarrow> (warned, False)
       | Inr (iface_idx, iface_name, version) \<Rightarrow>
           warn_if_legacy_contract warned ext_id version (hd DESIGN_VERSIONS)))"

record wit_tool_definition =
  wt_name :: string
  wt_description :: string
  wt_input_schema_json :: string
  wt_output_schema_json :: "string option"
  wt_capabilities :: "string list option"
  wt_agentic_worker_metadata :: "string option"

definition wit_tool_to_host :: "wit_tool_definition \<Rightarrow> 's tool_definition" where
  "wit_tool_to_host d =
     \<lparr>td_name = wt_name d, td_description = wt_description d,
      td_input_schema_json = wt_input_schema_json d, td_output_schema_json = wt_output_schema_json d,
      td_capabilities = wt_capabilities d, td_agentic_worker_metadata = wt_agentic_worker_metadata d,
      td_secret_requirements = []\<rparr>"

definition list_tools ::
  "url_parser \<Rightarrow> ('c, 'cl, 'rt, 'f, 'i, 'x) wasm
   \<Rightarrow> ('i, 'x, unit, wit_tool_definition list) typed_func
   \<Rightarrow> ('k, 's tool, 'w, 'c, 'v, 'ts, ('cl, 'rt, 'f) host_overrides) runtime
   \<Rightarrow> string \<Rightarrow> (runtime_error, 's tool_definition list) result" where
  "list_tools parse wa f rt ext_id =
     and_then (lookup rt ext_id) (\<lambda>loaded.
       if d_api_version (le_describe loaded) = V2_API_VERSION
       then Inr (map contribution_tool_to_definition (d_tools (le_describe loaded)))
       else map_ok (map wit_tool_to_host)
              (plain_call parse wa rt ext_id TOOLS_IFACE DESIGN_VERSIONS ''list-tools'' f ()))"

datatype wit_severity = WitError | WitWarning | WitInfo | WitHint

fun severity_from_wit :: "wit_severity \<Rightarrow> severity" where
  "severity_from_wit WitError = SevError"
| "severity_from_wit WitWarning = SevWarning"
| "severity_from_wit WitInfo = SevInfo"
| "severity_from_wit WitHint = SevHint"

record wit_diagnostic =
  wd_severity :: wit_severity
  wd_code :: string
  wd_message :: string
  wd_path :: "string option"

definition wit_diagnostic_to_host :: "wit_diagnostic \<Rightarrow> diagnostic" where
  "wit_diagnostic_to_host d =
     \<lparr>dg_severity = severity_from_wit (wd_severity d), dg_code = wd_code d, dg_message = wd_message d,
      dg_path = wd_path d\<rparr>"

definition validate_content ::
  "url_parser \<Rightarrow> ('c, 'cl, 'rt, 'f, 'i, 'x) wasm
   \<Rightarrow> ('i, 'x, string \<times> string, bool \<times> wit_diagnostic list) typed_func
   \<Rightarrow> ('k, 't, 'w, 'c, 'v, 'ts, ('cl, 'rt, 'f) host_overrides) runtime
   \<Rightarrow> string \<Rightarrow> string \<Rightarrow> string \<Rightarrow> (runtime_error, validate_result) result" where
  "validate_content parse wa f rt ext_id content_type content_json =
     map_ok (\<lambda>(valid, diags). \<lparr>vr_valid = valid, vr_diagnostics = map wit_diagnostic_to_host diags\<rparr>)
       (plain_call parse wa rt ext_id VALIDATION_IFACE DESIGN_VERSIONS ''validate-content'' f
          (content_type, content_json))"

section \<open>Guardrails\<close>

datatype direction = Inbound | Outbound

record guardrail_dto =
  gi_direction :: string
  gi_content :: string
  gi_agent_id :: string
  gi_session_id :: string
  gi_tenant_id :: string
  gi_env_id :: string
  gi_context :: "string option"

record guardrail_input =
  gw_direction :: direction
  gw_content :: string
  gw_agent_id :: string
  gw_session_id :: string
  gw_tenant_id :: string
  gw_env_id :: string
  gw_context :: "string option"

datatype wit_verdict = WitAccept | WitUpdate string | WitDeny string string "string option"

datatype guardrail_verdict_wire =
    WireAccept
  | WireUpdate string
  | WireDeny string string "string option"

definition parse_direction :: "(string \<Rightarrow> string) \<Rightarrow> string \<Rightarrow> (runtime_error, direction) result" where
  "parse_direction dbg raw =
     (if raw = ''inbound'' then Inr Inbound
      else if raw = ''outbound'' then Inr Outbound
      else Inl (Wasmtime (''guardrail direction must be '' @ [CHR 0x22] @ ''inbound'' @ [CHR 0x22] @ '' or ''
             @ [CHR 0x22] @ ''outbound'' @ [CHR 0x22] @ '', got '' @ dbg raw)))"

fun map_verdict :: "wit_verdict \<Rightarrow> guardrail_verdict_wire" where
  "map_verdict WitAccept = WireAccept"
| "map_verdict (WitUpdate content) = WireUpdate content"
| "map_verdict (WitDeny c m details) = WireDeny c m details"

definition call_evaluate ::
  "(string \<Rightarrow> string) \<Rightarrow> (string \<Rightarrow> (string, guardrail_dto) result)
   \<Rightarrow> ('i, 'x, guardrail_input, wit_verdict) typed_func \<Rightarrow> 'i \<Rightarrow> 'x \<Rightarrow> string
   \<Rightarrow> (runtime_error, guardrail_verdict_wire) result" where
  "call_evaluate dbg dto_from_str f inst func_idx input_json =
     and_then (map_err Wasmtime (dto_from_str input_json)) (\<lambda>dto.
     and_then (parse_direction dbg (gi_direction dto)) (\<lambda>dir.
       map_ok map_verdict
         (call_typed f inst func_idx
            \<lparr>gw_direction = dir, gw_content = gi_content dto, gw_agent_id = gi_agent_id dto,
             gw_session_id = gi_session_id dto, gw_tenant_id = gi_tenant_id dto, gw_env_id = gi_env_id dto,
             gw_context = gi_context dto\<rparr>)))"

definition evaluate_guardrail ::
  "(string \<Rightarrow> string) \<Rightarrow> (string \<Rightarrow> (string, guardrail_dto) result)
   \<Rightarrow> (guardrail_verdict_wire \<Rightarrow> (string, string) result)
   \<Rightarrow> url_parser \<Rightarrow> ('c, 'cl, 'rt, 'f, 'i, 'x) wasm \<Rightarrow> ('i, 'x, guardrail_input, wit_verdict) typed_func
   \<Rightarrow> ('k, 't, 'w, 'c, 'v, 'ts, ('cl, 'rt, 'f) host_overrides) runtime
   \<Rightarrow> string \<Rightarrow> string \<Rightarrow> (runtime_error, string) result" where
  "evaluate_guardrail dbg dto_from_str wire_to_string parse wa f rt ext_id input_json =
     and_then (open_call parse wa rt ext_id call_context_default GUARDRAIL_IFACE GUARDRAIL_VERSIONS ''evaluate'')
       (\<lambda>(inst, func_idx, version).
         and_then (call_evaluate dbg dto_from_str f inst func_idx input_json)
           (\<lambda>wire. map_err Wasmtime (wire_to_string wire)))"

section \<open>Prompting, knowledge and views\<close>

definition PROMPTING_IFACE :: string where "PROMPTING_IFACE = ''greentic:extension-design/prompting''"

definition KNOWLEDGE_IFACE :: string where "KNOWLEDGE_IFACE = ''greentic:extension-design/knowledge''"

record wit_prompt_fragment =
  wp_section :: string
  wp_content_markdown :: string
  wp_priority :: "32 word"

definition wit_fragment_to_host :: "wit_prompt_fragment \<Rightarrow> prompt_fragment" where
  "wit_fragment_to_host f =
     \<lparr>pf_section = wp_section f, pf_content_markdown = wp_content_markdown f, pf_priority = wp_priority f\<rparr>"

definition prompt_fragments ::
  "url_parser \<Rightarrow> ('c, 'cl, 'rt, 'f, 'i, 'x) wasm \<Rightarrow> ('i, 'x, unit, wit_prompt_fragment list) typed_func
   \<Rightarrow> ('k, 't, 'w, 'c, 'v, 'ts, ('cl, 'rt, 'f) host_overrides) runtime
   \<Rightarrow> string \<Rightarrow> (runtime_error, prompt_fragment list) result" where
  "prompt_fragments parse wa f rt ext_id =
     map_ok (map wit_fragment_to_host)
       (plain_call parse wa rt ext_id PROMPTING_IFACE DESIGN_VERSIONS ''system-prompt-fragments'' f ())"

record wit_entry_summary =
  we_id :: string
  we_title :: string
  we_category :: string
  we_tags :: "string list"

definition wit_summary_to_host :: "wit_entry_summary \<Rightarrow> knowledge_entry_summary" where
  "wit_summary_to_host s =
     \<lparr>ks_id = we_id s, ks_title = we_title s, ks_category = we_category s, ks_tags = we_tags s\<rparr>"

definition knowledge_list ::
  "url_parser \<Rightarrow> ('c, 'cl, 'rt, 'f, 'i, 'x) wasm
   \<Rightarrow> ('i, 'x, string option, wit_entry_summary list) typed_func
   \<Rightarrow> ('k, 't, 'w, 'c, 'v, 'ts, ('cl, 'rt, 'f) host_overrides) runtime
   \<Rightarrow> string \<Rightarrow> string option \<Rightarrow> (runtime_error, knowledge_entry_summary list) result" where
  "knowledge_list parse wa f rt ext_id category_filter =
     map_ok (map wit_summary_to_host)
       (plain_call parse wa rt ext_id KNOWLEDGE_IFACE DESIGN_VERSIONS ''list-entries'' f category_filter)"

record wit_entry =
  wn_id :: string
  wn_title :: string
  wn_category :: string
  wn_tags :: "string list"
  wn_content_json :: string

definition wit_entry_to_host :: "wit_entry \<Rightarrow> knowledge_entry" where
  "wit_entry_to_host e =
     \<lparr>ke_id = wn_id e, ke_title = wn_title e, ke_category = wn_category e, ke_tags = wn_tags e,
      ke_content_json = wn_content_json e\<rparr>"

definition knowledge_get ::
  "url_parser \<Rightarrow> ('c, 'cl, 'rt, 'f, 'i, 'x) wasm
   \<Rightarrow> ('i, 'x, string, (wit_error_v2, wit_entry) result) typed_func
   \<Rightarrow> ('i, 'x, string, (wit_error_v1, wit_entry) result) typed_func
   \<Rightarrow> ('k, 't, 'w, 'c, 'v, 'ts, ('cl, 'rt, 'f) host_overrides) runtime
   \<Rightarrow> string \<Rightarrow> string \<Rightarrow> (runtime_error, knowledge_entry) result" where
  "knowledge_get parse wa f3 f1 rt ext_id entry_id =
     and_then (versioned_call parse wa rt ext_id call_context_default KNOWLEDGE_IFACE DESIGN_VERSIONS
        ''get-entry'' ''0.3.0'' (converting wit_entry_to_host f3) from_design_v03
        (converting wit_entry_to_host f1) from_design_v01 entry_id) (map_err Extension)"

definition knowledge_suggest ::
  "url_parser \<Rightarrow> ('c, 'cl, 'rt, 'f, 'i, 'x) wasm
   \<Rightarrow> ('i, 'x, string \<times> 32 word, wit_entry_summary list) typed_func
   \<Rightarrow> ('k, 't, 'w, 'c, 'v, 'ts, ('cl, 'rt, 'f) host_overrides) runtime
   \<Rightarrow> string \<Rightarrow> string \<Rightarrow> 32 word \<Rightarrow> (runtime_error, knowledge_entry_summary list) result" where
  "knowledge_suggest parse wa f rt ext_id query limit =
     map_ok (map wit_summary_to_host)
       (plain_call parse wa rt ext_id KNOWLEDGE_IFACE DESIGN_VERSIONS ''suggest-entries'' f (query, limit))"

definition list_views ::
  "(string \<Rightarrow> string) \<Rightarrow> ('k, 't, ('su, 'pl, 'vi) view, 'c, 'v, 'ts, 'ho) runtime \<Rightarrow> string
   \<Rightarrow> (runtime_error, ('su, 'pl, 'vi, path) view_definition list) result" where
  "list_views dbg rt ext_id =
     and_then (lookup rt ext_id) (\<lambda>loaded.
       collect (\<lambda>v. view_to_definition dbg v (le_source_dir loaded)) (d_views (le_describe loaded)))"

end
