(* ===== verification/Worlds.thy ===== *)
theory Worlds
  imports Dispatch
begin

text \<open>
  The calls into the other extension worlds: \<open>runtime_deploy.rs\<close>, \<open>runtime_targets.rs\<close>,
  \<open>runtime_bundle.rs\<close>, \<open>runtime_roles.rs\<close> and \<open>runtime_dw_composer.rs\<close>. The bindings generate one Rust
  type per world and version; where these have the same shape one Isabelle type stands for them,
  and one conversion for the literal the code repeats per version.
\<close>

section \<open>Deployment\<close>

definition DEPLOYMENT_IFACE :: string where "DEPLOYMENT_IFACE = ''greentic:extension-deploy/deployment''"

datatype wit_deploy_status =
  WitPending | WitProvisioning | WitConfiguring | WitStarting | WitRunning | WitFailed | WitRolledBack

record wit_deploy_job =
  wj_id :: string
  wj_status :: wit_deploy_status
  wj_message :: string
  wj_endpoints :: "string list"

fun deploy_status_to_host :: "wit_deploy_status \<Rightarrow> deploy_status" where
  "deploy_status_to_host WitPending = Pending"
| "deploy_status_to_host WitProvisioning = Provisioning"
| "deploy_status_to_host WitConfiguring = Configuring"
| "deploy_status_to_host WitStarting = Starting"
| "deploy_status_to_host WitRunning = Running"
| "deploy_status_to_host WitFailed = Failed"
| "deploy_status_to_host WitRolledBack = RolledBack"

definition job_to_host :: "wit_deploy_job \<Rightarrow> deploy_job" where
  "job_to_host j =
     \<lparr>dj_id = wj_id j, dj_status = deploy_status_to_host (wj_status j), dj_message = wj_message j,
      dj_endpoints = wj_endpoints j\<rparr>"

definition job_to_host_v2 :: "wit_deploy_job \<Rightarrow> deploy_job" where
  "job_to_host_v2 j =
     \<lparr>dj_id = wj_id j, dj_status = deploy_status_to_host (wj_status j), dj_message = wj_message j,
      dj_endpoints = wj_endpoints j\<rparr>"

record wit_deploy_request =
  wq_target_id :: string
  wq_artifact_bytes :: string
  wq_credentials_json :: string
  wq_config_json :: string
  wq_deployment_name :: string

definition deploy_request_to_wit :: "deploy_request \<Rightarrow> wit_deploy_request" where
  "deploy_request_to_wit req =
     \<lparr>wq_target_id = dr_target_id req, wq_artifact_bytes = dr_artifact_bytes req,
      wq_credentials_json = dr_credentials_json req, wq_config_json = dr_config_json req,
      wq_deployment_name = dr_deployment_name req\<rparr>"

text \<open>A resolved call site: the instance, the function's index and the interface version that matched.\<close>

record ('i, 'x) deployment_site =
  ds_instance :: 'i
  ds_func_idx :: 'x
  ds_version :: string

definition deployment_call ::
  "url_parser \<Rightarrow> ('c, 'cl, 'rt, 'f, 'i, 'x) wasm
   \<Rightarrow> ('k, 't, 'w, 'c, 'v, 'ts, ('cl, 'rt, 'f) host_overrides) runtime \<Rightarrow> string \<Rightarrow> string
   \<Rightarrow> (runtime_error, ('i, 'x) deployment_site) result" where
  "deployment_call parse wa rt ext_id func =
     and_then (dispatch_instance parse wa rt ext_id) (\<lambda>inst.
     and_then (resolve_iface_versions wa inst DEPLOYMENT_IFACE DEPLOY_VERSIONS) (\<lambda>(iface_idx, iface_name, version).
     and_then (resolve_func wa inst iface_idx iface_name func) (\<lambda>func_idx.
       Inr \<lparr>ds_instance = inst, ds_func_idx = func_idx, ds_version = version\<rparr>)))"

definition deploy ::
  "url_parser \<Rightarrow> ('c, 'cl, 'rt, 'f, 'i, 'x) wasm
   \<Rightarrow> ('i, 'x, wit_deploy_request, (wit_error_v2, wit_deploy_job) result) typed_func
   \<Rightarrow> ('i, 'x, wit_deploy_request, (wit_error_v1, wit_deploy_job) result) typed_func
   \<Rightarrow> ('k, 't, 'w, 'c, 'v, 'ts, ('cl, 'rt, 'f) host_overrides) runtime
   \<Rightarrow> string \<Rightarrow> deploy_request \<Rightarrow> (runtime_error, deploy_job) result" where
  "deploy parse wa f2 f1 rt ext_id req =
     and_then (deployment_call parse wa rt ext_id ''deploy'') (\<lambda>site.
       if ds_version site = ''0.2.0''
       then and_then (call_typed f2 (ds_instance site) (ds_func_idx site) (deploy_request_to_wit req))
              (\<lambda>r. map_err (\<lambda>e. Deploy (deploy_err_to_host_v2 e)) (map_ok job_to_host_v2 r))
       else and_then (call_typed f1 (ds_instance site) (ds_func_idx site) (deploy_request_to_wit req))
              (\<lambda>r. map_err (\<lambda>e. Deploy (deploy_err_to_host e)) (map_ok job_to_host r)))"

definition deploy_poll ::
  "url_parser \<Rightarrow> ('c, 'cl, 'rt, 'f, 'i, 'x) wasm
   \<Rightarrow> ('i, 'x, string, (wit_error_v2, wit_deploy_job) result) typed_func
   \<Rightarrow> ('i, 'x, string, (wit_error_v1, wit_deploy_job) result) typed_func
   \<Rightarrow> ('k, 't, 'w, 'c, 'v, 'ts, ('cl, 'rt, 'f) host_overrides) runtime
   \<Rightarrow> string \<Rightarrow> string \<Rightarrow> (runtime_error, deploy_job) result" where
  "deploy_poll parse wa f2 f1 rt ext_id job_id =
     and_then (deployment_call parse wa rt ext_id ''poll'') (\<lambda>site.
       if ds_version site = ''0.2.0''
       then and_then (call_typed f2 (ds_instance site) (ds_func_idx site) job_id)
              (\<lambda>r. map_err (\<lambda>e. Deploy (deploy_err_to_host_v2 e)) (map_ok job_to_host_v2 r))
       else and_then (call_typed f1 (ds_instance site) (ds_func_idx site) job_id)
              (\<lambda>r. map_err (\<lambda>e. Deploy (deploy_err_to_host e)) (map_ok job_to_host r)))"

definition deploy_rollback ::
  "url_parser \<Rightarrow> ('c, 'cl, 'rt, 'f, 'i, 'x) wasm
   \<Rightarrow> ('i, 'x, string, (wit_error_v2, unit) result) typed_func
   \<Rightarrow> ('i, 'x, string, (wit_error_v1, unit) result) typed_func
   \<Rightarrow> ('k, 't, 'w, 'c, 'v, 'ts, ('cl, 'rt, 'f) host_overrides) runtime
   \<Rightarrow> string \<Rightarrow> string \<Rightarrow> (runtime_error, unit) result" where
  "deploy_rollback parse wa f2 f1 rt ext_id job_id =
     and_then (deployment_call parse wa rt ext_id ''rollback'') (\<lambda>site.
       if ds_version site = ''0.2.0''
       then and_then (call_typed f2 (ds_instance site) (ds_func_idx site) job_id)
              (map_err (\<lambda>e. Deploy (deploy_err_to_host_v2 e)))
       else and_then (call_typed f1 (ds_instance site) (ds_func_idx site) job_id)
              (map_err (\<lambda>e. Deploy (deploy_err_to_host e))))"

text \<open>Each is an instance of the call whose ABI depends on the version.\<close>

lemma deployment_site_call:
  "and_then (deployment_call parse wa rt ext_id func) (\<lambda>site.
       if ds_version site = ''0.2.0''
       then and_then (call_typed f2 (ds_instance site) (ds_func_idx site) args)
              (\<lambda>r. map_err (\<lambda>e. Deploy (e2 e)) (map_ok g2 r))
       else and_then (call_typed f1 (ds_instance site) (ds_func_idx site) args)
              (\<lambda>r. map_err (\<lambda>e. Deploy (e1 e)) (map_ok g1 r)))
   = and_then (versioned_call parse wa rt ext_id call_context_default DEPLOYMENT_IFACE DEPLOY_VERSIONS func
        ''0.2.0'' (converting g2 f2) e2 (converting g1 f1) e1 args) (map_err Deploy)"
proof -
  have site: "deployment_call parse wa rt ext_id func =
      map_ok (\<lambda>(inst, func_idx, version). \<lparr>ds_instance = inst, ds_func_idx = func_idx, ds_version = version\<rparr>)
        (open_call parse wa rt ext_id call_context_default DEPLOYMENT_IFACE DEPLOY_VERSIONS func)"
    by (auto simp: deployment_call_def open_call_def dispatch_instance_def map_ok_and_then split: prod.split
        intro!: and_then_cong)
  show ?thesis
  proof (cases "open_call parse wa rt ext_id call_context_default DEPLOYMENT_IFACE DEPLOY_VERSIONS func")
    case (Inr c)
    obtain inst func_idx version where c: "c = (inst, func_idx, version)" by (cases c)
    show ?thesis
    proof (cases "version = ''0.2.0''")
      case True
      with Inr c show ?thesis
        by (cases "f2 inst func_idx args")
          (simp_all add: site versioned_call_def call_typed_def converting_def map_ok_map_err map_err_map_err)
    next
      case False
      with Inr c show ?thesis
        by (cases "f1 inst func_idx args")
          (simp_all add: site versioned_call_def call_typed_def converting_def map_ok_map_err map_err_map_err)
    qed
  qed (simp add: site versioned_call_def)
qed

lemma deploy_versioned:
  "deploy parse wa f2 f1 rt ext_id req =
     and_then (versioned_call parse wa rt ext_id call_context_default DEPLOYMENT_IFACE DEPLOY_VERSIONS ''deploy''
        ''0.2.0'' (converting job_to_host_v2 f2) deploy_err_to_host_v2 (converting job_to_host f1) deploy_err_to_host
        (deploy_request_to_wit req)) (map_err Deploy)"
  unfolding deploy_def by (rule deployment_site_call)

lemma deploy_poll_versioned:
  "deploy_poll parse wa f2 f1 rt ext_id job_id =
     and_then (versioned_call parse wa rt ext_id call_context_default DEPLOYMENT_IFACE DEPLOY_VERSIONS ''poll''
        ''0.2.0'' (converting job_to_host_v2 f2) deploy_err_to_host_v2 (converting job_to_host f1) deploy_err_to_host
        job_id) (map_err Deploy)"
  unfolding deploy_poll_def by (rule deployment_site_call)

lemma deploy_rollback_versioned:
  "deploy_rollback parse wa f2 f1 rt ext_id job_id =
     and_then (versioned_call parse wa rt ext_id call_context_default DEPLOYMENT_IFACE DEPLOY_VERSIONS ''rollback''
        ''0.2.0'' f2 deploy_err_to_host_v2 f1 deploy_err_to_host job_id) (map_err Deploy)"
  using deployment_site_call [of parse wa rt ext_id "''rollback''" f2 job_id deploy_err_to_host_v2 "\<lambda>u. u" f1
      deploy_err_to_host "\<lambda>u. u"]
  unfolding deploy_rollback_def converting_def map_ok_ident .

lemmas deploy_calls = deploy_versioned deploy_poll_versioned deploy_rollback_versioned

section \<open>Targets\<close>

definition TARGETS_IFACE :: string where "TARGETS_IFACE = ''greentic:extension-deploy/targets''"

fun deploy_severity_from_wit :: "wit_severity \<Rightarrow> severity" where
  "deploy_severity_from_wit WitError = SevError"
| "deploy_severity_from_wit WitWarning = SevWarning"
| "deploy_severity_from_wit WitInfo = SevInfo"
| "deploy_severity_from_wit WitHint = SevHint"

definition validate_credentials ::
  "url_parser \<Rightarrow> ('c, 'cl, 'rt, 'f, 'i, 'x) wasm
   \<Rightarrow> ('i, 'x, string \<times> string, wit_diagnostic list) typed_func
   \<Rightarrow> ('k, 't, 'w, 'c, 'v, 'ts, ('cl, 'rt, 'f) host_overrides) runtime
   \<Rightarrow> string \<Rightarrow> string \<Rightarrow> string \<Rightarrow> (runtime_error, diagnostic list) result" where
  "validate_credentials parse wa f rt ext_id target_id credentials_json =
     map_ok (map (\<lambda>d. \<lparr>dg_severity = deploy_severity_from_wit (wd_severity d), dg_code = wd_code d,
                       dg_message = wd_message d, dg_path = wd_path d\<rparr>))
       (plain_call parse wa rt ext_id TARGETS_IFACE DEPLOY_VERSIONS ''validate-credentials'' f
          (target_id, credentials_json))"

definition credential_schema ::
  "url_parser \<Rightarrow> ('c, 'cl, 'rt, 'f, 'i, 'x) wasm
   \<Rightarrow> ('i, 'x, string, (wit_error_v2, string) result) typed_func
   \<Rightarrow> ('i, 'x, string, (wit_error_v1, string) result) typed_func
   \<Rightarrow> ('k, 't, 'w, 'c, 'v, 'ts, ('cl, 'rt, 'f) host_overrides) runtime
   \<Rightarrow> string \<Rightarrow> string \<Rightarrow> (runtime_error, string) result" where
  "credential_schema parse wa f2 f1 rt ext_id target_id =
     and_then (versioned_call parse wa rt ext_id call_context_default TARGETS_IFACE DEPLOY_VERSIONS
        ''credential-schema'' ''0.2.0'' f2 from_deploy_v02 f1 from_deploy_v01 target_id) (map_err Extension)"

record wit_target_summary =
  wu_id :: string
  wu_display_name :: string
  wu_description :: string
  wu_icon_path :: "string option"
  wu_supports_rollback :: bool

definition wit_target_to_host :: "wit_target_summary \<Rightarrow> target_summary" where
  "wit_target_to_host t =
     \<lparr>ts_id = wu_id t, ts_display_name = wu_display_name t, ts_description = wu_description t,
      ts_icon_path = wu_icon_path t, ts_supports_rollback = wu_supports_rollback t\<rparr>"

definition list_targets ::
  "url_parser \<Rightarrow> ('c, 'cl, 'rt, 'f, 'i, 'x) wasm \<Rightarrow> ('i, 'x, unit, wit_target_summary list) typed_func
   \<Rightarrow> ('k, 't, 'w, 'c, 'v, 'ts, ('cl, 'rt, 'f) host_overrides) runtime
   \<Rightarrow> string \<Rightarrow> (runtime_error, target_summary list) result" where
  "list_targets parse wa f rt ext_id =
     map_ok (map wit_target_to_host)
       (plain_call parse wa rt ext_id TARGETS_IFACE DEPLOY_VERSIONS ''list-targets'' f ())"

section \<open>Bundles\<close>

definition BUNDLING_IFACE :: string where "BUNDLING_IFACE = ''greentic:extension-bundle/bundling''"

record wit_designer_session =
  wb_flows_json :: string
  wb_contents_json :: string
  wb_assets :: "(string \<times> string) list"
  wb_capabilities_used :: "string list"

definition session_to_wit :: "bundle_session \<Rightarrow> wit_designer_session" where
  "session_to_wit session =
     \<lparr>wb_flows_json = bs_flows_json session, wb_contents_json = bs_contents_json session,
      wb_assets = bs_assets session, wb_capabilities_used = bs_capabilities_used session\<rparr>"

record wit_bundle_artifact =
  wa_filename :: string
  wa_bytes :: string
  wa_sha256 :: string

definition wit_artifact_to_host :: "wit_bundle_artifact \<Rightarrow> bundle_artifact" where
  "wit_artifact_to_host a =
     \<lparr>ba_filename = wa_filename a, ba_bytes = wa_bytes a, ba_sha256 = wa_sha256 a\<rparr>"

definition render_bundle ::
  "url_parser \<Rightarrow> ('c, 'cl, 'rt, 'f, 'i, 'x) wasm
   \<Rightarrow> ('i, 'x, string \<times> string \<times> wit_designer_session, (wit_error_v2, wit_bundle_artifact) result) typed_func
   \<Rightarrow> ('i, 'x, string \<times> string \<times> wit_designer_session, (wit_error_v1, wit_bundle_artifact) result) typed_func
   \<Rightarrow> ('k, 't, 'w, 'c, 'v, 'ts, ('cl, 'rt, 'f) host_overrides) runtime
   \<Rightarrow> string \<Rightarrow> string \<Rightarrow> string \<Rightarrow> bundle_session \<Rightarrow> (runtime_error, bundle_artifact) result" where
  "render_bundle parse wa f2 f1 rt ext_id recipe_id config_json session =
     and_then (versioned_call parse wa rt ext_id call_context_default BUNDLING_IFACE BUNDLE_VERSIONS
        ''render'' ''0.2.0'' (converting wit_artifact_to_host f2) from_bundle_v02
        (converting wit_artifact_to_host f1) from_bundle_v01 (recipe_id, config_json, session_to_wit session))
       (map_err Extension)"

section \<open>Roles\<close>

definition ROLES_IFACE :: string where "ROLES_IFACE = ''greentic:extension-design/roles''"

definition ROLES_VERSIONS :: "string list" where "ROLES_VERSIONS = [''0.3.0'', ''0.2.0'']"

datatype wit_target_kind = WitAdaptiveCard | WitSlackBlockKit | WitTeamsCard | WitPlainText

fun target_to_wit :: "target_kind \<Rightarrow> wit_target_kind" where
  "target_to_wit AdaptiveCard = WitAdaptiveCard"
| "target_to_wit SlackBlockKit = WitSlackBlockKit"
| "target_to_wit TeamsCard = WitTeamsCard"
| "target_to_wit PlainText = WitPlainText"

fun target_to_wit_v03 :: "target_kind \<Rightarrow> wit_target_kind" where
  "target_to_wit_v03 AdaptiveCard = WitAdaptiveCard"
| "target_to_wit_v03 SlackBlockKit = WitSlackBlockKit"
| "target_to_wit_v03 TeamsCard = WitTeamsCard"
| "target_to_wit_v03 PlainText = WitPlainText"

fun target_from_wit :: "wit_target_kind \<Rightarrow> target_kind" where
  "target_from_wit WitAdaptiveCard = AdaptiveCard"
| "target_from_wit WitSlackBlockKit = SlackBlockKit"
| "target_from_wit WitTeamsCard = TeamsCard"
| "target_from_wit WitPlainText = PlainText"

fun target_from_wit_v03 :: "wit_target_kind \<Rightarrow> target_kind" where
  "target_from_wit_v03 WitAdaptiveCard = AdaptiveCard"
| "target_from_wit_v03 WitSlackBlockKit = SlackBlockKit"
| "target_from_wit_v03 WitTeamsCard = TeamsCard"
| "target_from_wit_v03 WitPlainText = PlainText"

record wit_role_spec =
  wr_name :: string
  wr_description :: string
  wr_json_schema :: string
  wr_target :: wit_target_kind
  wr_schema_version :: "32 word"
  wr_context_aware :: bool

definition wit_role_spec_to_host :: "wit_role_spec \<Rightarrow> role_spec" where
  "wit_role_spec_to_host s =
     \<lparr>rs_name = wr_name s, rs_description = wr_description s, rs_json_schema = wr_json_schema s,
      rs_target = target_from_wit (wr_target s), rs_schema_version = wr_schema_version s,
      rs_context_aware = wr_context_aware s\<rparr>"

datatype 'e wit_role_error =
    WitUnknownRole string
  | WitInvalidInput "wit_diagnostic list"
  | WitCompileFailed string
  | WitTargetNotSupported wit_target_kind
  | WitVersionNotSupported "32 word"
  | WitHost 'e

fun wit_extension_error_to_host :: "wit_error_v1 \<Rightarrow> host_extension_error" where
  "wit_extension_error_to_host (E1_InvalidInput s) = H_InvalidInput s"
| "wit_extension_error_to_host (E1_MissingCapability s) = H_MissingCapability s"
| "wit_extension_error_to_host (E1_PermissionDenied s) = H_PermissionDenied s"
| "wit_extension_error_to_host (E1_Internal s) = H_Internal s"

fun wit_extension_error_to_host_v03 :: "wit_error_v2 \<Rightarrow> host_extension_error" where
  "wit_extension_error_to_host_v03 (E2_InvalidInput s) = H_InvalidInput s"
| "wit_extension_error_to_host_v03 (E2_MissingCapability s) = H_MissingCapability s"
| "wit_extension_error_to_host_v03 (E2_PermissionDenied s) = H_PermissionDenied s"
| "wit_extension_error_to_host_v03 (E2_NotFound s) = H_NotFound s"
| "wit_extension_error_to_host_v03 (E2_SchemaInvalid s) = H_SchemaInvalid s"
| "wit_extension_error_to_host_v03 (E2_Internal s) = H_Internal s"

fun wit_role_error_to_host :: "wit_error_v1 wit_role_error \<Rightarrow> role_error" where
  "wit_role_error_to_host (WitUnknownRole s) = UnknownRole s"
| "wit_role_error_to_host (WitInvalidInput diags) = R_InvalidInput (map wit_diagnostic_to_host diags)"
| "wit_role_error_to_host (WitCompileFailed s) = CompileFailed s"
| "wit_role_error_to_host (WitTargetNotSupported t) = TargetNotSupported (target_from_wit t)"
| "wit_role_error_to_host (WitVersionNotSupported v) = VersionNotSupported v"
| "wit_role_error_to_host (WitHost ee) = R_Host (wit_extension_error_to_host ee)"

definition wit_diagnostic_to_host_v03 :: "wit_diagnostic \<Rightarrow> diagnostic" where
  "wit_diagnostic_to_host_v03 d =
     \<lparr>dg_severity = (case wd_severity d of WitError \<Rightarrow> SevError | WitWarning \<Rightarrow> SevWarning | WitInfo \<Rightarrow> SevInfo
                      | WitHint \<Rightarrow> SevHint),
      dg_code = wd_code d, dg_message = wd_message d, dg_path = wd_path d\<rparr>"

fun wit_role_error_to_host_v03 :: "wit_error_v2 wit_role_error \<Rightarrow> role_error" where
  "wit_role_error_to_host_v03 (WitUnknownRole s) = UnknownRole s"
| "wit_role_error_to_host_v03 (WitInvalidInput diags) = R_InvalidInput (map wit_diagnostic_to_host_v03 diags)"
| "wit_role_error_to_host_v03 (WitCompileFailed s) = CompileFailed s"
| "wit_role_error_to_host_v03 (WitTargetNotSupported t) = TargetNotSupported (target_from_wit_v03 t)"
| "wit_role_error_to_host_v03 (WitVersionNotSupported v) = VersionNotSupported v"
| "wit_role_error_to_host_v03 (WitHost ee) = R_Host (wit_extension_error_to_host_v03 ee)"

definition list_roles ::
  "url_parser \<Rightarrow> ('c, 'cl, 'rt, 'f, 'i, 'x) wasm \<Rightarrow> ('i, 'x, unit, wit_role_spec list) typed_func
   \<Rightarrow> ('k, 't, 'w, 'c, 'v, 'ts, ('cl, 'rt, 'f) host_overrides) runtime
   \<Rightarrow> string \<Rightarrow> (runtime_error, role_spec list) result" where
  "list_roles parse wa f rt ext_id =
     and_then (dispatch_instance parse wa rt ext_id) (\<lambda>inst.
       case first_exported wa inst ROLES_IFACE ROLES_VERSIONS of
         None \<Rightarrow> Inr []
       | Some (iface_idx, _, _) \<Rightarrow>
           and_then (resolve_func wa inst iface_idx ROLES_IFACE ''list-roles'') (\<lambda>func_idx.
             map_ok (map wit_role_spec_to_host) (call_typed f inst func_idx ())))"

definition validate_role ::
  "url_parser \<Rightarrow> ('c, 'cl, 'rt, 'f, 'i, 'x) wasm
   \<Rightarrow> ('i, 'x, string \<times> string, wit_diagnostic list) typed_func
   \<Rightarrow> ('k, 't, 'w, 'c, 'v, 'ts, ('cl, 'rt, 'f) host_overrides) runtime
   \<Rightarrow> string \<Rightarrow> string \<Rightarrow> string \<Rightarrow> (runtime_error, diagnostic list) result" where
  "validate_role parse wa f rt ext_id name entry_json =
     map_ok (map wit_diagnostic_to_host)
       (plain_call parse wa rt ext_id ROLES_IFACE ROLES_VERSIONS ''validate-role'' f (name, entry_json))"

definition internal :: "string \<Rightarrow> role_error" where
  "internal s = R_Host (H_Internal s)"

record wit_compile_context =
  wx_flow_entries_json :: string
  wx_flow_id :: "string option"
  wx_locale :: string

definition compile_context_to_wit :: "compile_context \<Rightarrow> wit_compile_context" where
  "compile_context_to_wit c =
     \<lparr>wx_flow_entries_json = cc_flow_entries_json c, wx_flow_id = cc_flow_id c, wx_locale = cc_locale c\<rparr>"

type_synonym ('i, 'x, 'e) compile_func =
  "('i, 'x, string \<times> wit_target_kind \<times> string \<times> wit_compile_context option,
    ('e wit_role_error, string) result) typed_func"

definition compile_role ::
  "url_parser \<Rightarrow> ('c, 'cl, 'rt, 'f, 'i, 'x) wasm
   \<Rightarrow> ('i, 'x, wit_error_v2) compile_func \<Rightarrow> ('i, 'x, wit_error_v1) compile_func
   \<Rightarrow> ('k, 't, 'w, 'c, 'v, 'ts, ('cl, 'rt, 'f) host_overrides) runtime
   \<Rightarrow> string \<Rightarrow> string \<Rightarrow> target_kind \<Rightarrow> string \<Rightarrow> compile_context option \<Rightarrow> (role_error, string) result" where
  "compile_role parse wa f3 f2 rt ext_id name target entry_json ctx =
     and_then
       (map_err (\<lambda>e. case e of NotFound x \<Rightarrow> UnknownRole x
            | other \<Rightarrow> internal (''instantiate '' @ [CHR 0x27] @ ext_id @ [CHR 0x27] @ '': '' @ display_runtime other))
          (dispatch_instance parse wa rt ext_id)) (\<lambda>inst.
     and_then
       (map_err (\<lambda>e. internal (''extension '' @ [CHR 0x27] @ ext_id @ [CHR 0x27] @ '' does not export ''
            @ [CHR 0x27] @ ROLES_IFACE @ [CHR 0x27] @ '': '' @ display_runtime e))
          (resolve_iface_versions wa inst ROLES_IFACE ROLES_VERSIONS)) (\<lambda>(iface_idx, iface_name, version).
     and_then
       (ok_or (internal (''interface '' @ [CHR 0x27] @ iface_name @ [CHR 0x27] @ '' does not export ''
            @ [CHR 0x27] @ ''compile-role'' @ [CHR 0x27])) (wa_func wa inst iface_idx ''compile-role'')) (\<lambda>func_idx.
     if version = ''0.3.0''
     then and_then (map_err internal (f3 inst func_idx (name, target_to_wit_v03 target, entry_json,
            map_option compile_context_to_wit ctx)))
            (map_err wit_role_error_to_host_v03)
     else and_then (map_err internal (f2 inst func_idx (name, target_to_wit target, entry_json,
            map_option compile_context_to_wit ctx)))
            (map_err wit_role_error_to_host))))"

section \<open>Composers\<close>

definition COMPOSER_VERSIONS :: "string list" where "COMPOSER_VERSIONS = [''0.2.0'', ''0.1.0'']"

definition COMPOSER_IFACE_BASE :: string where "COMPOSER_IFACE_BASE = ''greentic:dw-composer/composer''"

definition resolve_dw_composer_iface ::
  "('c, 's, 'i, 'x) wasm_api \<Rightarrow> 'i \<Rightarrow> (runtime_error, 'x \<times> string \<times> string) result" where
  "resolve_dw_composer_iface wa inst = resolve_iface_versions wa inst COMPOSER_IFACE_BASE COMPOSER_VERSIONS"

text \<open>The opening that the four calls have in common, each with its function's name.\<close>

definition composer_open ::
  "url_parser \<Rightarrow> ('c, 'cl, 'rt, 'f, 'i, 'x) wasm
   \<Rightarrow> ('k, 't, 'w, 'c, 'v, 'ts, ('cl, 'rt, 'f) host_overrides) runtime \<Rightarrow> string \<Rightarrow> string
   \<Rightarrow> (runtime_error, 'i \<times> 'x \<times> string) result" where
  "composer_open parse wa rt ext_id func =
     and_then (dispatch_instance parse wa rt ext_id) (\<lambda>inst.
     and_then (resolve_dw_composer_iface wa inst) (\<lambda>(iface_idx, iface_name, version).
     and_then (resolve_func wa inst iface_idx iface_name func) (\<lambda>func_idx. Inr (inst, func_idx, version))))"

lemma composer_open_call:
  "composer_open parse wa rt ext_id func =
     open_call parse wa rt ext_id call_context_default COMPOSER_IFACE_BASE COMPOSER_VERSIONS func"
  by (simp add: composer_open_def open_call_def dispatch_instance_def resolve_dw_composer_iface_def)

definition invoke_composer_metadata ::
  "url_parser \<Rightarrow> ('c, 'cl, 'rt, 'f, 'i, 'x) wasm \<Rightarrow> ('i, 'x, unit, string) typed_func
   \<Rightarrow> ('k, 't, 'w, 'c, 'v, 'ts, ('cl, 'rt, 'f) host_overrides) runtime
   \<Rightarrow> string \<Rightarrow> (runtime_error, string) result" where
  "invoke_composer_metadata parse wa f rt ext_id =
     and_then (composer_open parse wa rt ext_id ''metadata'') (\<lambda>(inst, func_idx, _). call_typed f inst func_idx ())"

definition invoke_composer_compose ::
  "url_parser \<Rightarrow> ('c, 'cl, 'rt, 'f, 'i, 'x) wasm
   \<Rightarrow> ('i, 'x, string, (wit_error_v2, string) result) typed_func
   \<Rightarrow> ('i, 'x, string, (string, string) result) typed_func
   \<Rightarrow> ('k, 't, 'w, 'c, 'v, 'ts, ('cl, 'rt, 'f) host_overrides) runtime
   \<Rightarrow> string \<Rightarrow> string \<Rightarrow> (runtime_error, (host_extension_error, string) result) result" where
  "invoke_composer_compose parse wa f2 f1 rt ext_id intent_json =
     and_then (composer_open parse wa rt ext_id ''compose'') (\<lambda>(inst, func_idx, version).
       if version = ''0.2.0'' then map_ok (map_err from_composer_v02) (call_typed f2 inst func_idx intent_json)
       else map_ok (map_err from_composer_v01) (call_typed f1 inst func_idx intent_json))"

definition invoke_composer_validate ::
  "url_parser \<Rightarrow> ('c, 'cl, 'rt, 'f, 'i, 'x) wasm \<Rightarrow> ('i, 'x, string, string) typed_func
   \<Rightarrow> ('k, 't, 'w, 'c, 'v, 'ts, ('cl, 'rt, 'f) host_overrides) runtime
   \<Rightarrow> string \<Rightarrow> string \<Rightarrow> (runtime_error, string) result" where
  "invoke_composer_validate parse wa f rt ext_id manifest_json =
     and_then (composer_open parse wa rt ext_id ''validate'') (\<lambda>(inst, func_idx, _).
       call_typed f inst func_idx manifest_json)"

definition invoke_composer_templates ::
  "url_parser \<Rightarrow> ('c, 'cl, 'rt, 'f, 'i, 'x) wasm \<Rightarrow> ('i, 'x, unit, string) typed_func
   \<Rightarrow> ('k, 't, 'w, 'c, 'v, 'ts, ('cl, 'rt, 'f) host_overrides) runtime
   \<Rightarrow> string \<Rightarrow> (runtime_error, string) result" where
  "invoke_composer_templates parse wa f rt ext_id =
     and_then (composer_open parse wa rt ext_id ''templates'') (\<lambda>(inst, func_idx, _). call_typed f inst func_idx ())"

lemma composer_versioned:
  "invoke_composer_compose parse wa f2 f1 rt ext_id intent_json =
     versioned_call parse wa rt ext_id call_context_default COMPOSER_IFACE_BASE COMPOSER_VERSIONS ''compose''
       ''0.2.0'' f2 from_composer_v02 f1 from_composer_v01 intent_json"
  by (simp add: invoke_composer_compose_def versioned_call_def composer_open_call)

end
