(* ===== verification/Calls.thy ===== *)
theory Calls
  imports Worlds
begin

text \<open>
  What the calls into extensions guarantee. The version tables of every world are shown newest first,
  so that resolving an interface picks the newest contract the component exports; from this and the
  contract of the error maps follow the exact outcomes of the calls: which failures are the host's,
  which are the guest's, and that a guest's error reaches the caller with its own code and message.
\<close>

section \<open>Version tables\<close>

text \<open>A version as the list of its dotted numbers, compared lexicographically.\<close>

definition digits_value :: "string \<Rightarrow> nat" where
  "digits_value s = foldl (\<lambda>n c. 10 * n + (of_char c - 48)) 0 s"

definition version_key :: "string \<Rightarrow> nat list" where
  "version_key v = map digits_value (split_on (CHR ''.'') v)"

fun key_less :: "nat list \<Rightarrow> nat list \<Rightarrow> bool" where
  "key_less [] ys = (ys \<noteq> [])"
| "key_less (x # xs) [] = False"
| "key_less (x # xs) (y # ys) = (x < y \<or> x = y \<and> key_less xs ys)"

definition older :: "string \<Rightarrow> string \<Rightarrow> bool" where
  "older v w \<longleftrightarrow> key_less (version_key v) (version_key w)"

lemma key_less_irrefl: "\<not> key_less xs xs"
  by (induction xs) auto

lemma key_less_trans: "key_less xs ys \<Longrightarrow> key_less ys zs \<Longrightarrow> key_less xs zs"
proof (induction xs ys arbitrary: zs rule: key_less.induct)
  case (1 ys)
  then show ?case by (cases zs; cases ys) auto
next
  case (3 x xs y ys)
  then show ?case by (cases zs) auto
qed simp

lemma older_irrefl: "\<not> older v v"
  by (simp add: older_def key_less_irrefl)

lemma older_asym: "older v w \<Longrightarrow> \<not> older w v"
  using key_less_trans key_less_irrefl by (auto simp: older_def)

lemma first_exported_split:
  assumes "first_exported wa inst base vs = Some (idx, name, v)"
  shows "name = base @ ''@'' @ v" and "wa_export wa inst name = Some idx"
    and "\<exists>before after. vs = before @ v # after
           \<and> (\<forall>w\<in>set before. wa_export wa inst (base @ ''@'' @ w) = None)"
proof -
  have "name = base @ ''@'' @ v \<and> wa_export wa inst name = Some idx
    \<and> (\<exists>before after. vs = before @ v # after
         \<and> (\<forall>w\<in>set before. wa_export wa inst (base @ ''@'' @ w) = None))"
    using assms
  proof (induction vs)
    case (Cons u vs)
    show ?case
    proof (cases "wa_export wa inst (base @ ''@'' @ u)")
      case None
      with Cons obtain before after where "vs = before @ v # after"
        "\<forall>w\<in>set before. wa_export wa inst (base @ ''@'' @ w) = None" by auto
      with Cons None show ?thesis by (intro conjI exI [of _ "u # before"] exI [of _ after]) auto
    next
      case (Some i)
      with Cons.prems show ?thesis by (intro conjI exI [of _ "[]"] exI [of _ vs]) auto
    qed
  qed simp
  then show "name = base @ ''@'' @ v" and "wa_export wa inst name = Some idx"
    and "\<exists>before after. vs = before @ v # after
           \<and> (\<forall>w\<in>set before. wa_export wa inst (base @ ''@'' @ w) = None)" by blast+
qed

lemma first_exported_at:
  "wa_export wa inst (base @ ''@'' @ v) = Some idx
   \<Longrightarrow> (\<And>w. w \<in> set before \<Longrightarrow> wa_export wa inst (base @ ''@'' @ w) = None)
   \<Longrightarrow> first_exported wa inst base (before @ v # after) = Some (idx, base @ ''@'' @ v, v)"
  by (induction before) auto

lemma first_exported_None:
  "first_exported wa inst base vs = None \<longleftrightarrow> (\<forall>w\<in>set vs. wa_export wa inst (base @ ''@'' @ w) = None)"
  by (induction vs) (auto split: option.splits)

text \<open>The contract of a version table, and what resolution gives a client of one.\<close>

locale version_table =
  fixes versions :: "string list" and newest :: string
  assumes newest_first: "versions \<noteq> [] \<and> hd versions = newest"
    and descending: "sorted_wrt (\<lambda>v w. older w v) versions"
begin

lemma first_exported_is_newest:
  "first_exported wa inst base versions = Some (idx, name, v) \<longleftrightarrow>
     v \<in> set versions \<and> name = base @ ''@'' @ v \<and> wa_export wa inst name = Some idx
     \<and> (\<forall>w\<in>set versions. older v w \<longrightarrow> wa_export wa inst (base @ ''@'' @ w) = None)"
    (is "?l \<longleftrightarrow> ?r")
proof
  assume l: ?l
  from first_exported_split [OF l] obtain before after where split: "versions = before @ v # after"
    and none: "\<forall>w\<in>set before. wa_export wa inst (base @ ''@'' @ w) = None" by blast
  have "w \<in> set before" if "w \<in> set versions" "older v w" for w
  proof -
    from that have "w \<noteq> v" using older_irrefl by auto
    moreover have "w \<notin> set after"
      using descending older_asym [OF that(2)] by (auto simp: split sorted_wrt_append)
    ultimately show ?thesis using that(1) by (simp add: split)
  qed
  with none first_exported_split(1,2) [OF l] split show ?r by (auto simp: older_irrefl)
next
  assume r: ?r
  then obtain before after where split: "versions = before @ v # after"
    by (meson split_list)
  moreover have "\<forall>w\<in>set before. older v w" using descending by (auto simp: split sorted_wrt_append)
  ultimately show ?l using r first_exported_at [of wa inst base v idx before after] by auto
qed

lemma resolved_is_newest:
  "resolve_iface_versions wa inst base versions = Inr (idx, name, v) \<longleftrightarrow>
     v \<in> set versions \<and> name = base @ ''@'' @ v \<and> wa_export wa inst name = Some idx
     \<and> (\<forall>w\<in>set versions. older v w \<longrightarrow> wa_export wa inst (base @ ''@'' @ w) = None)"
  by (simp add: resolve_iface_versions_def ok_or_Inr_iff first_exported_is_newest)

lemma newest_preferred:
  "wa_export wa inst (base @ ''@'' @ newest) = Some idx
   \<Longrightarrow> resolve_iface_versions wa inst base versions = Inr (idx, base @ ''@'' @ newest, newest)"
  using newest_first by (cases versions) (auto simp: resolve_iface_versions_def)

end

lemmas version_eval = older_def version_key_def digits_value_def

interpretation design_table: version_table DESIGN_VERSIONS "''0.3.0''"
  by unfold_locales (simp_all add: DESIGN_VERSIONS_def version_eval)

interpretation deploy_table: version_table DEPLOY_VERSIONS "''0.2.0''"
  by unfold_locales (simp_all add: DEPLOY_VERSIONS_def version_eval)

interpretation bundle_table: version_table BUNDLE_VERSIONS "''0.2.0''"
  by unfold_locales (simp_all add: BUNDLE_VERSIONS_def version_eval)

interpretation guardrail_table: version_table GUARDRAIL_VERSIONS "''0.3.0''"
  by unfold_locales (simp_all add: GUARDRAIL_VERSIONS_def version_eval)

interpretation roles_table: version_table ROLES_VERSIONS "''0.3.0''"
  by unfold_locales (simp_all add: ROLES_VERSIONS_def version_eval)

interpretation composer_table: version_table COMPOSER_VERSIONS "''0.2.0''"
  by unfold_locales (simp_all add: COMPOSER_VERSIONS_def version_eval)

lemma deploy_as_host_iff: "deploy_as_host d = deploy_as_host e \<longleftrightarrow> d = e"
  by (cases d; cases e) simp_all

section \<open>Outcomes of a call\<close>

lemmas call_defs = open_call_def plain_call_def versioned_call_def call_typed_def dispatch_instance_ctx_def build_store_and_instance_def
  dispatch_instance_def resolve_iface_versions_def resolve_func_def lookup_def

lemma open_call_Inl:
  "open_call parse wa rt ext_id ctx base versions func = Inl e \<Longrightarrow>
     (e = NotFound ext_id \<and> map_of (rn_loaded rt) ext_id = None)
     \<or> (\<exists>ext t. map_of (rn_loaded rt) ext_id = Some ext \<and> e = Wasmtime t)"
  by (auto simp: call_defs result_simps split: prod.splits)

lemma open_call_found:
  "open_call parse wa rt ext_id ctx base versions func = Inr x \<Longrightarrow> \<exists>ext. map_of (rn_loaded rt) ext_id = Some ext"
  by (auto simp: call_defs result_simps)

lemma open_call_unknown:
  "open_call parse wa rt ext_id ctx base versions func = Inl (NotFound x)
     \<longleftrightarrow> x = ext_id \<and> map_of (rn_loaded rt) ext_id = None"
  using open_call_Inl [of parse wa rt ext_id ctx base versions func "NotFound x"]
  by (auto simp: open_call_def dispatch_instance_ctx_def lookup_def)

lemma open_call_not_guest [simp]:
  "open_call parse wa rt ext_id ctx base versions func \<noteq> Inl (Extension h)"
  "open_call parse wa rt ext_id ctx base versions func \<noteq> Inl (Deploy d)"
  by (auto dest: open_call_Inl)

lemma call_typed_Inl: "call_typed f inst idx args = Inl e \<longleftrightarrow> (\<exists>t. f inst idx args = Inl t \<and> e = Wasmtime t)"
  by (auto simp: call_typed_def result_simps)

lemma call_typed_Inr: "call_typed f inst idx args = Inr r \<longleftrightarrow> f inst idx args = Inr r"
  by (auto simp: call_typed_def result_simps)

lemma versioned_call_Inr:
  "versioned_call parse wa rt ext_id ctx base versions func newest f_new err_new f_old err_old args = Inr r
     \<longleftrightarrow> (\<exists>inst idx version. open_call parse wa rt ext_id ctx base versions func = Inr (inst, idx, version)
        \<and> (if version = newest then \<exists>g. f_new inst idx args = Inr g \<and> r = map_err err_new g
           else \<exists>g. f_old inst idx args = Inr g \<and> r = map_err err_old g))"
  by (auto simp: versioned_call_def result_simps call_typed_Inr split: if_splits)

lemma versioned_call_Inl:
  "versioned_call parse wa rt ext_id ctx base versions func newest f_new err_new f_old err_old args = Inl e
     \<Longrightarrow> open_call parse wa rt ext_id ctx base versions func = Inl e \<or> (\<exists>t. e = Wasmtime t)"
  by (auto simp: versioned_call_def result_simps call_typed_Inl split: if_splits)

lemma versioned_call_unknown:
  "versioned_call parse wa rt ext_id ctx base versions func newest f_new err_new f_old err_old args
       = Inl (NotFound x)
     \<longleftrightarrow> x = ext_id \<and> map_of (rn_loaded rt) ext_id = None"
proof
  show "x = ext_id \<and> map_of (rn_loaded rt) ext_id = None"
    if "versioned_call parse wa rt ext_id ctx base versions func newest f_new err_new f_old err_old args
          = Inl (NotFound x)"
    using versioned_call_Inl [OF that] by (auto simp: open_call_unknown)
qed (auto simp: versioned_call_def call_defs)

lemma absent_fails:
  assumes "map_of (rn_loaded rt) ext_id = None"
  shows "open_call parse wa rt ext_id ctx base versions func = Inl (NotFound ext_id)"
    and "versioned_call parse wa rt ext_id ctx base versions func newest f_new err_new f_old err_old args
           = Inl (NotFound ext_id)"
  using assms by (simp_all add: open_call_unknown versioned_call_unknown)

lemma versioned_call_not_guest [simp]:
  "versioned_call parse wa rt ext_id ctx base versions func newest f_new err_new f_old err_old args
     \<noteq> Inl (Extension h)"
  "versioned_call parse wa rt ext_id ctx base versions func newest f_new err_new f_old err_old args
     \<noteq> Inl (Deploy d)"
  by (auto dest!: versioned_call_Inl)

lemma plain_call_unknown:
  "plain_call parse wa rt ext_id base versions func f args = Inl (NotFound x)
     \<longleftrightarrow> x = ext_id \<and> map_of (rn_loaded rt) ext_id = None"
  by (auto simp: plain_call_def result_simps call_typed_Inl open_call_unknown split: prod.splits)

lemma plain_call_Inr:
  "plain_call parse wa rt ext_id base versions func f args = Inr r
     \<longleftrightarrow> (\<exists>inst idx version. open_call parse wa rt ext_id call_context_default base versions func
            = Inr (inst, idx, version) \<and> f inst idx args = Inr r)"
  by (auto simp: plain_call_def result_simps call_typed_Inr)

text \<open>
  A guest failed with \<open>h\<close>: the call was opened, the function of the resolved contract's ABI returned an
  error, and \<open>h\<close> has that error's code and message.
\<close>

definition guest_failed ::
  "(runtime_error, 'i \<times> 'x \<times> string) result \<Rightarrow> string
   \<Rightarrow> ('i, 'x, 'a, (wit_error_v2, 'b) result) typed_func \<Rightarrow> ('i, 'x, 'a, (wit_error_v1, 'b) result) typed_func
   \<Rightarrow> 'a \<Rightarrow> host_extension_error \<Rightarrow> bool" where
  "guest_failed opened newest f_new f_old args h \<longleftrightarrow>
     (\<exists>inst idx version. opened = Inr (inst, idx, version)
        \<and> (if version = newest
           then \<exists>e. f_new inst idx args = Inr (Inl e) \<and> code h = wit_code_v2 e \<and> message h = wit_message_v2 e
           else \<exists>e. f_old inst idx args = Inr (Inl e) \<and> code h = wit_code_v1 e \<and> message h = wit_message_v1 e))"

lemma versioned_guest_error:
  assumes "\<And>e. g (err_new e) = h \<longleftrightarrow> code k = wit_code_v2 e \<and> message k = wit_message_v2 e"
    and "\<And>e. g (err_old e) = h \<longleftrightarrow> code k = wit_code_v1 e \<and> message k = wit_message_v1 e"
    and "\<And>t. Wasmtime t \<noteq> h"
    and "\<And>e. open_call parse wa rt ext_id ctx base versions func = Inl e \<Longrightarrow> e \<noteq> h"
  shows "and_then (versioned_call parse wa rt ext_id ctx base versions func newest f_new err_new f_old err_old args)
           (map_err g) = Inl h
     \<longleftrightarrow> guest_failed (open_call parse wa rt ext_id ctx base versions func) newest f_new f_old args k"
proof -
  let ?r = "versioned_call parse wa rt ext_id ctx base versions func newest f_new err_new f_old err_old args"
  have "?r \<noteq> Inl h" using versioned_call_Inl assms(3,4) by metis
  then have "and_then ?r (map_err g) = Inl h \<longleftrightarrow> (\<exists>d. ?r = Inr (Inl d) \<and> g d = h)"
    by (auto simp: result_simps)
  also have "\<dots> \<longleftrightarrow> guest_failed (open_call parse wa rt ext_id ctx base versions func) newest f_new f_old args k"
    (is "?l \<longleftrightarrow> ?g")
  proof
    assume ?l
    then obtain d where d: "?r = Inr (Inl d)" "g d = h" by blast
    then obtain inst idx version where "open_call parse wa rt ext_id ctx base versions func = Inr (inst, idx, version)"
      and "if version = newest then \<exists>e. f_new inst idx args = Inr (Inl e) \<and> d = err_new e
           else \<exists>e. f_old inst idx args = Inr (Inl e) \<and> d = err_old e"
      unfolding versioned_call_Inr by (auto simp: map_err_Inl_iff eq_commute [of "Inl _" "map_err _ _"] split: if_splits)
    with d(2) assms(1,2) show ?g unfolding guest_failed_def by (metis (no_types, lifting))
  next
    assume ?g
    then obtain inst idx version where opened: "open_call parse wa rt ext_id ctx base versions func = Inr (inst, idx, version)"
      and cases: "if version = newest then \<exists>e. f_new inst idx args = Inr (Inl e) \<and> g (err_new e) = h
           else \<exists>e. f_old inst idx args = Inr (Inl e) \<and> g (err_old e) = h"
      unfolding guest_failed_def using assms(1,2) by (metis (no_types, lifting))
    from cases show ?l
      using opened unfolding versioned_call_Inr by (cases "version = newest") force+
  qed
  finally show ?thesis .
qed

text \<open>Converting what a function returns does not change how it fails.\<close>

lemma guest_failed_converting:
  "guest_failed opened newest (converting g f_new) (converting h f_old) args k
     \<longleftrightarrow> guest_failed opened newest f_new f_old args k"
  by (simp add: guest_failed_def converting_def map_ok_Inr_iff map_ok_Inl_iff eq_commute [of "Inl _" "map_ok _ _"])

text \<open>Equality with a mapped error, read as agreement of code and message.\<close>

lemmas design_maps = design_v03_map.to_host_iff [symmetric] design_v01_map.to_host_iff [symmetric]
lemmas deploy_maps = deploy_v02_map.to_host_iff [symmetric] deploy_v01_map.to_host_iff [symmetric]
lemmas bundle_maps = bundle_v02_map.to_host_iff [symmetric] bundle_v01_map.to_host_iff [symmetric]

text \<open>The deprecation notices of a sequence of resolved calls, each an id with its matched version.\<close>

fun warnings :: "string set \<Rightarrow> string \<Rightarrow> (string \<times> string) list \<Rightarrow> string list" where
  "warnings warned newest [] = []"
| "warnings warned newest ((x, v) # calls) =
     (case warn_if_legacy_contract warned x v newest of (warned', now) \<Rightarrow>
        (if now then [x] else []) @ warnings warned' newest calls)"

lemma set_warnings: "set (warnings warned newest calls) = fst ` {c \<in> set calls. snd c \<noteq> newest} - warned"
proof (induction calls arbitrary: warned)
  case (Cons c calls)
  obtain x v where c: "c = (x, v)" by fastforce
  have "{c \<in> set ((x, v) # calls). snd c \<noteq> newest} =
      (if v = newest then {} else {(x, v)}) \<union> {c \<in> set calls. snd c \<noteq> newest}" by auto
  then show ?case by (simp add: c warn_if_legacy_contract_def Cons.IH image_Un) blast
qed simp

lemma warned_once: "distinct (warnings warned newest calls)"
proof (induction calls arbitrary: warned)
  case (Cons c calls)
  then show ?case by (cases c) (simp add: warn_if_legacy_contract_def set_warnings)
qed simp

section \<open>Properties\<close>

definition version_tables :: "string list list" where
  "version_tables =
     [DESIGN_VERSIONS, DEPLOY_VERSIONS, BUNDLE_VERSIONS, GUARDRAIL_VERSIONS, ROLES_VERSIONS, COMPOSER_VERSIONS]"

text \<open>
  C32: Resolving an interface against the version table of any extension world answers with the newest
  version of the table whose \<open>base@version\<close> the component exports, and only then: the resolved name and
  index are that export's, and no newer version of the table is exported.
\<close>

theorem interface_resolution_is_newest:
  assumes "versions \<in> set version_tables"
  shows "resolve_iface_versions wa inst base versions = Inr (idx, name, v) \<longleftrightarrow>
     v \<in> set versions \<and> name = base @ ''@'' @ v \<and> wa_export wa inst name = Some idx
     \<and> (\<forall>w\<in>set versions. older v w \<longrightarrow> wa_export wa inst (base @ ''@'' @ w) = None)"
proof -
  from assms consider "versions = DESIGN_VERSIONS" | "versions = DEPLOY_VERSIONS" | "versions = BUNDLE_VERSIONS"
    | "versions = GUARDRAIL_VERSIONS" | "versions = ROLES_VERSIONS" | "versions = COMPOSER_VERSIONS"
    by (auto simp: version_tables_def)
  then show ?thesis
    by cases (simp_all only: design_table.resolved_is_newest deploy_table.resolved_is_newest
        bundle_table.resolved_is_newest guardrail_table.resolved_is_newest roles_table.resolved_is_newest
        composer_table.resolved_is_newest)
qed

definition example_exports :: "(unit, unit, unit, nat) wasm_api" where
  "example_exports =
     \<lparr>wa_link = (\<lambda>_. Inr ()), wa_instantiate = (\<lambda>_ _. Inr ()),
      wa_export = (\<lambda>_ name. if name = ''tools@0.1.0'' then Some 1 else if name = ''tools@0.2.0'' then Some 2 else None),
      wa_func = (\<lambda>_ _ _. None)\<rparr>"

theorem interface_resolution_is_newest_witness:
  "resolve_iface_versions example_exports () ''tools'' DESIGN_VERSIONS = Inr (2, ''tools@0.2.0'', ''0.2.0'')"
  by (subst interface_resolution_is_newest)
    (simp_all add: version_tables_def DESIGN_VERSIONS_def example_exports_def version_eval)

text \<open>
  C21: The extension error of a tool call, a knowledge lookup, a credential schema or a bundle rendering is
  exactly the error the guest returned: the call was opened, the function with the ABI of the resolved
  contract (six variants at the newest, four before) returned an error, and what the caller receives
  has that error's own code and message. A host failure is never reported as the guest's.
\<close>

theorem extension_errors_are_the_guests:
  "(invoke_tool_ctx parse wa f3 f1 rt ext_id tool args ctx = Inl (Extension h) \<longleftrightarrow>
      guest_failed (open_call parse wa rt ext_id ctx TOOLS_IFACE DESIGN_VERSIONS ''invoke-tool'')
        ''0.3.0'' f3 f1 (tool, args) h)
   \<and> (knowledge_get parse wa k3 k1 rt ext_id entry = Inl (Extension h) \<longleftrightarrow>
      guest_failed (open_call parse wa rt ext_id call_context_default KNOWLEDGE_IFACE DESIGN_VERSIONS ''get-entry'')
        ''0.3.0'' k3 k1 entry h)
   \<and> (credential_schema parse wa c2 c1 rt ext_id target = Inl (Extension h) \<longleftrightarrow>
      guest_failed (open_call parse wa rt ext_id call_context_default TARGETS_IFACE DEPLOY_VERSIONS
          ''credential-schema'') ''0.2.0'' c2 c1 target h)
   \<and> (render_bundle parse wa b2 b1 rt ext_id recipe cfg session = Inl (Extension h) \<longleftrightarrow>
      guest_failed (open_call parse wa rt ext_id call_context_default BUNDLING_IFACE BUNDLE_VERSIONS ''render'')
        ''0.2.0'' b2 b1 (recipe, cfg, session_to_wit session) h)"
proof (intro conjI)
  show "invoke_tool_ctx parse wa f3 f1 rt ext_id tool args ctx = Inl (Extension h) \<longleftrightarrow>
      guest_failed (open_call parse wa rt ext_id ctx TOOLS_IFACE DESIGN_VERSIONS ''invoke-tool'')
        ''0.3.0'' f3 f1 (tool, args) h"
    unfolding invoke_tool_ctx_def by (rule versioned_guest_error) (auto simp: design_maps)
  show "knowledge_get parse wa k3 k1 rt ext_id entry = Inl (Extension h) \<longleftrightarrow>
      guest_failed (open_call parse wa rt ext_id call_context_default KNOWLEDGE_IFACE DESIGN_VERSIONS ''get-entry'')
        ''0.3.0'' k3 k1 entry h"
    unfolding knowledge_get_def guest_failed_converting [of _ _ wit_entry_to_host k3 wit_entry_to_host k1, symmetric]
    by (rule versioned_guest_error) (auto simp: design_maps)
  show "credential_schema parse wa c2 c1 rt ext_id target = Inl (Extension h) \<longleftrightarrow>
      guest_failed (open_call parse wa rt ext_id call_context_default TARGETS_IFACE DEPLOY_VERSIONS
          ''credential-schema'') ''0.2.0'' c2 c1 target h"
    unfolding credential_schema_def by (rule versioned_guest_error) (auto simp: deploy_maps)
  show "render_bundle parse wa b2 b1 rt ext_id recipe cfg session = Inl (Extension h) \<longleftrightarrow>
      guest_failed (open_call parse wa rt ext_id call_context_default BUNDLING_IFACE BUNDLE_VERSIONS ''render'')
        ''0.2.0'' b2 b1 (recipe, cfg, session_to_wit session) h"
    unfolding render_bundle_def
      guest_failed_converting [of _ _ wit_artifact_to_host b2 wit_artifact_to_host b1, symmetric]
    by (rule versioned_guest_error) (auto simp: bundle_maps)
qed

text \<open>
  A deployment, a poll or a rollback fails with a deploy error exactly when the guest's function of
  the resolved deploy contract returned one, and the error keeps its variant and message, in the six
  variants of the newest contract as in the four of the legacy one.
\<close>

theorem deploy_errors_are_the_guests:
  "(deploy parse wa f2 f1 rt ext_id req = Inl (Deploy d) \<longleftrightarrow>
      guest_failed (open_call parse wa rt ext_id call_context_default DEPLOYMENT_IFACE DEPLOY_VERSIONS ''deploy'')
        ''0.2.0'' f2 f1 (deploy_request_to_wit req) (deploy_as_host d))
   \<and> (deploy_poll parse wa p2 p1 rt ext_id job = Inl (Deploy d) \<longleftrightarrow>
      guest_failed (open_call parse wa rt ext_id call_context_default DEPLOYMENT_IFACE DEPLOY_VERSIONS ''poll'')
        ''0.2.0'' p2 p1 job (deploy_as_host d))
   \<and> (deploy_rollback parse wa r2 r1 rt ext_id job = Inl (Deploy d) \<longleftrightarrow>
      guest_failed (open_call parse wa rt ext_id call_context_default DEPLOYMENT_IFACE DEPLOY_VERSIONS ''rollback'')
        ''0.2.0'' r2 r1 job (deploy_as_host d))"
  unfolding deploy_calls
    guest_failed_converting [of _ _ job_to_host_v2 f2 job_to_host f1, symmetric]
    guest_failed_converting [of _ _ job_to_host_v2 p2 job_to_host p1, symmetric]
  by (intro conjI versioned_guest_error)
    (auto simp: deploy_v02_map.to_host_iff [symmetric] deploy_v01_map.to_host_iff [symmetric]
      deploy_as_host_v1 [symmetric] deploy_as_host_v2 [symmetric] deploy_as_host_iff)

text \<open>
  C34: A call into an extension fails with \<open>NotFound\<close> exactly when no extension is loaded under the id it
  names, whatever the instance, its exports and the guest do: every entry point reports an absent
  extension, and no failure of a loaded one is mistaken for absence.
\<close>

theorem not_found_exactly_when_absent:
  "(invoke_tool_ctx parse wa f3 f1 rt ext_id tool args ctx = Inl (NotFound x)
      \<longleftrightarrow> x = ext_id \<and> map_of (rn_loaded rt) ext_id = None)
   \<and> (list_tools parse wa lt rt ext_id = Inl (NotFound x) \<longleftrightarrow> x = ext_id \<and> map_of (rn_loaded rt) ext_id = None)
   \<and> (validate_content parse wa vc rt ext_id ct cj = Inl (NotFound x)
      \<longleftrightarrow> x = ext_id \<and> map_of (rn_loaded rt) ext_id = None)
   \<and> (evaluate_guardrail dbg dto wire parse wa eg rt ext_id gj = Inl (NotFound x)
      \<longleftrightarrow> x = ext_id \<and> map_of (rn_loaded rt) ext_id = None)
   \<and> (deploy parse wa d2 d1 rt ext_id req = Inl (NotFound x)
      \<longleftrightarrow> x = ext_id \<and> map_of (rn_loaded rt) ext_id = None)
   \<and> (render_bundle parse wa b2 b1 rt ext_id recipe cfg session = Inl (NotFound x)
      \<longleftrightarrow> x = ext_id \<and> map_of (rn_loaded rt) ext_id = None)
   \<and> (invoke_composer_compose parse wa c2 c1 rt ext_id ij = Inl (NotFound x)
      \<longleftrightarrow> x = ext_id \<and> map_of (rn_loaded rt) ext_id = None)"
proof (intro conjI)
  show "list_tools parse wa lt rt ext_id = Inl (NotFound x)
      \<longleftrightarrow> x = ext_id \<and> map_of (rn_loaded rt) ext_id = None"
    by (auto simp: list_tools_def lookup_def result_simps plain_call_unknown split: if_splits)
  show "evaluate_guardrail dbg dto wire parse wa eg rt ext_id gj = Inl (NotFound x)
      \<longleftrightarrow> x = ext_id \<and> map_of (rn_loaded rt) ext_id = None"
    by (auto simp: evaluate_guardrail_def call_evaluate_def parse_direction_def call_typed_Inl
        result_simps open_call_unknown split: if_splits)
qed (auto simp: invoke_tool_ctx_def validate_content_def deploy_versioned render_bundle_def
    composer_versioned result_simps versioned_call_unknown plain_call_unknown)

text \<open>
  C22: A guardrail answers only with the guest's own verdict: an evaluation succeeds exactly when the input
  decodes, its direction is one of the two known ones, the guest exports the guardrail interface at
  0.3.0 and returned a verdict for that input, and the answer is that verdict's serialisation: an
  acceptance as an acceptance, an update with the guest's content, a denial with the guest's code,
  message and details. Anything else, an unknown direction included, is an error, and no denial
  is answered as an acceptance.
\<close>

theorem guardrail_fails_closed:
  "evaluate_guardrail dbg dto_from_str wire_to_string parse wa f rt ext_id input = Inr out \<longleftrightarrow>
     (\<exists>inst idx dto dir verdict.
        open_call parse wa rt ext_id call_context_default GUARDRAIL_IFACE [''0.3.0''] ''evaluate''
          = Inr (inst, idx, ''0.3.0'')
        \<and> dto_from_str input = Inr dto
        \<and> (gi_direction dto = ''inbound'' \<and> dir = Inbound \<or> gi_direction dto = ''outbound'' \<and> dir = Outbound)
        \<and> f inst idx \<lparr>gw_direction = dir, gw_content = gi_content dto, gw_agent_id = gi_agent_id dto,
             gw_session_id = gi_session_id dto, gw_tenant_id = gi_tenant_id dto, gw_env_id = gi_env_id dto,
             gw_context = gi_context dto\<rparr> = Inr verdict
        \<and> wire_to_string
             (case verdict of
                WitAccept \<Rightarrow> WireAccept
              | WitUpdate content \<Rightarrow> WireUpdate content
              | WitDeny c m details \<Rightarrow> WireDeny c m details) = Inr out)"
proof -
  have version: "v = ''0.3.0''" if "open_call parse wa rt ext_id c b [''0.3.0''] g = Inr (inst, idx, v)" for c b g inst idx v
    using that by (auto simp: open_call_def resolve_iface_versions_def result_simps split: option.splits)
  have dir: "parse_direction dbg raw = Inr d \<longleftrightarrow> raw = ''inbound'' \<and> d = Inbound \<or> raw = ''outbound'' \<and> d = Outbound" for raw d
    by (auto simp: parse_direction_def)
  have verdict: "map_verdict verdict =
      (case verdict of
         WitAccept \<Rightarrow> WireAccept
       | WitUpdate content \<Rightarrow> WireUpdate content
       | WitDeny c m details \<Rightarrow> WireDeny c m details)" for verdict
    by (cases verdict) simp_all
  show ?thesis
    unfolding evaluate_guardrail_def call_evaluate_def GUARDRAIL_VERSIONS_def verdict [symmetric]
    by (auto simp: result_simps call_typed_Inr dir dest: version)
qed

end
