(* ===== verification/Watch.thy ===== *)
theory Watch
  imports Runtime
begin

text \<open>
  Which directory a changed path is attributed to: the two enumerators of extension directories,
  the scan of \<open>discovery.rs\<close> and the upward walk of \<open>runtime_watch.rs\<close>, agree on what one is.
\<close>

lemma parent_Some_iff: "parent p = Some q \<longleftrightarrow> (\<exists>c. c \<noteq> RootDir \<and> p = q @ [c])"
  by (cases p rule: rev_cases) (auto simp: parent_def)

lemma parent_None_iff: "parent p = None \<longleftrightarrow> p = [] \<or> last p = RootDir"
  by (simp add: parent_def)

lemma file_name_Some_iff: "file_name p = Some s \<longleftrightarrow> (\<exists>q. p = q @ [Normal s])"
  by (cases p rule: rev_cases) (auto simp: file_name_def split: pcomp.splits)

lemma is_extension_dir_iff:
  "is_extension_dir kind_dirs roots d \<longleftrightarrow>
     (\<exists>root\<in>set roots. \<exists>kind\<in>set kind_dirs. \<exists>c. c \<noteq> RootDir \<and> d = root @ [Normal kind, c])"
proof
  assume "is_extension_dir kind_dirs roots d"
  then obtain kd root name where "parent d = Some kd" "parent kd = Some root" "root \<in> set roots"
    "file_name kd = Some name" "name \<in> set kind_dirs"
    by (auto simp: is_extension_dir_def is_known_kind_dir_def list_ex_iff split: option.splits if_splits)
  then show "\<exists>root\<in>set roots. \<exists>kind\<in>set kind_dirs. \<exists>c. c \<noteq> RootDir \<and> d = root @ [Normal kind, c]"
    by (auto simp: parent_Some_iff file_name_Some_iff)
next
  assume "\<exists>root\<in>set roots. \<exists>kind\<in>set kind_dirs. \<exists>c. c \<noteq> RootDir \<and> d = root @ [Normal kind, c]"
  then obtain root kind c where d: "root \<in> set roots" "kind \<in> set kind_dirs" "c \<noteq> RootDir"
    "d = (root @ [Normal kind]) @ [c]" by auto
  then have "parent d = Some (root @ [Normal kind])" "parent (root @ [Normal kind]) = Some root"
    "file_name (root @ [Normal kind]) = Some kind"
    by (auto simp: parent_Some_iff file_name_Some_iff)
  with d show "is_extension_dir kind_dirs roots d"
    by (auto simp: is_extension_dir_def is_known_kind_dir_def list_ex_iff)
qed

text \<open>A directory of the layout that holds a describe document.\<close>

definition extension_at :: "string \<Rightarrow> string list \<Rightarrow> filesystem \<Rightarrow> path list \<Rightarrow> path \<Rightarrow> bool" where
  "extension_at describe_name kind_dirs fs roots d \<longleftrightarrow>
     fs_exists fs (join_name d describe_name) \<and>
     (\<exists>root\<in>set roots. \<exists>kind\<in>set kind_dirs. \<exists>c. c \<noteq> RootDir \<and> d = root @ [Normal kind, c])"

lemma find_here: "extension_at n ks fs roots p \<Longrightarrow> find_extension_dir n ks fs roots p = Some p"
  by (subst find_extension_dir.simps) (simp add: extension_at_def is_extension_dir_iff)

lemma find_up:
  "\<not> extension_at n ks fs roots p \<Longrightarrow> find_extension_dir n ks fs roots p =
     (case parent p of None \<Rightarrow> None | Some up \<Rightarrow> find_extension_dir n ks fs roots up)"
  by (subst find_extension_dir.simps) (auto simp: extension_at_def is_extension_dir_iff)

lemma find_extension_dir_iff:
  "find_extension_dir n ks fs roots p = Some d \<longleftrightarrow>
     (\<exists>rest. p = d @ rest \<and> RootDir \<notin> set rest \<and> extension_at n ks fs roots d \<and>
        (\<forall>q r. rest = q @ r \<longrightarrow> q \<noteq> [] \<longrightarrow> \<not> extension_at n ks fs roots (d @ q)))"
proof (induction p rule: rev_induct)
  case Nil
  show ?case
  proof (cases "extension_at n ks fs roots []")
    case True
    then show ?thesis using find_here [of n ks fs roots "[]"] by auto
  next
    case False
    then show ?thesis using find_up [of n ks fs roots "[]"] by (auto simp: parent_def)
  qed
next
  case (snoc c p)
  show ?case
  proof (cases "extension_at n ks fs roots (p @ [c])")
    case True
    have "rest = []" if "p @ [c] = d @ rest"
      "\<forall>q r. rest = q @ r \<longrightarrow> q \<noteq> [] \<longrightarrow> \<not> extension_at n ks fs roots (d @ q)" for rest
    proof (rule ccontr)
      assume "rest \<noteq> []"
      with that(2) have "\<not> extension_at n ks fs roots (d @ rest)" by auto
      with True that(1) show False by simp
    qed
    with True find_here [OF True] show ?thesis by auto
  next
    case False
    have find: "find_extension_dir n ks fs roots (p @ [c]) =
        (if c = RootDir then None else find_extension_dir n ks fs roots p)"
      using find_up [OF False] by (simp add: parent_def)
    have split: "(\<exists>rest. p @ [c] = d @ rest \<and> RootDir \<notin> set rest \<and> extension_at n ks fs roots d \<and>
        (\<forall>q r. rest = q @ r \<longrightarrow> q \<noteq> [] \<longrightarrow> \<not> extension_at n ks fs roots (d @ q))) \<longleftrightarrow>
      c \<noteq> RootDir \<and> (\<exists>rest. p = d @ rest \<and> RootDir \<notin> set rest \<and> extension_at n ks fs roots d \<and>
        (\<forall>q r. rest = q @ r \<longrightarrow> q \<noteq> [] \<longrightarrow> \<not> extension_at n ks fs roots (d @ q)))" (is "?L \<longleftrightarrow> ?R")
    proof
      assume ?L
      then obtain rest where rest: "p @ [c] = d @ rest" "RootDir \<notin> set rest" "extension_at n ks fs roots d"
        "\<forall>q r. rest = q @ r \<longrightarrow> q \<noteq> [] \<longrightarrow> \<not> extension_at n ks fs roots (d @ q)" by blast
      have "rest \<noteq> []" using rest(1,3) False by auto
      then obtain r' where r': "rest = r' @ [c]" "p = d @ r'"
        using rest(1) by (cases rest rule: rev_cases) auto
      with rest show ?R by auto
    next
      assume ?R
      then obtain r' where r': "c \<noteq> RootDir" "p = d @ r'" "RootDir \<notin> set r'" "extension_at n ks fs roots d"
        "\<forall>q r. r' = q @ r \<longrightarrow> q \<noteq> [] \<longrightarrow> \<not> extension_at n ks fs roots (d @ q)" by blast
      have "\<not> extension_at n ks fs roots (d @ q)" if "r' @ [c] = q @ r" "q \<noteq> []" for q r
        using that r' False by (cases r rule: rev_cases) auto
      with r' show ?L by (intro exI [of _ "r' @ [c]"]) auto
    qed
    show ?thesis unfolding find split by (simp add: snoc.IH)
  qed
qed

text \<open>
  A changed path is attributed to the deepest directory at or above it that has the shape
  root, kind, name for a configured root and a kind of the layout and holds a describe document;
  a path outside every such directory is attributed to none, so it triggers no load and no pin.
\<close>

theorem watcher_finds_extension_dirs_only:
  "find_extension_dir n kind_dirs fs roots p = Some d \<longleftrightarrow>
     (\<exists>rest. p = d @ rest \<and> RootDir \<notin> set rest \<and> fs_exists fs (join_name d n) \<and>
        (\<exists>root kind c. root \<in> set roots \<and> kind \<in> set kind_dirs \<and> c \<noteq> RootDir \<and> d = root @ [Normal kind, c]) \<and>
        {q. \<exists>r. rest = q @ r \<and> q \<noteq> [] \<and> extension_at n kind_dirs fs roots (d @ q)} = {})"
proof -
  have here: "extension_at n kind_dirs fs roots d \<longleftrightarrow> fs_exists fs (join_name d n) \<and>
    (\<exists>root kind c. root \<in> set roots \<and> kind \<in> set kind_dirs \<and> c \<noteq> RootDir \<and> d = root @ [Normal kind, c])"
    by (auto simp: extension_at_def)
  have "(\<forall>q r. rest = q @ r \<longrightarrow> q \<noteq> [] \<longrightarrow> \<not> extension_at n kind_dirs fs roots (d @ q)) \<longleftrightarrow>
    {q. \<exists>r. rest = q @ r \<and> q \<noteq> [] \<and> extension_at n kind_dirs fs roots (d @ q)} = {}" for rest
    by auto
  then show ?thesis unfolding find_extension_dir_iff here by simp
qed

lemma scan_entry_mem:
  assumes "scan_entry fs kind_dir entry = Inr ps" and "d \<in> set ps"
  shows "\<exists>name. entry = Inr name \<and> d = kind_dir @ [Normal name] \<and> fs_lstat fs d = Inr Directory \<and>
           fs_exists fs (join_name d ''describe.json'')"
  using assms by (auto simp: scan_entry_def result_simps entry_path_def split: if_splits)

lemma list_all2_preimage: "list_all2 P xs ys \<Longrightarrow> y \<in> set ys \<Longrightarrow> \<exists>x\<in>set xs. P x y"
  by (induction rule: list_all2_induct) auto

lemma scan_kind_dir_set:
  assumes "scan_kind_dir fs kind_dir = Inr dirs" and "fs_exists fs kind_dir"
    and "fs_read_dir fs kind_dir = Inr entries"
  shows "d \<in> set dirs \<longleftrightarrow> (\<exists>name. Inr name \<in> set entries \<and> d = kind_dir @ [Normal name] \<and>
      fs_lstat fs d = Inr Directory \<and> fs_exists fs (join_name d ''describe.json''))"
proof
  obtain pss where pss: "list_all2 (\<lambda>e ps. scan_entry fs kind_dir e = Inr ps) entries pss" "dirs = sort (concat pss)"
    using assms by (auto simp: scan_kind_dir_def result_simps)
  show "\<exists>name. Inr name \<in> set entries \<and> d = kind_dir @ [Normal name] \<and> fs_lstat fs d = Inr Directory \<and>
      fs_exists fs (join_name d ''describe.json'')" if "d \<in> set dirs"
  proof -
    from that pss(2) obtain ps where ps: "ps \<in> set pss" "d \<in> set ps" by auto
    from list_all2_preimage [OF pss(1) ps(1)] obtain e where "e \<in> set entries" "scan_entry fs kind_dir e = Inr ps"
      by blast
    with scan_entry_mem ps(2) show ?thesis by blast
  qed
  assume "\<exists>name. Inr name \<in> set entries \<and> d = kind_dir @ [Normal name] \<and> fs_lstat fs d = Inr Directory \<and>
      fs_exists fs (join_name d ''describe.json'')"
  then obtain name where name: "Inr name \<in> set entries" "d = kind_dir @ [Normal name]"
    "fs_lstat fs d = Inr Directory" "fs_exists fs (join_name d ''describe.json'')" by blast
  then have "scan_entry fs kind_dir (Inr name) = Inr [d]" by (simp add: scan_entry_def entry_path_def)
  with name(1) pss show "d \<in> set dirs"
    by (auto simp: list_all2_conv_all_nth in_set_conv_nth) (metis in_set_conv_nth list.set_intros(1) sum.inject(2))
qed

lemma scan_kind_dir_sorted: "scan_kind_dir fs kind_dir = Inr dirs \<Longrightarrow> sorted dirs"
  by (auto simp: scan_kind_dir_def and_then_Inr_iff map_ok_Inr_iff split: if_splits)

text \<open>An extension directory inside another one belongs to a root inside the other's root.\<close>

lemma nested_extension:
  assumes "extension_at n ks fs roots (root @ [Normal kind, Normal name] @ q)" and "q \<noteq> []"
  shows "\<exists>x xs. root @ x # xs \<in> set roots"
proof -
  obtain root' kind' c where root': "root' \<in> set roots"
    and eq: "root @ [Normal kind, Normal name] @ q = root' @ [Normal kind', c]"
    using assms(1) by (auto simp: extension_at_def)
  obtain q' c' where q: "q = q' @ [c']" using assms(2) by (cases q rule: rev_cases) auto
  with eq have inner: "root @ Normal kind # Normal name # q' = root' @ [Normal kind']" by simp
  show ?thesis
  proof (cases q' rule: rev_cases)
    case Nil
    with inner have "root' = root @ [Normal kind]" by simp
    with root' show ?thesis by blast
  next
    case (snoc r x)
    with inner have "root' = root @ Normal kind # Normal name # r" by simp
    with root' show ?thesis by blast
  qed
qed

text \<open>
  C39: The watcher and the discovery scan agree. Where a kind directory of a configured root exists, is
  listed and scanned, and no other configured root lies inside this one, the scan's result is
  sorted and holds only real directories of the listing; and for each real directory of the
  listing, a changed path is attributed to it exactly when the scan has it in its result and the
  path is the directory itself or lies below it, however deep.
\<close>

theorem scan_agrees_with_watcher:
  assumes "scan_kind_dir fs (root @ [Normal kind]) = Inr dirs"
    and "fs_exists fs (root @ [Normal kind])" and "fs_read_dir fs (root @ [Normal kind]) = Inr entries"
    and "root \<in> set roots" and "kind \<in> set kind_dirs" and "\<nexists>x xs. root @ x # xs \<in> set roots"
  shows "sorted dirs \<and>
    (\<forall>d\<in>set dirs. \<exists>name. Inr name \<in> set entries \<and> d = root @ [Normal kind, Normal name] \<and>
       fs_lstat fs d = Inr Directory) \<and>
    (\<forall>name p. Inr name \<in> set entries \<and> fs_lstat fs (root @ [Normal kind, Normal name]) = Inr Directory \<longrightarrow>
       (find_extension_dir ''describe.json'' kind_dirs fs roots p = Some (root @ [Normal kind, Normal name]) \<longleftrightarrow>
          root @ [Normal kind, Normal name] \<in> set dirs \<and>
          (\<exists>rest. p = root @ [Normal kind, Normal name] @ rest \<and> RootDir \<notin> set rest)))"
proof (intro conjI ballI allI impI)
  note scan = scan_kind_dir_set [OF assms(1-3)]
  show "sorted dirs" by (rule scan_kind_dir_sorted [OF assms(1)])
  show "\<exists>name. Inr name \<in> set entries \<and> d = root @ [Normal kind, Normal name] \<and> fs_lstat fs d = Inr Directory"
    if "d \<in> set dirs" for d
    using that by (auto simp: scan)
  fix name p
  let ?d = "root @ [Normal kind, Normal name]"
  assume real: "Inr name \<in> set entries \<and> fs_lstat fs ?d = Inr Directory"
  then have listed: "?d \<in> set dirs \<longleftrightarrow> extension_at ''describe.json'' kind_dirs fs roots ?d"
    using assms(4,5) by (auto simp: scan extension_at_def)
  have "\<not> extension_at ''describe.json'' kind_dirs fs roots (?d @ q)" if "q \<noteq> []" for q
    using nested_extension [of "''describe.json''" kind_dirs fs roots root kind name q] that assms(6) by auto
  then show "find_extension_dir ''describe.json'' kind_dirs fs roots p = Some ?d \<longleftrightarrow>
      ?d \<in> set dirs \<and> (\<exists>rest. p = root @ [Normal kind, Normal name] @ rest \<and> RootDir \<notin> set rest)"
    unfolding find_extension_dir_iff listed by auto
qed

definition tree_fs :: filesystem where
  "tree_fs =
     \<lparr>fs_read = (\<lambda>_. Inr []),
      fs_lstat = (\<lambda>p. if length p = 3 then Inr Directory else Inr RegularFile),
      fs_read_dir = (\<lambda>p. Inr [Inr ''b'', Inr ''a'']),
      fs_exists = (\<lambda>p. True)\<rparr>"

lemma example_scan:
  "scan_kind_dir tree_fs [RootDir, Normal ''design''] =
     Inr [[RootDir, Normal ''design'', Normal ''a''], [RootDir, Normal ''design'', Normal ''b'']]"
  by code_simp

theorem scan_agrees_with_watcher_witness:
  "find_extension_dir ''describe.json'' [''design''] tree_fs [[RootDir]]
       [RootDir, Normal ''design'', Normal ''a'', Normal ''assets'', Normal ''icon'']
     = Some [RootDir, Normal ''design'', Normal ''a''] \<and>
   find_extension_dir ''describe.json'' [''design''] tree_fs [[RootDir]] [RootDir, Normal ''design'', Normal ''b'']
     \<noteq> Some [RootDir, Normal ''design'', Normal ''a'']"
proof -
  let ?d = "[RootDir] @ [Normal ''design'', Normal ''a'']"
  have fs: "fs_exists tree_fs ([RootDir] @ [Normal ''design''])"
    "fs_read_dir tree_fs ([RootDir] @ [Normal ''design'']) = Inr [Inr ''b'', Inr ''a'']"
    "fs_lstat tree_fs ?d = Inr Directory" by (simp_all add: tree_fs_def)
  have scan: "scan_kind_dir tree_fs ([RootDir] @ [Normal ''design'']) =
      Inr [[RootDir, Normal ''design'', Normal ''a''], [RootDir, Normal ''design'', Normal ''b'']]"
    using example_scan by simp
  have agree: "find_extension_dir ''describe.json'' [''design''] tree_fs [[RootDir]] p = Some ?d \<longleftrightarrow>
      (\<exists>rest. p = ?d @ rest \<and> RootDir \<notin> set rest)" for p
    using scan_agrees_with_watcher [OF scan fs(1,2), of "[[RootDir]]" "[''design'']"] fs(3) by simp
  show ?thesis
    using agree [of "[RootDir, Normal ''design'', Normal ''a'', Normal ''assets'', Normal ''icon'']"]
      agree [of "[RootDir, Normal ''design'', Normal ''b'']"] by simp
qed

end
