(* ===== verification/Reach.thy ===== *)
theory Reach
  imports Runtime
begin

text \<open>
  What holds of the runtime over any sequence of operations: a step relation over loads, filesystem
  events, removals and writes of other tools to the publisher-key store, the states it reaches, and
  the invariant that the published registry is the one derived from the loaded set. The lemmas
  show that eviction cannot fail, that what is loaded passed the gate, that a hot reload neither
  downgrades an extension nor changes its publisher, and which directories the watcher loads.
\<close>

section \<open>The registry is derived\<close>

text \<open>
  What the mutation paths rely on: the registry can be derived from the empty map, and when
  it can be derived from a map it can be derived from every part of it.
\<close>

locale derived_view =
  fixes derive :: "('k \<times> 'm) list \<Rightarrow> ('e, 'r) result"
  assumes derive_empty: "is_ok (derive [])"
    and derive_subset: "is_ok (derive m) \<Longrightarrow> set m' \<subseteq> set m \<Longrightarrow> is_ok (derive m')"
begin

lemma derive_filter: "derive m = Inr r \<Longrightarrow> \<exists>r'. derive (filter P m) = Inr r'"
  using derive_subset [of m "filter P m"] by (auto simp: is_ok_iff)

lemma derive_delete: "derive m = Inr r \<Longrightarrow> \<exists>r'. derive (AList.delete k m) = Inr r'"
  using derive_subset [of m "AList.delete k m"] set_delete_subset by (fastforce simp: is_ok_iff)

end

definition offers_parse :: "('v, 'r) semver_api \<Rightarrow> ('k, 't, 'w, 'c) loaded_extension \<Rightarrow> bool" where
  "offers_parse sv ext \<longleftrightarrow>
     list_all (\<lambda>cap. is_ok (parse_version sv (oc_version cap))) (d_offered (le_describe ext))"

lemma add_offers_is_ok: "is_ok (add_offers sv x ext reg) \<longleftrightarrow> offers_parse sv ext"
  unfolding add_offers_def offers_parse_def list_all_iff
  by (rule for_each_is_ok) (auto simp: is_ok_iff result_simps)

lemma rebuild_is_ok_iff:
  "is_ok (rebuild_registry sv m) \<longleftrightarrow> (\<forall>(x, ext) \<in> set m. offers_parse sv ext)"
  unfolding rebuild_registry_def by (rule for_each_is_ok) (auto simp: add_offers_is_ok)

interpretation registry_view: derived_view "rebuild_registry sv" for sv
  by unfold_locales (auto simp: rebuild_is_ok_iff)

text \<open>The bindings one extension contributes, and their concatenation in the map's order.\<close>

definition ext_bindings ::
  "('v, 'r) semver_api \<Rightarrow> string \<Rightarrow> ('k, 't, 'w, 'c) loaded_extension \<Rightarrow> ('v, 'k) offered_binding list" where
  "ext_bindings sv x ext =
     map (\<lambda>cap. \<lparr>ob_extension_id = x, ob_cap_id = oc_id cap,
        ob_version = projr (parse_version sv (oc_version cap)), ob_kind = le_kind ext, ob_export_path = []\<rparr>)
      (d_offered (le_describe ext))"

lemma for_each_adds:
  "for_each (\<lambda>cap registry. and_then (p cap) (\<lambda>v. Inr (add_offering registry (b cap v)))) caps reg = Inr reg'
   \<Longrightarrow> reg' = foldl add_offering reg (map (\<lambda>cap. b cap (projr (p cap))) caps)"
  by (induction caps arbitrary: reg) (auto simp: result_simps)

lemma projr_map_err: "is_ok r \<Longrightarrow> projr (map_err f r) = projr r"
  by (cases r) simp_all

lemma add_offers_bindings:
  assumes "add_offers sv x ext reg = Inr reg'"
  shows "reg' = foldl add_offering reg (ext_bindings sv x ext)"
proof -
  have "offers_parse sv ext" using assms add_offers_is_ok [of sv x ext reg] by simp
  then have "map (\<lambda>cap. \<lparr>ob_extension_id = x, ob_cap_id = oc_id cap, ob_version =
      projr (map_err (\<lambda>e. Wasmtime (''bad offered version: '' @ e)) (parse_version sv (oc_version cap))),
      ob_kind = le_kind ext, ob_export_path = []\<rparr>) (d_offered (le_describe ext)) = ext_bindings sv x ext"
    by (auto simp: ext_bindings_def offers_parse_def list_all_iff projr_map_err)
  with for_each_adds [OF assms [unfolded add_offers_def]] show ?thesis by simp
qed

lemma rebuild_bindings:
  assumes "rebuild_registry sv m = Inr reg"
  shows "reg = foldl add_offering registry_new (concat (map (\<lambda>(x, ext). ext_bindings sv x ext) m))"
proof -
  have "for_each (\<lambda>(x, ext). add_offers sv x ext) m reg0 = Inr reg \<Longrightarrow>
     reg = foldl add_offering reg0 (concat (map (\<lambda>(x, ext). ext_bindings sv x ext) m))" for reg0
    by (induction m arbitrary: reg0) (auto simp: and_then_Inr_iff dest!: add_offers_bindings)
  with assms show ?thesis by (simp add: rebuild_registry_def)
qed

lemma keys_distinct_foldl_add: "keys_distinct reg \<Longrightarrow> keys_distinct (foldl add_offering reg obs)"
  by (induction obs arbitrary: reg) (simp_all add: add_offering_def)

lemma mem_offerings_iff:
  "keys_distinct reg \<Longrightarrow> ob \<in> set (offerings reg) \<longleftrightarrow> (\<exists>c os. map_of reg c = Some os \<and> ob \<in> set os)"
  by (simp add: offerings_def mem_iff_map_of [symmetric]) force

lemma offerings_foldl_add: "set (offerings (foldl add_offering registry_new obs)) = set obs"
proof (rule set_eqI)
  fix ob
  have "keys_distinct (foldl add_offering registry_new obs)"
    by (rule keys_distinct_foldl_add) (simp add: registry_new_def)
  then show "ob \<in> set (offerings (foldl add_offering registry_new obs)) \<longleftrightarrow> ob \<in> set obs"
    by (auto simp: mem_offerings_iff map_of_foldl_add Let_def registry_new_def filter_empty_conv
        split: if_splits)
qed

lemma offerings_rebuilt:
  assumes "rebuild_registry sv m = Inr reg" and "keys_distinct m"
  shows "ob \<in> set (offerings reg) \<longleftrightarrow>
     (\<exists>ext cap. map_of m (ob_extension_id ob) = Some ext \<and> cap \<in> set (d_offered (le_describe ext)) \<and>
        ob_cap_id ob = oc_id cap \<and> parse_version sv (oc_version cap) = Inr (ob_version ob) \<and>
        ob_kind ob = le_kind ext \<and> ob_export_path ob = [])"
proof -
  have parses: "\<exists>v. parse_version sv (oc_version cap) = Inr v"
    if "(x, ext) \<in> set m" "cap \<in> set (d_offered (le_describe ext))" for x ext cap
    using that assms(1) rebuild_is_ok_iff [of sv m] by (auto simp: offers_parse_def list_all_iff is_ok_iff)
  have "ob \<in> set (offerings reg) \<longleftrightarrow> (\<exists>(x, ext) \<in> set m. ob \<in> set (ext_bindings sv x ext))"
    unfolding rebuild_bindings [OF assms(1)] offerings_foldl_add by auto
  also have "\<dots> \<longleftrightarrow> (\<exists>ext. (ob_extension_id ob, ext) \<in> set m \<and> (\<exists>cap\<in>set (d_offered (le_describe ext)).
        ob_cap_id ob = oc_id cap \<and> parse_version sv (oc_version cap) = Inr (ob_version ob) \<and>
        ob_kind ob = le_kind ext \<and> ob_export_path ob = []))"
    using parses by (cases ob) (fastforce simp: ext_bindings_def)
  finally show ?thesis by (auto simp: mem_iff_map_of [OF assms(2)])
qed

lemma offer_filed_under:
  assumes "rebuild_registry sv m = Inr reg" and "map_of reg c = Some os" and "ob \<in> set os"
  shows "ob_cap_id ob = c"
  using assms(2,3)
  by (auto simp: rebuild_bindings [OF assms(1)] map_of_foldl_add registry_new_def Let_def split: if_splits)

section \<open>Consistent states\<close>

text \<open>Loaded entries are filed under their own id, with the describe's kind.\<close>

definition filed :: "string \<times> ('k, 't, 'w, 'c) loaded_extension \<Rightarrow> bool" where
  "filed = (\<lambda>(x, ext). le_id ext = x \<and> d_id (le_describe ext) = x \<and> le_kind ext = d_kind (le_describe ext))"

definition consistent ::
  "('v, 'r) semver_api \<Rightarrow> ('k, 't, 'w, 'c, 'v, 'ts, 'ho) runtime \<Rightarrow> bool" where
  "consistent sv rt \<longleftrightarrow>
     keys_distinct (rn_loaded rt) \<and> list_all filed (rn_loaded rt) \<and>
     rebuild_registry sv (rn_loaded rt) = Inr (rn_registry rt)"

lemma mutate_loaded_cases:
  assumes "mutate_loaded sv rt edit = (r, rt')"
  obtains (refused) e where "r = Inl e" "rt' = rt" "rebuild_registry sv (snd (edit (rn_loaded rt))) = Inl e"
  | (published) registry where "r = Inr (fst (edit (rn_loaded rt)))"
      "rebuild_registry sv (snd (edit (rn_loaded rt))) = Inr registry"
      "rt' = rt\<lparr>rn_loaded := snd (edit (rn_loaded rt)), rn_registry := registry\<rparr>"
  using assms by (auto simp: mutate_loaded_def case_prod_beta Let_def split: sum.splits)

lemma mutate_consistent:
  assumes "mutate_loaded sv rt edit = (r, rt')" and "consistent sv rt"
    and "keys_distinct (snd (edit (rn_loaded rt)))" and "list_all filed (snd (edit (rn_loaded rt)))"
  shows "consistent sv rt'"
  using assms(1) by (rule mutate_loaded_cases) (use assms(2-) in \<open>auto simp: consistent_def\<close>)

lemma consistent_emit [simp]: "consistent sv (emit rt ev) \<longleftrightarrow> consistent sv rt"
  by (simp add: consistent_def emit_def)

lemma emit_fields [simp]:
  "rn_loaded (emit rt ev) = rn_loaded rt" "rn_registry (emit rt ev) = rn_registry rt"
  "rn_config (emit rt ev) = rn_config rt" "rn_trust (emit rt ev) = rn_trust rt"
  "rn_events (emit rt ev) = rn_events rt @ [ev]"
  by (simp_all add: emit_def)

lemma filed_update:
  assumes "list_all filed m" and "filed (x, ext)"
  shows "list_all filed (AList.update x ext m)"
  using assms set_update_subset [of x ext m] by (auto simp: list_all_iff)

lemma filed_delete: "list_all filed m \<Longrightarrow> list_all filed (AList.delete x m)"
  using set_delete_subset [of x m] by (auto simp: list_all_iff)

lemma verify_and_load_ok:
  assumes "verify_and_load api rt mo dir = (r, rt1)"
  shows "rt1 = rt\<lparr>rn_trust := rn_trust rt1\<rparr>"
    and "rn_trust rt1 = snd (verify_dir_signature (ra_env api) (ra_host api) (rn_config rt) (mo_gate mo) (rn_trust rt) dir)"
    and "r = Inr ext \<Longrightarrow> \<exists>L. verify_dir_signature (ra_env api) (ra_host api) (rn_config rt) (mo_gate mo) (rn_trust rt) dir
            = (Inr (le_describe ext, L), rn_trust rt1) \<and>
          from_verified (ra_env api) (ra_compile api) (ra_dbg api) (mo_load mo) dir (le_describe ext) L = Inr ext \<and>
          filed (le_id ext, ext) \<and> le_source_dir ext = dir"
proof -
  show "rt1 = rt\<lparr>rn_trust := rn_trust rt1\<rparr>"
    and "rn_trust rt1 = snd (verify_dir_signature (ra_env api) (ra_host api) (rn_config rt) (mo_gate mo) (rn_trust rt) dir)"
    using assms by (auto simp: verify_and_load_def case_prod_beta Let_def)
next
  assume "r = Inr ext"
  with assms obtain d L where gate: "verify_dir_signature (ra_env api) (ra_host api) (rn_config rt)
        (mo_gate mo) (rn_trust rt) dir = (Inr (d, L), rn_trust rt1)"
    and load: "from_verified (ra_env api) (ra_compile api) (ra_dbg api) (mo_load mo) dir d L = Inr ext"
    by (auto simp: verify_and_load_def case_prod_beta Let_def result_simps prod_eq_iff)
  from from_verified_fields [OF load] gate load
  show "\<exists>L. verify_dir_signature (ra_env api) (ra_host api) (rn_config rt) (mo_gate mo) (rn_trust rt) dir
            = (Inr (le_describe ext, L), rn_trust rt1) \<and>
          from_verified (ra_env api) (ra_compile api) (ra_dbg api) (mo_load mo) dir (le_describe ext) L = Inr ext \<and>
          filed (le_id ext, ext) \<and> le_source_dir ext = dir"
    by (auto simp: filed_def)
qed

text \<open>What a load attempt does: nothing but writing the trust store, or one update of the map.\<close>

definition trust_only ::
  "('k, 't, 'w, 'c, 'v, 'ts, 'ho) runtime \<Rightarrow> ('k, 't, 'w, 'c, 'v, 'ts, 'ho) runtime \<Rightarrow> bool" where
  "trust_only rt rt' \<longleftrightarrow> rt' = rt\<lparr>rn_trust := rn_trust rt'\<rparr>"

lemma trust_only_fields:
  "trust_only rt rt' \<Longrightarrow> rn_loaded rt' = rn_loaded rt \<and> rn_registry rt' = rn_registry rt \<and>
     rn_events rt' = rn_events rt \<and> rn_config rt' = rn_config rt"
  by (cases rt; cases rt') (simp add: trust_only_def)

lemma register_cases:
  assumes "register_loaded_from_dir api rt mo dir = (r, rt')"
  obtains (failed) e where "r = Inl e" "trust_only rt rt'"
      "rn_trust rt' = snd (verify_dir_signature (ra_env api) (ra_host api) (rn_config rt) (mo_gate mo) (rn_trust rt) dir)"
  | (installed) ext rt1 registry where "verify_and_load api rt mo dir = (Inr ext, rt1)"
      "rebuild_registry (ra_semver api) (AList.update (le_id ext) ext (rn_loaded rt)) = Inr registry"
      "rt' = rt\<lparr>rn_trust := rn_trust rt1, rn_loaded := AList.update (le_id ext) ext (rn_loaded rt),
                rn_registry := registry, rn_events := rn_events rt @ [ExtensionInstalled (le_id ext)]\<rparr>"
      "r = Inr ()"
proof -
  obtain v rt1 where load: "verify_and_load api rt mo dir = (v, rt1)" by fastforce
  note l = verify_and_load_ok [OF load]
  show thesis
  proof (cases v)
    case (Inl e)
    with assms load l(1,2) show thesis
      by (intro failed [of e]) (auto simp: register_loaded_from_dir_def trust_only_def)
  next
    case (Inr ext)
    obtain u rt2 where mut: "mutate_loaded (ra_semver api) rt1 (\<lambda>m. ((), AList.update (le_id ext) ext m)) = (u, rt2)"
      by fastforce
    have rt1: "rt1 = rt\<lparr>rn_trust := rn_trust rt1\<rparr>" by (fact l(1))
    from mut show thesis
    proof (cases rule: mutate_loaded_cases)
      case (refused e)
      with assms load Inr mut l(1,2) show thesis
        by (intro failed [of e]) (auto simp: register_loaded_from_dir_def trust_only_def)
    next
      case (published registry)
      moreover have "rn_loaded rt1 = rn_loaded rt" "rn_events rt1 = rn_events rt"
        by (subst rt1, simp)+
      moreover have "rt' = emit rt2 (ExtensionInstalled (le_id ext))" "r = Inr ()"
        using assms load Inr mut published(1) by (auto simp: register_loaded_from_dir_def)
      ultimately show thesis
        using load Inr by (intro installed) (auto simp: emit_def, subst rt1, simp)
    qed
  qed
qed

lemma reload_edit_cases:
  obtains (refuse) e where "reload_edit sv ext m = (RefusedDowngrade (d_version (le_describe e)), m)"
      "map_of m (le_id ext) = Some e" "is_downgrade sv (d_version (le_describe e)) (d_version (le_describe ext))"
  | (accept) k where "reload_edit sv ext m = (k, AList.update (le_id ext) ext m)"
      "\<And>prev. k \<noteq> RefusedDowngrade prev"
      "\<And>e. map_of m (le_id ext) = Some e \<Longrightarrow>
         \<not> is_downgrade sv (d_version (le_describe e)) (d_version (le_describe ext))"
proof (cases "map_of m (le_id ext)")
  case None
  then show thesis by (intro accept [of Installed]) (simp_all add: reload_edit_def)
next
  case (Some e)
  show thesis
  proof (cases "is_downgrade sv (d_version (le_describe e)) (d_version (le_describe ext))")
    case True
    with Some show thesis by (intro refuse [of e]) (simp_all add: reload_edit_def)
  next
    case False
    with Some show thesis
      by (intro accept [of "Updated (d_version (le_describe e))"]) (simp_all add: reload_edit_def)
  qed
qed

lemma reload_cases:
  assumes "handle_added_or_modified api rt mo dir = (r, rt')" and "consistent (ra_semver api) rt"
  obtains (failed) e where "r = Inl e" "trust_only rt rt'"
      "rn_trust rt' = snd (verify_dir_signature (ra_env api) (ra_host api) (rn_config rt) (mo_gate mo) (rn_trust rt) dir)"
  | (installed) ext rt1 registry ev where "verify_and_load api rt mo dir = (Inr ext, rt1)"
      "rebuild_registry (ra_semver api) (AList.update (le_id ext) ext (rn_loaded rt)) = Inr registry"
      "rt' = rt\<lparr>rn_trust := rn_trust rt1, rn_loaded := AList.update (le_id ext) ext (rn_loaded rt),
                rn_registry := registry, rn_events := rn_events rt @ [ev]\<rparr>"
      "r = Inr ()"
      "\<And>e. map_of (rn_loaded rt) (le_id ext) = Some e \<Longrightarrow>
         \<not> is_downgrade (ra_semver api) (d_version (le_describe e)) (d_version (le_describe ext))"
proof -
  obtain v rt1 where load: "verify_and_load api rt mo dir = (v, rt1)" by fastforce
  note l = verify_and_load_ok [OF load]
  have rt1: "rt1 = rt\<lparr>rn_trust := rn_trust rt1\<rparr>" by (fact l(1))
  have same: "rn_loaded rt1 = rn_loaded rt" "rn_events rt1 = rn_events rt" "rn_registry rt1 = rn_registry rt"
    by (subst rt1, simp)+
  show thesis
  proof (cases v)
    case (Inl e)
    with assms load l(1,2) show thesis
      by (intro failed [of e]) (auto simp: handle_added_or_modified_def trust_only_def)
  next
    case (Inr ext)
    obtain u rt2 where mut: "mutate_loaded (ra_semver api) rt1 (reload_edit (ra_semver api) ext) = (u, rt2)"
      by fastforce
    from mut show thesis
    proof (cases rule: mutate_loaded_cases)
      case (refused e)
      with assms load Inr mut l(1,2) show thesis
        by (intro failed [of e]) (auto simp: handle_added_or_modified_def trust_only_def)
    next
      case (published registry)
      show thesis
      proof (cases rule: reload_edit_cases [of "ra_semver api" ext "rn_loaded rt"])
        case (refuse e)
        with published same assms(2) have "rt2 = rt1" by (simp add: consistent_def)
        with refuse published same assms load Inr mut l(1,2) show thesis
          by (intro failed [of "SignatureInvalid (le_id ext)
                (downgrade_text (d_version (le_describe e)) (d_version (le_describe ext)))"])
            (auto simp: handle_added_or_modified_def trust_only_def)
      next
        case (accept k)
        obtain ev where "r = Inr ()" "rt' = emit rt2 ev"
          using assms(1) load Inr mut published(1) accept(1,2) same
          by (cases k) (auto simp: handle_added_or_modified_def)
        moreover have "rt2 = rt\<lparr>rn_trust := rn_trust rt1, rn_loaded := AList.update (le_id ext) ext (rn_loaded rt),
            rn_registry := registry\<rparr>"
          using published(3) accept(1) same by (subst (asm) rt1) simp
        ultimately show thesis
          using load Inr published accept same
          by (intro installed [of ext rt1 registry ev]) (auto simp: emit_def)
      qed
    qed
  qed
qed

section \<open>Eviction\<close>

lemma consistent_delete:
  assumes "consistent sv rt"
  obtains registry where "rebuild_registry sv (AList.delete x (rn_loaded rt)) = Inr registry"
    "consistent sv (rt\<lparr>rn_loaded := AList.delete x (rn_loaded rt), rn_registry := registry\<rparr>)"
proof -
  from assms have inv: "keys_distinct (rn_loaded rt)" "list_all filed (rn_loaded rt)"
    "rebuild_registry sv (rn_loaded rt) = Inr (rn_registry rt)" by (simp_all add: consistent_def)
  from registry_view.derive_delete [OF inv(3)] obtain registry where
    "rebuild_registry sv (AList.delete x (rn_loaded rt)) = Inr registry" by blast
  with inv filed_delete [OF inv(2)] show thesis by (intro that [of registry]) (simp_all add: consistent_def)
qed

lemma evict_consistent:
  assumes "consistent sv rt"
  shows "consistent sv (evict sv rt x)"
    and "rn_loaded (evict sv rt x) = AList.delete x (rn_loaded rt)"
    and "rn_events (evict sv rt x) =
           rn_events rt @ (if map_of (rn_loaded rt) x = None then [] else [ExtensionRemoved x])"
    and "rn_config (evict sv rt x) = rn_config rt" and "rn_trust (evict sv rt x) = rn_trust rt"
  using assms
  by (rule consistent_delete [of sv rt x],
      cases "map_of (rn_loaded rt) x",
      simp_all add: evict_def mutate_loaded_def report_eviction_def Let_def)+

lemma evict_many:
  "consistent sv rt \<Longrightarrow> distinct xs \<Longrightarrow> set xs \<subseteq> dom (map_of (rn_loaded rt)) \<Longrightarrow>
     consistent sv (foldl (evict sv) rt xs) \<and>
     rn_loaded (foldl (evict sv) rt xs) = filter (\<lambda>p. fst p \<notin> set xs) (rn_loaded rt) \<and>
     rn_events (foldl (evict sv) rt xs) = rn_events rt @ map ExtensionRemoved xs \<and>
     rn_config (foldl (evict sv) rt xs) = rn_config rt \<and> rn_trust (foldl (evict sv) rt xs) = rn_trust rt"
proof (induction xs arbitrary: rt)
  case (Cons x xs)
  note e = evict_consistent [OF Cons.prems(1), of x]
  have "set xs \<subseteq> dom (map_of (rn_loaded (evict sv rt x)))"
    using Cons.prems(2,3) by (auto simp: e(2))
  from Cons.IH [OF e(1) _ this] Cons.prems(2,3) e(2-) show ?case
    by (auto simp: AList.delete_eq filter_filter intro!: filter_cong)
qed (simp add: filter_True)

lemma evict_vanished_exact:
  assumes "consistent sv rt"
  shows "consistent sv (evict_vanished_extensions sv fs rt) \<and>
     rn_loaded (evict_vanished_extensions sv fs rt) =
       filter (\<lambda>(x, ext). \<not> has_vanished fs (le_source_dir ext)) (rn_loaded rt) \<and>
     rn_events (evict_vanished_extensions sv fs rt) = rn_events rt @
       map (ExtensionRemoved \<circ> fst) (filter (\<lambda>(x, ext). has_vanished fs (le_source_dir ext)) (rn_loaded rt)) \<and>
     rn_config (evict_vanished_extensions sv fs rt) = rn_config rt \<and>
     rn_trust (evict_vanished_extensions sv fs rt) = rn_trust rt"
proof -
  let ?gone = "filter (\<lambda>(x, ext). has_vanished fs (le_source_dir ext)) (rn_loaded rt)"
  have dist: "distinct (map fst (rn_loaded rt))" using assms by (simp add: consistent_def keys_distinct_def)
  then have d: "distinct (map fst ?gone)" by (rule distinct_map_filter)
  have sub: "set (map fst ?gone) \<subseteq> dom (map_of (rn_loaded rt))"
    by (auto simp: dom_map_of_conv_image_fst)
  have "filter (\<lambda>p. fst p \<notin> set (map fst ?gone)) (rn_loaded rt) =
      filter (\<lambda>(x, ext). \<not> has_vanished fs (le_source_dir ext)) (rn_loaded rt)"
    using dist by (intro filter_cong) (auto dest: eq_key_imp_eq_value)
  with evict_many [OF assms d sub] show ?thesis
    by (simp add: evict_vanished_extensions_def Let_def)
qed

lemma removal_evicts:
  assumes "consistent sv rt"
  shows "handle_removal sv rt dir =
    (case List.find (\<lambda>(x, e). le_source_dir e = dir) (rn_loaded rt) of
       None \<Rightarrow> rt | Some (x, e) \<Rightarrow> evict sv rt x)"
proof (cases "List.find (\<lambda>(x, e). le_source_dir e = dir) (rn_loaded rt)")
  case None
  with assms show ?thesis
    by (simp add: handle_removal_def mutate_loaded_def report_eviction_def consistent_def Let_def)
next
  case (Some p)
  obtain x e where p: "p = (x, e)" by fastforce
  with Some have "(x, e) \<in> set (rn_loaded rt)" by (metis find_Some_iff nth_mem)
  with assms have "map_of (rn_loaded rt) x = Some e" by (simp add: consistent_def mem_iff_map_of)
  with Some p show ?thesis
    by (simp add: handle_removal_def evict_def mutate_loaded_def Let_def case_prod_beta split: sum.splits)
qed

section \<open>Steps\<close>

text \<open>
  One step of the runtime or of its surroundings. Another tool may write the key store at any
  time, as long as it keeps the records made.
\<close>

definition pins_kept :: "('ts \<Rightarrow> path \<Rightarrow> string \<Rightarrow> string option) \<Rightarrow> 'ts \<Rightarrow> 'ts \<Rightarrow> bool" where
  "pins_kept pinned ts ts' \<longleftrightarrow>
     (\<forall>root x k. pinned ts root x = Some k \<longrightarrow> pinned ts' root x = Some k)"

inductive rt_step ::
  "('j, 'k, 't, 'w, 'ts, 'v::linorder, 'r, 'c) runtime_api \<Rightarrow> ('ts \<Rightarrow> path \<Rightarrow> string \<Rightarrow> string option)
   \<Rightarrow> ('k, 't, 'w, 'c, 'v, 'ts, 'ho) runtime \<Rightarrow> ('k, 't, 'w, 'c, 'v, 'ts, 'ho) runtime \<Rightarrow> bool"
  for api pinned where
  register: "register_loaded_from_dir api rt mo dir = (r, rt') \<Longrightarrow> rt_step api pinned rt rt'"
| reload: "handle_added_or_modified api rt mo dir = (r, rt') \<Longrightarrow> rt_step api pinned rt rt'"
| fs_event: "handle_fs_event api rt mo event = (r, rt') \<Longrightarrow> rt_step api pinned rt rt'"
| removal: "rt_step api pinned rt (handle_removal (ra_semver api) rt dir)"
| others: "pins_kept pinned (rn_trust rt) ts \<Longrightarrow> rt_step api pinned rt (rt\<lparr>rn_trust := ts\<rparr>)"

inductive reachable ::
  "('j, 'k, 't, 'w, 'ts, 'v::linorder, 'r, 'c) runtime_api \<Rightarrow> ('ts \<Rightarrow> path \<Rightarrow> string \<Rightarrow> string option)
   \<Rightarrow> ('k, 't, 'w, 'c, 'v, 'ts, 'ho) runtime \<Rightarrow> bool"
  for api pinned where
  start: "reachable api pinned (runtime_new cfg ts)"
| overrides: "reachable api pinned rt \<Longrightarrow> reachable api pinned (runtime_with_host_overrides rt ov)"
| step: "reachable api pinned rt \<Longrightarrow> rt_step api pinned rt rt' \<Longrightarrow> reachable api pinned rt'"

inductive_cases rt_stepE: "rt_step api pinned rt rt'"

text \<open>How a step may change the store, and its three effects on the loaded map.\<close>

definition trust_change ::
  "('j, 'k, 't, 'w, 'ts, 'v, 'r, 'c) runtime_api \<Rightarrow> ('ts \<Rightarrow> path \<Rightarrow> string \<Rightarrow> string option)
   \<Rightarrow> ('k, 't, 'w, 'c, 'v, 'ts, 'ho) runtime \<Rightarrow> 'ts \<Rightarrow> bool" where
  "trust_change api pinned rt ts \<longleftrightarrow> pins_kept pinned (rn_trust rt) ts \<or>
     (\<exists>fs dir. ts = snd (verify_dir_signature (ra_env api) (ra_host api) (rn_config rt) fs (rn_trust rt) dir))"

definition same_loaded ::
  "('k, 't, 'w, 'c, 'v, 'ts, 'ho) runtime \<Rightarrow> ('k, 't, 'w, 'c, 'v, 'ts, 'ho) runtime \<Rightarrow> bool" where
  "same_loaded rt rt' \<longleftrightarrow> rn_loaded rt' = rn_loaded rt \<and> rn_registry rt' = rn_registry rt \<and>
     rn_config rt' = rn_config rt"

definition loads ::
  "('j, 'k, 't, 'w, 'ts, 'v, 'r, 'c) runtime_api \<Rightarrow> ('k, 't, 'w, 'c, 'v, 'ts, 'ho) runtime
   \<Rightarrow> ('k, 't, 'w, 'c) loaded_extension \<Rightarrow> ('k, 't, 'w, 'c, 'v, 'ts, 'ho) runtime \<Rightarrow> bool" where
  "loads api rt ext rt' \<longleftrightarrow>
     (\<exists>mo dir rt1. verify_and_load api rt mo dir = (Inr ext, rt1) \<and> rn_trust rt' = rn_trust rt1 \<and>
        rn_loaded rt' = AList.update (le_id ext) ext (rn_loaded rt) \<and>
        rebuild_registry (ra_semver api) (rn_loaded rt') = Inr (rn_registry rt') \<and>
        rn_config rt' = rn_config rt)"

definition drops ::
  "('v, 'r) semver_api \<Rightarrow> ('k, 't, 'w, 'c, 'v, 'ts, 'ho) runtime
   \<Rightarrow> ('k, 't, 'w, 'c, 'v, 'ts, 'ho) runtime \<Rightarrow> bool" where
  "drops sv rt rt' \<longleftrightarrow> set (rn_loaded rt') \<subseteq> set (rn_loaded rt) \<and> consistent sv rt' \<and>
     rn_config rt' = rn_config rt \<and> rn_trust rt' = rn_trust rt"

lemma pins_kept_refl [simp]: "pins_kept pinned ts ts"
  by (simp add: pins_kept_def)

lemma trust_only_same: "trust_only rt rt' \<Longrightarrow> same_loaded rt rt'"
  using trust_only_fields [of rt rt'] by (simp add: same_loaded_def)

lemma evict_drops: "consistent sv rt \<Longrightarrow> drops sv rt (evict sv rt x)"
  using evict_consistent [of sv rt x] set_delete_subset [of x "rn_loaded rt"] by (auto simp: drops_def)

lemma reload_effect:
  assumes "handle_added_or_modified api rt mo dir = (r, rt')" and "consistent (ra_semver api) rt"
  shows "(same_loaded rt rt' \<and> trust_change api pinned rt (rn_trust rt')) \<or> (\<exists>ext. loads api rt ext rt')"
  using assms
proof (cases rule: reload_cases)
  case (failed e)
  then show ?thesis by (auto simp: trust_only_same trust_change_def)
next
  case (installed ext rt1 registry ev)
  then have "loads api rt ext rt'" by (auto simp: loads_def)
  then show ?thesis by blast
qed

lemma step_effect:
  assumes "rt_step api pinned rt rt'" and "consistent (ra_semver api) rt"
  shows "(same_loaded rt rt' \<and> trust_change api pinned rt (rn_trust rt')) \<or>
    (\<exists>ext. loads api rt ext rt') \<or> drops (ra_semver api) rt rt'"
  using assms(1)
proof (cases rule: rt_step.cases)
  case (register mo dir r)
  then show ?thesis
  proof (cases rule: register_cases)
    case (failed e)
    then show ?thesis by (auto simp: trust_only_same trust_change_def)
  next
    case (installed ext rt1 registry)
    then have "loads api rt ext rt'" by (auto simp: loads_def)
    then show ?thesis by blast
  qed
next
  case (reload mo dir r)
  with reload_effect [OF reload assms(2)] show ?thesis by blast
next
  case (fs_event mo event r)
  have stay: "same_loaded rt rt \<and> trust_change api pinned rt (rn_trust rt)"
    by (simp add: same_loaded_def trust_change_def)
  have state: "same_loaded rt (emit rt ev) \<and> trust_change api pinned rt (rn_trust (emit rt ev))" for ev
    by (simp add: same_loaded_def trust_change_def)
  have gone: "drops (ra_semver api) rt (evict_vanished_extensions (ra_semver api) fs rt)" for fs
    using evict_vanished_exact [OF assms(2)] by (auto simp: drops_def)
  from fs_event have "rt' = emit rt StateFileChanged \<or> rt' = rt \<or>
      rt' = evict_vanished_extensions (ra_semver api) (mo_find mo) rt \<or>
      (\<exists>dir. handle_added_or_modified api rt mo dir = (r, rt'))"
    by (auto simp: handle_fs_event_def Let_def split: if_splits fs_event.splits option.splits)
  then show ?thesis using stay state gone reload_effect [OF _ assms(2)] by blast
next
  case (removal dir)
  have "drops (ra_semver api) rt rt" using assms(2) by (simp add: drops_def)
  with removal evict_drops [OF assms(2)] show ?thesis
    by (auto simp: removal_evicts [OF assms(2)] split: option.splits)
next
  case (others ts)
  then show ?thesis by (simp add: same_loaded_def trust_change_def)
qed

section \<open>Invariants\<close>

text \<open>A loaded extension passed the gate at some moment and was built at another.\<close>

definition passed_gate ::
  "('j, 'k, 't, 'w, 'ts, 'v, 'r, 'c) runtime_api \<Rightarrow> 'ho runtime_config
   \<Rightarrow> ('k, 't, 'w, 'c) loaded_extension \<Rightarrow> bool" where
  "passed_gate api cfg ext \<longleftrightarrow>
     (\<exists>gate_fs load_fs ts ts' L.
        verify_dir_signature (ra_env api) (ra_host api) cfg gate_fs ts (le_source_dir ext)
          = (Inr (le_describe ext, L), ts') \<and>
        from_verified (ra_env api) (ra_compile api) (ra_dbg api) load_fs (le_source_dir ext) (le_describe ext) L
          = Inr ext)"

text \<open>The publisher key of a loaded extension is the one recorded for its id.\<close>

definition anchored ::
  "('j, 'k, 't, 'w, 'ts, 'v, 'r, 'c) runtime_api \<Rightarrow> ('ts \<Rightarrow> path \<Rightarrow> string \<Rightarrow> string option)
   \<Rightarrow> 'ho runtime_config \<Rightarrow> 'ts \<Rightarrow> ('k, 't, 'w, 'c) loaded_extension \<Rightarrow> bool" where
  "anchored api pinned cfg ts ext \<longleftrightarrow>
     (\<exists>root key. resolve_trust_root (ra_host api) cfg = Inr root \<and>
        d_public_key (le_describe ext) = Some key \<and> pinned ts root (le_id ext) = Some key)"

lemma loads_facts:
  assumes "loads api rt ext rt'" and "consistent (ra_semver api) rt"
  shows "consistent (ra_semver api) rt'" and "passed_gate api (rn_config rt) ext"
    and "set (rn_loaded rt') \<subseteq> insert (le_id ext, ext) (set (rn_loaded rt))"
    and "rn_config rt' = rn_config rt"
    and "tofu_store (ra_env api) pinned \<Longrightarrow> \<not> he_allow_unsigned (ra_host api)
         \<Longrightarrow> anchored api pinned (rn_config rt) (rn_trust rt') ext"
    and "tofu_store (ra_env api) pinned \<Longrightarrow> pins_kept pinned (rn_trust rt) (rn_trust rt')"
proof -
  from assms(1) obtain mo dir rt1 where load: "verify_and_load api rt mo dir = (Inr ext, rt1)"
    and trust: "rn_trust rt' = rn_trust rt1"
    and map: "rn_loaded rt' = AList.update (le_id ext) ext (rn_loaded rt)"
    and reg: "rebuild_registry (ra_semver api) (rn_loaded rt') = Inr (rn_registry rt')"
    and cfg: "rn_config rt' = rn_config rt" by (auto simp: loads_def)
  from verify_and_load_ok(3) [OF load refl] obtain L where
    gate: "verify_dir_signature (ra_env api) (ra_host api) (rn_config rt) (mo_gate mo) (rn_trust rt) dir
            = (Inr (le_describe ext, L), rn_trust rt')"
    and built: "from_verified (ra_env api) (ra_compile api) (ra_dbg api) (mo_load mo) dir (le_describe ext) L = Inr ext"
    and ext: "filed (le_id ext, ext)" "le_source_dir ext = dir" by (auto simp: trust)
  show "passed_gate api (rn_config rt) ext"
    unfolding passed_gate_def ext(2) using gate built by (intro exI conjI)
  show "consistent (ra_semver api) rt'"
    using assms(2) reg ext(1) by (simp add: consistent_def map filed_update)
  show "set (rn_loaded rt') \<subseteq> insert (le_id ext, ext) (set (rn_loaded rt))"
    unfolding map by (rule set_update_subset)
  show "rn_config rt' = rn_config rt" by (fact cfg)
  show "anchored api pinned (rn_config rt) (rn_trust rt') ext"
    if "tofu_store (ra_env api) pinned" "\<not> he_allow_unsigned (ra_host api)"
    using gate_pins_accepted [OF that gate] ext(1) by (auto simp: anchored_def filed_def)
  show "pins_kept pinned (rn_trust rt) (rn_trust rt')" if "tofu_store (ra_env api) pinned"
    using gate_keeps_pins [OF that] gate by (metis pins_kept_def snd_conv)
qed

lemma trust_change_keeps:
  "tofu_store (ra_env api) pinned \<Longrightarrow> trust_change api pinned rt ts \<Longrightarrow> pins_kept pinned (rn_trust rt) ts"
  using gate_keeps_pins [of "ra_env api" pinned] by (auto simp: trust_change_def pins_kept_def)

lemma step_consistent:
  assumes "rt_step api pinned rt rt'" and "consistent (ra_semver api) rt"
  shows "consistent (ra_semver api) rt'" and "rn_config rt' = rn_config rt"
proof -
  note l = loads_facts(1,4) [OF _ assms(2)]
  show "consistent (ra_semver api) rt'"
    using step_effect [OF assms] assms(2) l(1) by (auto simp: same_loaded_def consistent_def drops_def)
  show "rn_config rt' = rn_config rt"
    using step_effect [OF assms] l(2) by (auto simp: same_loaded_def drops_def)
qed

lemma step_mem:
  assumes "rt_step api pinned rt rt'" and "consistent (ra_semver api) rt" and "(x, ext) \<in> set (rn_loaded rt')"
  shows "(x, ext) \<in> set (rn_loaded rt) \<or> (loads api rt ext rt' \<and> x = le_id ext)"
  using step_effect [OF assms(1,2)] assms(3) loads_facts(3) [OF _ assms(2)]
  by (auto simp: same_loaded_def drops_def)

lemma step_pins:
  assumes "rt_step api pinned rt rt'" and "consistent (ra_semver api) rt" and "tofu_store (ra_env api) pinned"
  shows "pins_kept pinned (rn_trust rt) (rn_trust rt')"
  using step_effect [OF assms(1,2)] loads_facts(6) [OF _ assms(2,3)] trust_change_keeps [OF assms(3)]
  by (auto simp: drops_def)

text \<open>The load gate does not read the host overrides.\<close>

lemma trust_root_overrides [simp]:
  "resolve_trust_root he (with_host_overrides cfg ov) = resolve_trust_root he cfg"
  by (simp add: resolve_trust_root_def with_host_overrides_def)

lemma gate_overrides [simp]:
  "verify_dir_signature env he (with_host_overrides cfg ov) = verify_dir_signature env he cfg"
  by (intro ext) (unfold verify_dir_signature_def integrity_checks_def trust_root_overrides, rule refl)

lemma overrides_irrelevant:
  "passed_gate api (with_host_overrides cfg ov) ext \<longleftrightarrow> passed_gate api cfg ext"
  "anchored api pinned (with_host_overrides cfg ov) ts ext \<longleftrightarrow> anchored api pinned cfg ts ext"
  by (simp_all add: passed_gate_def anchored_def)

lemma reachable_is_consistent: "reachable api pinned rt \<Longrightarrow> consistent (ra_semver api) rt"
proof (induction rule: reachable.induct)
  case (start cfg ts)
  show ?case by (simp add: consistent_def runtime_new_def rebuild_registry_def)
next
  case (overrides rt ov)
  then show ?case by (simp add: consistent_def runtime_with_host_overrides_def)
next
  case (step rt rt')
  then show ?case by (blast intro: step_consistent)
qed

lemma reachable_passed_gate:
  "reachable api pinned rt \<Longrightarrow> (x, ext) \<in> set (rn_loaded rt) \<Longrightarrow> passed_gate api (rn_config rt) ext"
proof (induction arbitrary: x ext rule: reachable.induct)
  case (start cfg ts)
  then show ?case by (simp add: runtime_new_def)
next
  case (overrides rt ov)
  then show ?case by (simp add: runtime_with_host_overrides_def overrides_irrelevant)
next
  case (step rt rt')
  note c = reachable_is_consistent [OF step.hyps(1)]
  from step_mem [OF step.hyps(2) c step.prems] step.IH loads_facts(2) [OF _ c]
    step_consistent(2) [OF step.hyps(2) c]
  show ?case by auto
qed

lemma anchored_mono: "anchored api pinned cfg ts ext \<Longrightarrow> pins_kept pinned ts ts' \<Longrightarrow> anchored api pinned cfg ts' ext"
  by (auto simp: anchored_def pins_kept_def)

lemma reachable_anchored:
  assumes "tofu_store (ra_env api) pinned" and "\<not> he_allow_unsigned (ra_host api)"
  shows "reachable api pinned rt \<Longrightarrow> (x, ext) \<in> set (rn_loaded rt)
    \<Longrightarrow> anchored api pinned (rn_config rt) (rn_trust rt) ext"
proof (induction arbitrary: x ext rule: reachable.induct)
  case (start cfg ts)
  then show ?case by (simp add: runtime_new_def)
next
  case (overrides rt ov)
  then show ?case by (simp add: runtime_with_host_overrides_def overrides_irrelevant)
next
  case (step rt rt')
  note c = reachable_is_consistent [OF step.hyps(1)]
  have kept: "anchored api pinned (rn_config rt) (rn_trust rt') ext"
    if "anchored api pinned (rn_config rt) (rn_trust rt) ext"
    using that step_pins [OF step.hyps(2) c assms(1)] by (rule anchored_mono)
  from step_mem [OF step.hyps(2) c step.prems] step.IH loads_facts(5) [OF _ c assms]
    step_consistent(2) [OF step.hyps(2) c] kept
  show ?case by auto
qed

lemma steps_facts:
  assumes "(rt_step api pinned)\<^sup>*\<^sup>* rt rt'" and "consistent (ra_semver api) rt"
    and "tofu_store (ra_env api) pinned"
  shows "consistent (ra_semver api) rt' \<and> rn_config rt' = rn_config rt \<and>
    pins_kept pinned (rn_trust rt) (rn_trust rt')"
  using assms(1)
proof (induction rule: rtranclp_induct)
  case (step rt1 rt2)
  then show ?case
    using step_consistent [OF step.hyps(2)] step_pins [OF step.hyps(2) _ assms(3)]
    by (auto simp: pins_kept_def)
qed (simp add: assms(2))

text \<open>A removal event at a path other than the state file's is the eviction pass.\<close>

lemma removal_handled:
  assumes "(case home (rc_paths (rn_config rt)) of None \<Rightarrow> True | Some h \<Rightarrow> p \<noteq> join_name h STATE_FILENAME)"
    and "handle_fs_event api rt mo (Removed p) = (r, rt')"
  shows "r = Inr ()" and "rt' = evict_vanished_extensions (ra_semver api) (mo_find mo) rt"
proof -
  have "handle_fs_event api rt mo (Removed p) = (Inr (), evict_vanished_extensions (ra_semver api) (mo_find mo) rt)"
    using assms(1) by (auto simp: handle_fs_event_def Let_def split: option.splits)
  with assms(2) show "r = Inr ()" and "rt' = evict_vanished_extensions (ra_semver api) (mo_find mo) rt" by simp_all
qed

section \<open>A concrete runtime\<close>

definition example_semver :: "(nat, nat) semver_api" where
  "example_semver =
     \<lparr>parse_version = (\<lambda>s. Inr (if s = [] then 0 else of_char (hd s))),
      parse_req = (\<lambda>s. if s = [] then Inl ''empty'' else Inr (of_char (hd s))),
      req_matches = (\<lambda>r v. r \<le> v)\<rparr>"

definition example_api :: "(string, unit, unit, unit, example_store, nat, nat, string) runtime_api" where
  "example_api =
     \<lparr>ra_env = example_env, ra_host = example_host, ra_semver = example_semver, ra_compile = Inr,
      ra_dbg = id, ra_kind_dirs = [''design'']\<rparr>"

definition example_pins :: "example_store \<Rightarrow> path \<Rightarrow> string \<Rightarrow> string option" where
  "example_pins = (\<lambda>ts root x. map_of ts (root, x))"

definition example_moments :: "string \<Rightarrow> moments" where
  "example_moments h =
     \<lparr>mo_find = example_pack h ''W'', mo_gate = example_pack h ''W'', mo_load = example_pack h ''W''\<rparr>"

type_synonym 'ho example_runtime = "(unit, unit, unit, string, nat, example_store, 'ho) runtime"

definition example_start :: "'ho \<Rightarrow> 'ho example_runtime" where
  "example_start ho = runtime_new (example_config ho) []"

definition example_extension :: "string \<Rightarrow> string \<Rightarrow> string \<Rightarrow> (unit, unit, unit, string) loaded_extension" where
  "example_extension x v key =
     \<lparr>le_id = x, le_describe = example_describe x v key, le_kind = (), le_source_dir = example_dir,
      le_component = ''W'', le_health = Healthy\<rparr>"

definition example_binding :: "string \<Rightarrow> (nat, unit) offered_binding" where
  "example_binding v =
     \<lparr>ob_extension_id = ''e'', ob_cap_id = ''cap'', ob_version = of_char (hd v), ob_kind = (), ob_export_path = []\<rparr>"

definition example_loaded :: "'ho \<Rightarrow> string \<Rightarrow> string \<Rightarrow> 'ho example_runtime" where
  "example_loaded ho v key =
     \<lparr>rn_config = (example_config ho), rn_loaded = [(''e'', example_extension ''e'' v key)], rn_registry = [(''cap'', [example_binding v])],
      rn_events = [ExtensionInstalled ''e''], rn_trust = [(([RootDir, Normal ''g''], ''e''), key)]\<rparr>"

lemma example_api_fields [simp]:
  "ra_env example_api = example_env" "ra_host example_api = example_host"
  "ra_semver example_api = example_semver" "ra_compile example_api = Inr" "ra_dbg example_api = id"
  "ra_kind_dirs example_api = [''design'']"
  by (simp_all add: example_api_def)

lemma example_describe_offers [simp]:
  "d_offered (example_describe x v key) = [\<lparr>oc_id = ''cap'', oc_version = v\<rparr>]" "d_kind (example_describe x v key) = ()"
  by (simp_all add: example_describe_def)

lemma parse_example:
  "parse_version example_semver s = Inr (if s = [] then 0 else of_char (hd s))"
  by (simp add: example_semver_def)

lemma example_rebuild:
  "v \<noteq> [] \<Longrightarrow> rebuild_registry example_semver [(''e'', example_extension ''e'' v key)]
     = Inr [(''cap'', [example_binding v])]"
  by (simp add: rebuild_registry_def add_offers_def example_extension_def registry_new_def example_semver_def
      add_offering_def example_binding_def)

lemma example_register:
  "register_loaded_from_dir example_api (example_start ho) (example_moments ''e,1,K'') example_dir
     = (Inr (), example_loaded ho ''1'' ''K'')"
  by (simp add: register_loaded_from_dir_def verify_and_load_def example_moments_def example_gate
      example_pin_def example_load example_start_def runtime_new_def mutate_loaded_def emit_def
      example_rebuild example_loaded_def)
    (simp add: example_extension_def example_rebuild [unfolded example_extension_def])

lemma example_reachable: "reachable example_api example_pins (example_loaded ho ''1'' ''K'')"
  using reachable.start [of example_api example_pins "example_config ho" "[]"]
  by (rule reachable.step)
    (rule rt_step.register [OF example_register [unfolded example_start_def]])

lemma example_verify_and_load:
  "verify_and_load example_api (example_loaded ho v ''K'') (example_moments h) example_dir =
     (case split_on (CHR '','') h of
        [x, v', key] \<Rightarrow>
          (case example_pin [(([RootDir, Normal ''g''], ''e''), ''K'')] [RootDir, Normal ''g''] x key of
             (r, ts) \<Rightarrow> (map_ok (\<lambda>_. example_extension x v' key) (map_err (SignatureInvalid x) r),
                          (example_loaded ho v ''K'')\<lparr>rn_trust := ts\<rparr>))
      | _ \<Rightarrow> (Inl (Json ''not a describe''), example_loaded ho v ''K''))"
  by (simp add: verify_and_load_def example_moments_def example_gate example_load example_loaded_def
      case_prod_beta split: list.split)
    (auto simp: example_extension_def example_pin_def example_load)

lemma example_reload:
  "handle_added_or_modified example_api (example_loaded ho ''1'' ''K'') (example_moments ''e,2,K'') example_dir =
     (Inr (), (example_loaded ho ''2'' ''K'')\<lparr>rn_events := [ExtensionInstalled ''e'', ExtensionUpdated ''e'' ''1'']\<rparr>)"
  by (simp add: handle_added_or_modified_def example_verify_and_load example_pin_def mutate_loaded_def
      reload_edit_def is_downgrade_def parse_example)
    (simp add: example_extension_def example_loaded_def emit_def is_downgrade_def parse_example
      example_rebuild [unfolded example_extension_def])

lemma example_downgrade:
  "handle_added_or_modified example_api (example_loaded ho ''1'' ''K'') (example_moments ''e,0,K'') example_dir =
     (Inl (SignatureInvalid ''e'' (downgrade_text ''1'' ''0'')), example_loaded ho ''1'' ''K'')"
  by (simp add: handle_added_or_modified_def example_verify_and_load example_pin_def mutate_loaded_def
      reload_edit_def is_downgrade_def parse_example)
    (simp add: example_extension_def example_loaded_def emit_def is_downgrade_def parse_example
      example_rebuild [unfolded example_extension_def])

section \<open>Properties\<close>

text \<open>
  C5: In every reachable state the published registry is the one derived from the loaded set: it
  offers a capability exactly when an extension loaded under that id declares it, at the parsed
  version and with that extension's kind; no offer outlives its extension and none is missing.
\<close>

theorem registry_is_derived:
  assumes "reachable api pinned rt"
  shows "rebuild_registry (ra_semver api) (rn_loaded rt) = Inr (rn_registry rt) \<and>
    (ob \<in> set (offerings (rn_registry rt)) \<longleftrightarrow>
      (\<exists>ext cap. map_of (rn_loaded rt) (ob_extension_id ob) = Some ext \<and> cap \<in> set (d_offered (le_describe ext)) \<and>
         ob_cap_id ob = oc_id cap \<and> parse_version (ra_semver api) (oc_version cap) = Inr (ob_version ob) \<and>
         ob_kind ob = le_kind ext \<and> ob_export_path ob = []))"
proof -
  from reachable_is_consistent [OF assms] have "keys_distinct (rn_loaded rt)"
    and "rebuild_registry (ra_semver api) (rn_loaded rt) = Inr (rn_registry rt)"
    by (simp_all add: consistent_def)
  with offerings_rebuilt [OF this(2,1), of ob] show ?thesis by (intro conjI)
qed

theorem registry_is_derived_witness:
  "rebuild_registry example_semver (rn_loaded (example_loaded () ''1'' ''K'')) = Inr (rn_registry (example_loaded () ''1'' ''K''))"
  using registry_is_derived [OF example_reachable [of "()"]] by simp

text \<open>
  C2: Whatever is loaded is signed. In every state reached without the development escape, an
  extension a lookup returns is filed under the id of its describe, the describe is self-consistent
  and bound to a manifest, and its component is compiled from bytes with the digest of an
  entry of that manifest.
\<close>

theorem loaded_extensions_signed:
  assumes "reachable api pinned rt" and "\<not> he_allow_unsigned (ra_host api)" and "lookup rt x = Inr ext"
  shows "le_id ext = x \<and> d_id (le_describe ext) = x \<and> verify_self_consistent (ra_env api) (le_describe ext) = Inr () \<and>
    (\<exists>raw m entry bytes. verify_manifest_binding (ra_env api) (le_describe ext) raw = Inr () \<and>
       manifest_from_slice (ra_env api) raw = Inr m \<and> entry \<in> set (mf_entries m) \<and>
       sha256_hex (ra_env api) bytes = me_sha256 entry \<and> ra_compile api bytes = Inr (le_component ext))"
proof -
  note c = reachable_is_consistent [OF assms(1)]
  have mem: "(x, ext) \<in> set (rn_loaded rt)"
    using assms(3) by (auto simp: lookup_def result_simps dest: map_of_SomeD)
  then have "filed (x, ext)" using c by (auto simp: consistent_def list_all_iff)
  moreover obtain gate_fs load_fs ts ts' L where
    gate: "verify_dir_signature (ra_env api) (ra_host api) (rn_config rt) gate_fs ts (le_source_dir ext)
             = (Inr (le_describe ext, L), ts')"
    and load: "from_verified (ra_env api) (ra_compile api) (ra_dbg api) load_fs (le_source_dir ext)
        (le_describe ext) L = Inr ext"
    using reachable_passed_gate [OF assms(1) mem] unfolding passed_gate_def by blast
  from gate_and_load_signed [OF gate assms(2) load] calculation show ?thesis
    by (auto simp: filed_def)
qed

theorem loaded_extensions_signed_witness:
  "lookup (example_loaded () ''1'' ''K'') ''e'' = Inr (example_extension ''e'' ''1'' ''K'') \<and>
   le_id (example_extension ''e'' ''1'' ''K'') = ''e''"
proof -
  have found: "lookup (example_loaded () ''1'' ''K'') ''e'' = Inr (example_extension ''e'' ''1'' ''K'')"
    by (simp add: lookup_def example_loaded_def)
  from loaded_extensions_signed [OF example_reachable _ found] show ?thesis by (simp add: found)
qed

text \<open>
  C18: Eviction is exact and cannot fail. On a removal event the extensions whose directory is gone
  for certain leave the loaded map, each with one event, all others stay, an unreadable directory
  counts as present, and the registry keeps offers of the remaining ones only.
\<close>

theorem removal_event_evicts_vanished:
  assumes "reachable api pinned rt"
    and "(case home (rc_paths (rn_config rt)) of None \<Rightarrow> True | Some h \<Rightarrow> p \<noteq> join_name h STATE_FILENAME)"
    and "handle_fs_event api rt mo (Removed p) = (r, rt')"
  shows "r = Inr () \<and>
    rn_loaded rt' = filter (\<lambda>(x, ext). \<not> has_vanished (mo_find mo) (le_source_dir ext)) (rn_loaded rt) \<and>
    rn_events rt' = rn_events rt @ map (ExtensionRemoved \<circ> fst)
      (filter (\<lambda>(x, ext). has_vanished (mo_find mo) (le_source_dir ext)) (rn_loaded rt)) \<and>
    ob_extension_id ` set (offerings (rn_registry rt')) \<subseteq> fst ` set (rn_loaded rt')"
proof -
  note c = reachable_is_consistent [OF assms(1)]
  note r = removal_handled [OF assms(2,3)]
  note ev = evict_vanished_exact [OF c, of "mo_find mo"]
  then have "consistent (ra_semver api) rt'" by (simp add: r)
  then have c': "keys_distinct (rn_loaded rt')" "rebuild_registry (ra_semver api) (rn_loaded rt') = Inr (rn_registry rt')"
    by (simp_all add: consistent_def)
  have "ob_extension_id ob \<in> fst ` set (rn_loaded rt')" if "ob \<in> set (offerings (rn_registry rt'))" for ob
    using that offerings_rebuilt [OF c'(2,1), of ob] map_of_SomeD by force
  with ev r show ?thesis by auto
qed

text \<open>The concrete runtime once the directory of its only extension is gone.\<close>

lemma example_gone:
  "handle_fs_event example_api (example_loaded ho ''1'' ''K'')
     \<lparr>mo_find = example_fs [RootDir] [], mo_gate = endless_fs, mo_load = endless_fs\<rparr> (Removed example_dir) =
   (Inr (), (example_loaded ho ''1'' ''K'')\<lparr>rn_loaded := [], rn_registry := [],
      rn_events := [ExtensionInstalled ''e'', ExtensionRemoved ''e'']\<rparr>)"
  by (simp add: handle_fs_event_def example_loaded_def example_config_def from_paths_def discovery_new_def
      home_def parent_def evict_vanished_extensions_def has_vanished_def example_fs_def Let_def
      example_extension_def example_dir_def evict_def mutate_loaded_def rebuild_registry_def
      registry_new_def report_eviction_def emit_def)

theorem removal_event_evicts_vanished_witness:
  "rn_loaded (snd (handle_fs_event example_api (example_loaded () ''1'' ''K'')
     \<lparr>mo_find = example_fs [RootDir] [], mo_gate = endless_fs, mo_load = endless_fs\<rparr> (Removed example_dir))) = []"
proof -
  have no_home: "(case home (rc_paths (rn_config (example_loaded () ''1'' ''K''))) of
      None \<Rightarrow> True | Some h \<Rightarrow> example_dir \<noteq> join_name h STATE_FILENAME)"
    by (simp add: example_loaded_def example_config_def from_paths_def discovery_new_def home_def parent_def)
  from removal_event_evicts_vanished [OF example_reachable no_home example_gone]
  show ?thesis by (simp add: example_gone)
qed

text \<open>
  A hot reload never downgrades: whenever an id is loaded before and after a reload of any
  directory and both versions parse, the later version is not older than the earlier one.
\<close>

theorem hot_reload_never_downgrades:
  assumes "reachable api pinned rt" and "handle_added_or_modified api rt mo dir = (r, rt')"
    and "lookup rt x = Inr e" and "lookup rt' x = Inr e'"
    and "parse_version (ra_semver api) (d_version (le_describe e)) = Inr v"
    and "parse_version (ra_semver api) (d_version (le_describe e')) = Inr v'"
  shows "v \<le> v'"
  using assms(2) reachable_is_consistent [OF assms(1)]
proof (cases rule: reload_cases)
  case (failed err)
  from trust_only_fields [OF failed(2)] assms(3-) show ?thesis by (simp add: lookup_def)
next
  case (installed ext rt1 registry ev)
  show ?thesis
  proof (cases "x = le_id ext")
    case True
    with installed assms(4) have "e' = ext" by (simp add: lookup_def result_simps)
    moreover have "map_of (rn_loaded rt) (le_id ext) = Some e"
      using assms(3) True by (simp add: lookup_def result_simps)
    ultimately show ?thesis using installed(5) assms(5,6) by (auto simp: is_downgrade_def)
  next
    case False
    with installed assms(3-) show ?thesis by (simp add: lookup_def result_simps)
  qed
qed

theorem hot_reload_never_downgrades_witness:
  "(of_char (CHR ''1'') :: nat) \<le> of_char (CHR ''2'')"
proof -
  have "lookup (example_loaded () ''1'' ''K'') ''e'' = Inr (example_extension ''e'' ''1'' ''K'')"
    and "lookup ((example_loaded () ''2'' ''K'')\<lparr>rn_events := [ExtensionInstalled ''e'', ExtensionUpdated ''e'' ''1'']\<rparr>) ''e''
           = Inr (example_extension ''e'' ''2'' ''K'')"
    by (simp_all add: lookup_def example_loaded_def)
  from hot_reload_never_downgrades [OF example_reachable example_reload this] show ?thesis
    by (simp add: example_extension_def example_semver_def)
qed

text \<open>
  C35: A reload that fails changes nothing the runtime serves: the loaded map, the registry, the
  configuration and the events are as before, and the key store is as the gate left it.
\<close>

theorem failed_reload_changes_nothing:
  assumes "reachable api pinned rt" and "handle_added_or_modified api rt mo dir = (Inl e, rt')"
  shows "rt' = rt\<lparr>rn_trust := snd (verify_dir_signature (ra_env api) (ra_host api) (rn_config rt)
                      (mo_gate mo) (rn_trust rt) dir)\<rparr>"
  using assms(2) reachable_is_consistent [OF assms(1)]
proof (cases rule: reload_cases)
  case (failed err)
  then show ?thesis by (simp add: trust_only_def)
qed simp

theorem failed_reload_changes_nothing_witness:
  "snd (handle_added_or_modified example_api (example_loaded () ''1'' ''K'') (example_moments ''e,0,K'') example_dir)
     = example_loaded () ''1'' ''K''"
proof -
  have gate: "snd (verify_dir_signature example_env example_host (rn_config (example_loaded () ''1'' ''K''))
      (mo_gate (example_moments ''e,0,K'')) (rn_trust (example_loaded () ''1'' ''K'')) example_dir)
    = rn_trust (example_loaded () ''1'' ''K'')"
    by (simp add: example_loaded_def example_moments_def example_gate example_pin_def)
  from failed_reload_changes_nothing [OF example_reachable example_downgrade] gate show ?thesis
    by (simp add: example_downgrade)
qed

text \<open>
  C3: A publisher never changes. With a key store that keeps its records, and other tools that do,
  an id loaded in a reachable state and again in any later state, whatever was installed, reloaded
  or removed in between, has the same publisher key.
\<close>

theorem publisher_never_changes:
  assumes "tofu_store (ra_env api) pinned" and "\<not> he_allow_unsigned (ra_host api)"
    and "reachable api pinned rt" and "(rt_step api pinned)\<^sup>*\<^sup>* rt rt'"
    and "lookup rt x = Inr e" and "lookup rt' x = Inr e'"
  shows "d_public_key (le_describe e) = d_public_key (le_describe e')"
proof -
  have r': "reachable api pinned rt'"
    using assms(4,3) by (induction rule: rtranclp_induct) (auto intro: reachable.step)
  note c = reachable_is_consistent [OF assms(3)] and c' = reachable_is_consistent [OF r']
  have "(x, e) \<in> set (rn_loaded rt)" and "(x, e') \<in> set (rn_loaded rt')"
    using assms(5,6) by (auto simp: lookup_def result_simps dest: map_of_SomeD)
  then have "anchored api pinned (rn_config rt) (rn_trust rt) e" "anchored api pinned (rn_config rt') (rn_trust rt') e'"
    and "le_id e = x" "le_id e' = x"
    using reachable_anchored [OF assms(1,2,3)] reachable_anchored [OF assms(1,2) r'] c c'
    by (auto simp: consistent_def list_all_iff filed_def)
  moreover have "rn_config rt' = rn_config rt" "pins_kept pinned (rn_trust rt) (rn_trust rt')"
    using steps_facts [OF assms(4) c assms(1)] by auto
  ultimately show ?thesis by (auto simp: anchored_def pins_kept_def)
qed

theorem publisher_never_changes_witness:
  "d_public_key (le_describe (example_extension ''e'' ''1'' ''K''))
     = d_public_key (le_describe (example_extension ''e'' ''2'' ''K''))"
proof -
  have steps: "(rt_step example_api example_pins)\<^sup>*\<^sup>* (example_loaded () ''1'' ''K'')
      ((example_loaded () ''2'' ''K'')\<lparr>rn_events := [ExtensionInstalled ''e'', ExtensionUpdated ''e'' ''1'']\<rparr>)"
    by (rule r_into_rtranclp) (rule rt_step.reload [OF example_reload])
  have tofu: "tofu_store (ra_env example_api) example_pins"
    using example_tofu by (simp add: example_pins_def)
  show ?thesis
    by (rule publisher_never_changes [OF tofu _ example_reachable steps])
      (simp_all add: lookup_def example_loaded_def)
qed

text \<open>
  C16: A verified pack is loaded. When the gate and the load accept a directory, its offered versions
  parse and it is not older than what is loaded under its id, the reload succeeds: a lookup of the
  id then returns that very extension, every other id answers as before, and one event tells an
  update from an installation.
\<close>

theorem verified_pack_is_loaded:
  assumes "reachable api pinned rt" and "verify_and_load api rt mo dir = (Inr ext, rt1)"
    and "\<forall>cap\<in>set (d_offered (le_describe ext)). is_ok (parse_version (ra_semver api) (oc_version cap))"
    and "\<forall>prev. lookup rt (le_id ext) = Inr prev \<longrightarrow>
           \<not> is_downgrade (ra_semver api) (d_version (le_describe prev)) (d_version (le_describe ext))"
  shows "\<exists>rt'. handle_added_or_modified api rt mo dir = (Inr (), rt')
    \<and> lookup rt' (le_id ext) = Inr ext \<and> (\<forall>y. y \<noteq> le_id ext \<longrightarrow> lookup rt' y = lookup rt y)
    \<and> rn_events rt' = rn_events rt @
        [case lookup rt (le_id ext) of
           Inr prev \<Rightarrow> ExtensionUpdated (le_id ext) (d_version (le_describe prev))
         | Inl e \<Rightarrow> ExtensionInstalled (le_id ext)]"
proof -
  let ?m = "AList.update (le_id ext) ext (rn_loaded rt)"
  have rt1: "rn_loaded rt1 = rn_loaded rt" "rn_events rt1 = rn_events rt"
    using verify_and_load_ok [OF assms(2)] trust_only_fields by auto
  have "is_ok (rebuild_registry (ra_semver api) (rn_loaded rt))"
    using reachable_is_consistent [OF assms(1)] by (simp add: consistent_def)
  then have "is_ok (rebuild_registry (ra_semver api) ?m)"
    using assms(3) set_update_subset [of "le_id ext" ext "rn_loaded rt"]
    by (fastforce simp: rebuild_is_ok_iff offers_parse_def list_all_iff)
  then obtain reg where reg: "rebuild_registry (ra_semver api) ?m = Inr reg" by (auto simp: is_ok_iff)
  show ?thesis
    using assms(2,4) rt1 reg
    by (cases "map_of (rn_loaded rt) (le_id ext)")
      (auto simp: handle_added_or_modified_def mutate_loaded_def reload_edit_def lookup_def emit_def)
qed

theorem verified_pack_is_loaded_witness:
  "lookup (snd (handle_added_or_modified example_api (example_loaded () ''1'' ''K'') (example_moments ''e,2,K'')
      example_dir)) ''e'' = Inr (example_extension ''e'' ''2'' ''K'')"
proof -
  have load: "verify_and_load example_api (example_loaded () ''1'' ''K'') (example_moments ''e,2,K'') example_dir
      = (Inr (example_extension ''e'' ''2'' ''K''), example_loaded () ''1'' ''K'')"
    by (simp add: example_verify_and_load example_pin_def) (simp add: example_loaded_def)
  have x: "le_id (example_extension ''e'' ''2'' ''K'') = ''e''" by (simp add: example_extension_def)
  have "\<forall>cap\<in>set (d_offered (le_describe (example_extension ''e'' ''2'' ''K''))).
      is_ok (parse_version (ra_semver example_api) (oc_version cap))"
    by (simp add: example_extension_def parse_example)
  moreover have "\<forall>prev. lookup (example_loaded () ''1'' ''K'') (le_id (example_extension ''e'' ''2'' ''K'')) = Inr prev
      \<longrightarrow> \<not> is_downgrade (ra_semver example_api) (d_version (le_describe prev))
            (d_version (le_describe (example_extension ''e'' ''2'' ''K'')))"
    by (simp add: x lookup_def example_loaded_def) (simp add: example_extension_def is_downgrade_def parse_example)
  ultimately have "\<exists>rt'. handle_added_or_modified example_api (example_loaded () ''1'' ''K'')
        (example_moments ''e,2,K'') example_dir = (Inr (), rt') \<and> lookup rt' ''e'' = Inr (example_extension ''e'' ''2'' ''K'')"
    using verified_pack_is_loaded [OF example_reachable load] unfolding x by blast
  then show ?thesis by (elim exE conjE) simp
qed

section \<open>The watcher thread\<close>

definition received_events :: "(stop_poll \<times> received) list \<Rightarrow> (moments \<times> fs_event) list" where
  "received_events its =
     List.map_filter (\<lambda>(_, r). case r of ReceivedEvent mo ev \<Rightarrow> Some (mo, ev) | _ \<Rightarrow> None) its"

lemma watcher_loop_append:
  "watcher_loop api rt (xs @ ys) =
     (let (ended, rt') = watcher_loop api rt xs in if ended then (True, rt') else watcher_loop api rt' ys)"
  by (induction api rt xs rule: watcher_loop.induct) (auto split: stop_poll.split received.split)

lemma watcher_loop_steps: "(rt_step api pinned)\<^sup>*\<^sup>* rt (snd (watcher_loop api rt its))"
proof (induction api rt its rule: watcher_loop.induct)
  case (2 api rt stop received its)
  have "rt_step api pinned rt (snd (handle_fs_event api rt mo ev))" for mo ev
    by (rule rt_step.fs_event) (rule surjective_pairing)
  then have handled: "(rt_step api pinned)\<^sup>*\<^sup>* (snd (handle_fs_event api rt mo ev)) u
      \<Longrightarrow> (rt_step api pinned)\<^sup>*\<^sup>* rt u" for mo ev u
    by (rule converse_rtranclp_into_rtranclp)
  from 2 show ?case
    by (auto split: stop_poll.split received.split intro: handled)
qed simp

lemma reachable_steps: "reachable api pinned rt \<Longrightarrow> (rt_step api pinned)\<^sup>*\<^sup>* rt rt' \<Longrightarrow> reachable api pinned rt'"
  by (rotate_tac, induction rule: rtranclp_induct) (auto intro: reachable.step)

lemma live_loop:
  "list_all (\<lambda>(stop, r). stop = StopEmpty \<and> r \<noteq> ReceiveDisconnected) its \<Longrightarrow>
   watcher_loop api rt its =
     (False, foldl (\<lambda>rt (mo, ev). snd (handle_fs_event api rt mo ev)) rt (received_events its))"
  by (induction api rt its rule: watcher_loop.induct)
     (auto simp: received_events_def List.map_filter_simps split: received.split)

text \<open>C31: the life of the watcher thread. Whatever its iterations find, the runtime stays in a reachable
  state, so everything proved of those holds under hot reload; while the guard lives and the event
  channel is open, the thread handles every event it receives, in order, and no failing reload ends
  it; and from the first poll after the guard is dropped it handles nothing more.\<close>

theorem watcher_thread_life:
  assumes "reachable api pinned rt"
    and "list_all (\<lambda>(stop, r). stop = stop_of watcher_guard_new \<and> r \<noteq> ReceiveDisconnected) its"
  shows "reachable api pinned (snd (watcher_loop api rt its)) \<and>
    watcher_loop api rt its =
      (False, foldl (\<lambda>rt (mo, ev). snd (handle_fs_event api rt mo ev)) rt (received_events its)) \<and>
    watcher_loop api rt (its @ (stop_of (watcher_guard_drop watcher_guard_new), r) # rest) =
      (True, snd (watcher_loop api rt its))"
proof -
  have "list_all (\<lambda>(stop, r). stop = StopEmpty \<and> r \<noteq> ReceiveDisconnected) its"
    using assms(2) by (simp add: stop_of_def watcher_guard_new_def)
  note loop = live_loop [OF this, of api rt]
  show ?thesis
    by (intro conjI reachable_steps [OF assms(1) watcher_loop_steps] loop)
       (simp add: watcher_loop_append loop stop_of_def watcher_guard_drop_def)
qed

theorem watcher_thread_life_witness:
  "reachable example_api example_pins
     (snd (watcher_loop example_api (example_loaded () ''1'' ''K'') [(StopEmpty, ReceiveTimeout)])) \<and>
   watcher_loop example_api (example_loaded () ''1'' ''K'') [(StopEmpty, ReceiveTimeout)]
     = (False, foldl (\<lambda>rt (mo, ev). snd (handle_fs_event example_api rt mo ev)) (example_loaded () ''1'' ''K'')
          (received_events [(StopEmpty, ReceiveTimeout)])) \<and>
   watcher_loop example_api (example_loaded () ''1'' ''K'')
     ([(StopEmpty, ReceiveTimeout)] @ (stop_of (watcher_guard_drop watcher_guard_new), ReceiveTimeout) # [])
     = (True, snd (watcher_loop example_api (example_loaded () ''1'' ''K'') [(StopEmpty, ReceiveTimeout)]))"
  by (rule watcher_thread_life [OF example_reachable])
     (simp add: stop_of_def watcher_guard_new_def)

end
