(* ===== verification/Catalogue.thy ===== *)
theory Catalogue
  imports Reach "HOL-Library.Multiset"
begin

text \<open>
  What the loaded map promises, without the registry, the trust store or the lock: a catalogue of
  verified extensions and the multiset of lifecycle events announced for it. An edit of the map
  (\<open>job\<close>) is what the closures handed to \<open>mutate_loaded\<close> do; every operation of the runtime that
  changes the map is one job or a sequence of them. The lemmas show that a job is a step of the
  catalogue, that the atomic operations refine it, and that a subscriber who replays the events
  of a sequential run knows which extensions are loaded.
\<close>

section \<open>Jobs\<close>

datatype ('k, 't, 'w, 'c) job =
    Register "('k, 't, 'w, 'c) loaded_extension"
  | Publish "('k, 't, 'w, 'c) loaded_extension"
  | EvictId string
  | RemoveDir path

fun reload_event :: "string \<Rightarrow> reload \<Rightarrow> runtime_event option" where
  "reload_event x Installed = Some (ExtensionInstalled x)"
| "reload_event x (Updated prev) = Some (ExtensionUpdated x prev)"
| "reload_event x (RefusedDowngrade prev) = None"

text \<open>The event a job leads to, when it leads to one, and the edited map.\<close>

fun job_edit ::
  "('v::linorder, 'r) semver_api \<Rightarrow> ('k, 't, 'w, 'c) job
   \<Rightarrow> (string, ('k, 't, 'w, 'c) loaded_extension) hashmap
   \<Rightarrow> runtime_event option \<times> (string, ('k, 't, 'w, 'c) loaded_extension) hashmap" where
  "job_edit sv (Register ext) m = (Some (ExtensionInstalled (le_id ext)), AList.update (le_id ext) ext m)"
| "job_edit sv (Publish ext) m =
     (let (outcome, m') = reload_edit sv ext m in (reload_event (le_id ext) outcome, m'))"
| "job_edit sv (EvictId x) m = (map_option (\<lambda>_. ExtensionRemoved x) (map_of m x), AList.delete x m)"
| "job_edit sv (RemoveDir dir) m =
     (case List.find (\<lambda>(x, e). le_source_dir e = dir) m of
        None \<Rightarrow> (None, m)
      | Some (x, e) \<Rightarrow> (Some (ExtensionRemoved x), AList.delete x m))"

definition announce ::
  "runtime_event option \<Rightarrow> ('k, 't, 'w, 'c, 'v, 'ts, 'ho) runtime
   \<Rightarrow> ('k, 't, 'w, 'c, 'v, 'ts, 'ho) runtime" where
  "announce ev rt = (case ev of None \<Rightarrow> rt | Some e \<Rightarrow> emit rt e)"

definition run_job ::
  "('v::linorder, 'r) semver_api \<Rightarrow> ('k, 't, 'w, 'c) job \<Rightarrow> ('k, 't, 'w, 'c, 'v, 'ts, 'ho) runtime
   \<Rightarrow> ('k, 't, 'w, 'c, 'v, 'ts, 'ho) runtime" where
  "run_job sv job rt =
     (case mutate_loaded sv rt (job_edit sv job) of
        (Inl e, rt') \<Rightarrow> rt'
      | (Inr ev, rt') \<Rightarrow> announce ev rt')"

text \<open>The operations that change the map, as jobs.\<close>

lemma register_is_job:
  "snd (register_loaded_from_dir api rt mo dir) =
     (case verify_and_load api rt mo dir of
        (Inl e, rt1) \<Rightarrow> rt1
      | (Inr ext, rt1) \<Rightarrow> run_job (ra_semver api) (Register ext) rt1)"
  by (auto simp: register_loaded_from_dir_def run_job_def mutate_loaded_def announce_def Let_def
      split: prod.splits sum.splits)

lemma reload_is_job:
  "snd (handle_added_or_modified api rt mo dir) =
     (case verify_and_load api rt mo dir of
        (Inl e, rt1) \<Rightarrow> rt1
      | (Inr ext, rt1) \<Rightarrow> run_job (ra_semver api) (Publish ext) rt1)"
  by (auto simp: handle_added_or_modified_def run_job_def mutate_loaded_def announce_def Let_def
      split: prod.splits sum.splits reload.splits)

lemma evict_is_job: "evict sv rt x = run_job sv (EvictId x) rt"
  by (cases "map_of (rn_loaded rt) x")
     (auto simp: evict_def run_job_def mutate_loaded_def report_eviction_def announce_def split: sum.splits)

lemma removal_is_job: "handle_removal sv rt dir = run_job sv (RemoveDir dir) rt"
  by (auto simp: handle_removal_def run_job_def mutate_loaded_def report_eviction_def announce_def Let_def
      split: sum.splits option.splits)

section \<open>The catalogue\<close>

record ('k, 't, 'w, 'c) catalogue =
  ct_loaded :: "string \<Rightarrow> ('k, 't, 'w, 'c) loaded_extension option"
  ct_log :: "runtime_event multiset"

definition catalogue_of ::
  "('k, 't, 'w, 'c, 'v, 'ts, 'ho) runtime \<Rightarrow> runtime_event multiset \<Rightarrow> ('k, 't, 'w, 'c) catalogue" where
  "catalogue_of rt pending = \<lparr>ct_loaded = map_of (rn_loaded rt), ct_log = mset (rn_events rt) + pending\<rparr>"

text \<open>
  A step of the catalogue. An extension enters only verified; it replaces another of its id only
  when it is not older, or when the caller holds the runtime exclusively. Every change is logged.
\<close>

inductive cat_step ::
  "('j, 'k, 't, 'w, 'ts, 'v::linorder, 'r, 'c) runtime_api \<Rightarrow> 'ho runtime_config \<Rightarrow> bool
   \<Rightarrow> ('k, 't, 'w, 'c) catalogue \<Rightarrow> ('k, 't, 'w, 'c) catalogue \<Rightarrow> bool"
  for api cfg exclusive where
  install: "passed_gate api cfg ext \<Longrightarrow> le_id ext = x \<Longrightarrow> m x = None \<or> exclusive
    \<Longrightarrow> cat_step api cfg exclusive \<lparr>ct_loaded = m, ct_log = L\<rparr>
          \<lparr>ct_loaded = m(x \<mapsto> ext), ct_log = add_mset (ExtensionInstalled x) L\<rparr>"
| update: "passed_gate api cfg ext \<Longrightarrow> le_id ext = x \<Longrightarrow> m x = Some e
    \<Longrightarrow> \<not> is_downgrade (ra_semver api) (d_version (le_describe e)) (d_version (le_describe ext))
    \<Longrightarrow> cat_step api cfg exclusive \<lparr>ct_loaded = m, ct_log = L\<rparr>
          \<lparr>ct_loaded = m(x \<mapsto> ext), ct_log = add_mset (ExtensionUpdated x (d_version (le_describe e))) L\<rparr>"
| remove: "m x = Some e
    \<Longrightarrow> cat_step api cfg exclusive \<lparr>ct_loaded = m, ct_log = L\<rparr>
          \<lparr>ct_loaded = m(x := None), ct_log = add_mset (ExtensionRemoved x) L\<rparr>"
| state_file: "cat_step api cfg exclusive \<lparr>ct_loaded = m, ct_log = L\<rparr>
          \<lparr>ct_loaded = m, ct_log = add_mset StateFileChanged L\<rparr>"

fun job_ok ::
  "('j, 'k, 't, 'w, 'ts, 'v, 'r, 'c) runtime_api \<Rightarrow> 'ho runtime_config \<Rightarrow> bool
   \<Rightarrow> ('k, 't, 'w, 'c) job \<Rightarrow> bool" where
  "job_ok api cfg exclusive (Register ext) \<longleftrightarrow> exclusive \<and> passed_gate api cfg ext \<and> filed (le_id ext, ext)"
| "job_ok api cfg exclusive (Publish ext) \<longleftrightarrow> passed_gate api cfg ext \<and> filed (le_id ext, ext)"
| "job_ok api cfg exclusive (EvictId x) \<longleftrightarrow> True"
| "job_ok api cfg exclusive (RemoveDir dir) \<longleftrightarrow> True"

definition log_of :: "runtime_event option \<Rightarrow> runtime_event multiset" where
  "log_of ev = (case ev of None \<Rightarrow> {#} | Some e \<Rightarrow> {#e#})"

lemma log_of_simps [simp]: "log_of None = {#}" "log_of (Some e) = {#e#}"
  by (simp_all add: log_of_def)

lemma find_loaded:
  "keys_distinct m \<Longrightarrow> List.find (\<lambda>(x, e). P e) m = Some (x, e) \<Longrightarrow> map_of m x = Some e"
  by (auto simp: mem_iff_map_of [symmetric] find_Some_iff) (metis nth_mem)

text \<open>A job keeps the map well formed and is one step of the catalogue, or none.\<close>

lemma job_keeps:
  assumes "job_edit sv job m = (ev, m')" and "keys_distinct m" and "list_all filed m"
    and "job_ok api cfg exclusive job"
  shows "keys_distinct m' \<and> list_all filed m'"
  using assms
  by (cases job)
     (auto simp: filed_update filed_delete reload_edit_def Let_def
        split: option.splits prod.splits if_splits)

lemma job_step:
  assumes "job_edit (ra_semver api) job m = (ev, m')" and "keys_distinct m"
    and "job_ok api cfg exclusive job"
  shows "(cat_step api cfg exclusive)\<^sup>*\<^sup>* \<lparr>ct_loaded = map_of m, ct_log = L\<rparr>
           \<lparr>ct_loaded = map_of m', ct_log = log_of ev + L\<rparr>"
proof (cases job)
  case (Register ext)
  with assms cat_step.install [of api cfg ext "le_id ext" "map_of m" exclusive L]
  show ?thesis by (auto simp: update_conv)
next
  case (Publish ext)
  show ?thesis
  proof (cases "map_of m (le_id ext)")
    case None
    with assms Publish cat_step.install [of api cfg ext "le_id ext" "map_of m" exclusive L]
    show ?thesis by (auto simp: update_conv reload_edit_def)
  next
    case (Some e)
    with assms Publish cat_step.update [of api cfg ext "le_id ext" "map_of m" e exclusive L]
    show ?thesis by (auto simp: update_conv reload_edit_def split: if_splits)
  qed
next
  case (EvictId x)
  with assms cat_step.remove [of "map_of m" x _ api cfg exclusive L]
  show ?thesis by (cases "map_of m x") (auto simp: delete_conv fun_upd_idem)
next
  case (RemoveDir dir)
  with assms cat_step.remove [of "map_of m" _ _ api cfg exclusive L] find_loaded [OF assms(2)]
  show ?thesis by (auto simp: delete_conv split: option.splits)
qed

section \<open>Refinement\<close>

text \<open>
  A simulation: an invariant of the implementation, and a function to the states of a specification
  under which each step is a run of the specification.
\<close>

locale simulation =
  fixes step :: "'s \<Rightarrow> 's \<Rightarrow> bool"
    and inv :: "'s \<Rightarrow> bool"
    and abs :: "'s \<Rightarrow> 'a"
    and spec :: "'a \<Rightarrow> 'a \<Rightarrow> bool"
  assumes inv_step: "inv s \<Longrightarrow> step s s' \<Longrightarrow> inv s'"
    and simulates: "inv s \<Longrightarrow> step s s' \<Longrightarrow> spec\<^sup>*\<^sup>* (abs s) (abs s')"
begin

lemma run_inv: "step\<^sup>*\<^sup>* s s' \<Longrightarrow> inv s \<Longrightarrow> inv s'"
  by (induction rule: rtranclp_induct) (auto intro: inv_step)

lemma run_refines: "step\<^sup>*\<^sup>* s s' \<Longrightarrow> inv s \<Longrightarrow> spec\<^sup>*\<^sup>* (abs s) (abs s')"
proof (induction rule: rtranclp_induct)
  case (step u v)
  have "inv u" using step.hyps(1) step.prems by (rule run_inv)
  from step.IH [OF step.prems] simulates [OF this step.hyps(2)] show ?case by (rule rtranclp_trans)
qed simp

lemma run_keeps:
  assumes "\<And>a b. spec a b \<Longrightarrow> P a \<Longrightarrow> P b" and "step\<^sup>*\<^sup>* s s'" and "inv s" and "P (abs s)"
  shows "P (abs s')"
  using run_refines [OF assms(2,3)] assms(4)
  by (induction rule: rtranclp_induct) (auto intro: assms(1))

end

definition seq_inv ::
  "('j, 'k, 't, 'w, 'ts, 'v::linorder, 'r, 'c) runtime_api \<Rightarrow> 'ho runtime_config
   \<Rightarrow> ('k, 't, 'w, 'c, 'v, 'ts, 'ho) runtime \<Rightarrow> bool" where
  "seq_inv api cfg rt \<longleftrightarrow> consistent (ra_semver api) rt \<and> rn_config rt = cfg"

lemma run_job_refines:
  assumes "seq_inv api cfg rt" and "job_ok api cfg exclusive job"
  shows "seq_inv api cfg (run_job (ra_semver api) job rt)"
    and "(cat_step api cfg exclusive)\<^sup>*\<^sup>* (catalogue_of rt {#})
           (catalogue_of (run_job (ra_semver api) job rt) {#})"
proof -
  obtain ev m' where edit: "job_edit (ra_semver api) job (rn_loaded rt) = (ev, m')" by fastforce
  have c: "keys_distinct (rn_loaded rt)" "list_all filed (rn_loaded rt)"
    using assms(1) by (simp_all add: seq_inv_def consistent_def)
  note keeps = job_keeps [OF edit c assms(2)] and step = job_step [OF edit c(1) assms(2)]
  show "seq_inv api cfg (run_job (ra_semver api) job rt)"
    using assms(1) keeps
    by (auto simp: seq_inv_def run_job_def mutate_loaded_def edit announce_def consistent_def emit_def
        split: sum.splits option.splits)
  show "(cat_step api cfg exclusive)\<^sup>*\<^sup>* (catalogue_of rt {#}) (catalogue_of (run_job (ra_semver api) job rt) {#})"
    using step [of "mset (rn_events rt)"]
    by (auto simp: run_job_def mutate_loaded_def edit announce_def catalogue_of_def emit_def
        split: sum.splits option.splits)
qed

lemma evictions_refine:
  "seq_inv api cfg rt \<Longrightarrow> seq_inv api cfg (foldl (evict (ra_semver api)) rt xs) \<and>
     (cat_step api cfg exclusive)\<^sup>*\<^sup>* (catalogue_of rt {#})
       (catalogue_of (foldl (evict (ra_semver api)) rt xs) {#})"
proof (induction xs arbitrary: rt)
  case (Cons x xs)
  note j = run_job_refines [OF Cons.prems, of exclusive "EvictId x", simplified]
  from Cons.IH [OF j(1)] j(2) show ?case by (auto simp: evict_is_job intro: rtranclp_trans)
qed simp

lemma loaded_job_ok:
  assumes "verify_and_load api rt mo dir = (Inr ext, rt1)"
  shows "passed_gate api (rn_config rt) ext" and "filed (le_id ext, ext)"
    and "rn_loaded rt1 = rn_loaded rt" "rn_registry rt1 = rn_registry rt"
    "rn_events rt1 = rn_events rt" "rn_config rt1 = rn_config rt"
proof -
  from verify_and_load_ok(3) [OF assms refl] obtain L where
    "verify_dir_signature (ra_env api) (ra_host api) (rn_config rt) (mo_gate mo) (rn_trust rt) (le_source_dir ext)
       = (Inr (le_describe ext, L), rn_trust rt1)"
    "from_verified (ra_env api) (ra_compile api) (ra_dbg api) (mo_load mo) (le_source_dir ext) (le_describe ext) L = Inr ext"
    and f: "filed (le_id ext, ext)" by blast
  then show "passed_gate api (rn_config rt) ext" unfolding passed_gate_def by blast
  show "filed (le_id ext, ext)" by (rule f)
  show "rn_loaded rt1 = rn_loaded rt" "rn_registry rt1 = rn_registry rt"
    "rn_events rt1 = rn_events rt" "rn_config rt1 = rn_config rt"
    by (subst verify_and_load_ok(1) [OF assms], simp)+
qed

lemma load_keeps:
  assumes "verify_and_load api rt mo dir = (v, rt1)"
  shows "catalogue_of rt1 L = catalogue_of rt L" and "seq_inv api cfg rt1 \<longleftrightarrow> seq_inv api cfg rt"
  by (subst verify_and_load_ok(1) [OF assms], simp add: catalogue_of_def seq_inv_def consistent_def)+

lemma load_then_job:
  assumes "rt' = (case verify_and_load api rt mo dir of
      (Inl e, rt1) \<Rightarrow> rt1 | (Inr ext, rt1) \<Rightarrow> run_job (ra_semver api) (job ext) rt1)"
    and "\<And>ext. passed_gate api cfg ext \<Longrightarrow> filed (le_id ext, ext) \<Longrightarrow> job_ok api cfg exclusive (job ext)"
    and "seq_inv api cfg rt"
  shows "seq_inv api cfg rt' \<and> (cat_step api cfg exclusive)\<^sup>*\<^sup>* (catalogue_of rt {#}) (catalogue_of rt' {#})"
proof -
  obtain v rt1 where load: "verify_and_load api rt mo dir = (v, rt1)" by fastforce
  note k = load_keeps [OF load]
  show ?thesis
  proof (cases v)
    case (Inl e)
    with assms(1,3) load k show ?thesis by simp
  next
    case (Inr ext)
    have "job_ok api cfg exclusive (job ext)"
      using assms(2,3) loaded_job_ok(1,2) [OF load [unfolded Inr]] by (simp add: seq_inv_def)
    from run_job_refines [OF _ this, of rt1] assms(1,3) load Inr k show ?thesis by simp
  qed
qed

lemma fs_event_refines:
  assumes "seq_inv api cfg rt"
  shows "seq_inv api cfg (snd (handle_fs_event api rt mo event)) \<and>
    (cat_step api cfg exclusive)\<^sup>*\<^sup>* (catalogue_of rt {#})
      (catalogue_of (snd (handle_fs_event api rt mo event)) {#})" (is "?P (snd (handle_fs_event api rt mo event))")
proof -
  have "cat_step api cfg exclusive (catalogue_of rt {#}) (catalogue_of (emit rt StateFileChanged) {#})"
    using cat_step.state_file [of api cfg exclusive "map_of (rn_loaded rt)" "mset (rn_events rt)"]
    by (simp add: catalogue_of_def)
  then have "?P (emit rt StateFileChanged)" using assms by (auto simp: seq_inv_def)
  moreover have "?P (evict_vanished_extensions (ra_semver api) (mo_find mo) rt)"
    using evictions_refine [OF assms] by (simp add: evict_vanished_extensions_def Let_def)
  moreover have "?P (snd (handle_added_or_modified api rt mo dir))" for dir
    by (rule load_then_job [OF reload_is_job _ assms]) simp
  ultimately show ?thesis
    using assms by (simp add: handle_fs_event_def Let_def split: fs_event.split option.split)
qed

lemma step_refines:
  assumes "seq_inv api cfg rt" and "rt_step api pinned rt rt'"
  shows "seq_inv api cfg rt' \<and>
    (cat_step api cfg True)\<^sup>*\<^sup>* (catalogue_of rt {#}) (catalogue_of rt' {#})"
  using assms(2)
proof (cases rule: rt_step.cases)
  case (register mo dir r)
  then have "rt' = snd (register_loaded_from_dir api rt mo dir)" by simp
  from load_then_job [OF this [unfolded register_is_job] _ assms(1)] show ?thesis by simp
next
  case (reload mo dir r)
  then have "rt' = snd (handle_added_or_modified api rt mo dir)" by simp
  from load_then_job [OF this [unfolded reload_is_job] _ assms(1)] show ?thesis by simp
next
  case (fs_event mo event r)
  with fs_event_refines [OF assms(1), of mo event True] show ?thesis by simp
next
  case (removal dir)
  with run_job_refines [OF assms(1), of True "RemoveDir dir"] show ?thesis by (simp add: removal_is_job)
next
  case (others ts)
  with assms(1) show ?thesis by (simp add: seq_inv_def consistent_def catalogue_of_def)
qed

interpretation sequential: simulation "rt_step api pinned" "seq_inv api cfg"
    "\<lambda>rt. catalogue_of rt {#}" "cat_step api cfg True" for api pinned cfg
  by unfold_locales (use step_refines in blast)+

section \<open>A subscriber's view\<close>

fun replay_event :: "string set \<Rightarrow> runtime_event \<Rightarrow> string set" where
  "replay_event S (ExtensionInstalled x) = insert x S"
| "replay_event S (ExtensionUpdated x prev) = S"
| "replay_event S (ExtensionRemoved x) = S - {x}"
| "replay_event S StateFileChanged = S"

definition follows ::
  "('k, 't, 'w, 'c, 'v, 'ts, 'ho) runtime \<Rightarrow> ('k, 't, 'w, 'c, 'v, 'ts, 'ho) runtime \<Rightarrow> bool" where
  "follows rt rt' \<longleftrightarrow> (\<exists>evs. rn_events rt' = rn_events rt @ evs \<and>
     dom (map_of (rn_loaded rt')) = foldl replay_event (dom (map_of (rn_loaded rt))) evs)"

lemma follows_refl [simp]: "follows rt rt"
  by (simp add: follows_def)

lemma follows_trans: "follows r s \<Longrightarrow> follows s t \<Longrightarrow> follows r t"
  by (auto simp: follows_def)

lemma job_replay:
  assumes "job_edit sv job m = (ev, m')" and "keys_distinct m"
  shows "dom (map_of m') = (case ev of None \<Rightarrow> dom (map_of m) | Some e \<Rightarrow> replay_event (dom (map_of m)) e)"
  using assms find_loaded [OF assms(2)]
  by (cases job)
     (auto simp: update_conv delete_conv reload_edit_def Let_def split: option.splits if_splits prod.splits)

lemma run_job_follows: "keys_distinct (rn_loaded rt) \<Longrightarrow> follows rt (run_job sv job rt)"
  using job_replay [of sv job "rn_loaded rt"]
  by (cases "job_edit sv job (rn_loaded rt)")
     (auto simp: run_job_def mutate_loaded_def announce_def follows_def emit_def split: sum.splits option.splits)

lemma load_then_job_follows:
  assumes "rt' = (case verify_and_load api rt mo dir of
      (Inl e, rt1) \<Rightarrow> rt1 | (Inr ext, rt1) \<Rightarrow> run_job (ra_semver api) (job ext) rt1)"
    and "keys_distinct (rn_loaded rt)"
  shows "follows rt rt'"
proof -
  obtain v rt1 where load: "verify_and_load api rt mo dir = (v, rt1)" by fastforce
  have "rn_loaded rt1 = rn_loaded rt" "rn_events rt1 = rn_events rt"
    by (subst verify_and_load_ok(1) [OF load], simp)+
  with assms load run_job_follows [of rt1 "ra_semver api"] show ?thesis
    by (cases v) (auto simp: follows_def)
qed

lemma evictions_follow:
  fixes sv :: "('v::linorder, 'r) semver_api"
  shows "keys_distinct (rn_loaded rt) \<Longrightarrow> follows rt (foldl (evict sv) rt xs)"
proof (induction xs arbitrary: rt)
  case (Cons x xs)
  have "keys_distinct (rn_loaded (evict sv rt x))"
    using Cons.prems
    by (auto simp: evict_def mutate_loaded_def report_eviction_def split: sum.splits option.splits)
  with Cons.IH run_job_follows [OF Cons.prems, of sv "EvictId x"] show ?case
    by (auto simp: evict_is_job intro: follows_trans)
qed simp

lemma fs_event_follows:
  assumes "keys_distinct (rn_loaded rt)"
  shows "follows rt (snd (handle_fs_event api rt mo event))"
proof -
  have "follows rt (emit rt StateFileChanged)" by (simp add: follows_def)
  moreover have "follows rt (evict_vanished_extensions (ra_semver api) (mo_find mo) rt)"
    using evictions_follow [OF assms] by (simp add: evict_vanished_extensions_def Let_def)
  moreover have "follows rt (snd (handle_added_or_modified api rt mo dir))" for dir
    by (rule load_then_job_follows [OF reload_is_job assms])
  ultimately show ?thesis by (simp add: handle_fs_event_def Let_def split: fs_event.split option.split)
qed

lemma step_follows:
  assumes "consistent (ra_semver api) rt" and "rt_step api pinned rt rt'"
  shows "follows rt rt'"
  using assms(2)
proof (cases rule: rt_step.cases)
  case (register mo dir r)
  then have "rt' = snd (register_loaded_from_dir api rt mo dir)" by simp
  from load_then_job_follows [OF this [unfolded register_is_job]] assms(1) show ?thesis
    by (simp add: consistent_def)
next
  case (reload mo dir r)
  then have "rt' = snd (handle_added_or_modified api rt mo dir)" by simp
  from load_then_job_follows [OF this [unfolded reload_is_job]] assms(1) show ?thesis
    by (simp add: consistent_def)
next
  case (fs_event mo event r)
  with fs_event_follows [of rt api mo event] assms(1) show ?thesis by (simp add: consistent_def)
next
  case (removal dir)
  with run_job_follows [of rt "ra_semver api" "RemoveDir dir"] assms(1) show ?thesis
    by (simp add: removal_is_job consistent_def)
next
  case (others ts)
  then show ?thesis by (simp add: follows_def)
qed

lemma steps_follow:
  "(rt_step api pinned)\<^sup>*\<^sup>* rt rt' \<Longrightarrow> consistent (ra_semver api) rt \<Longrightarrow> follows rt rt'"
proof (induction rule: rtranclp_induct)
  case (step u v)
  have "seq_inv api (rn_config rt) rt" using step.prems by (simp add: seq_inv_def)
  from sequential.run_inv [OF step.hyps(1) this] have "follows u v" using step.hyps(2) by (auto simp: seq_inv_def intro: step_follows)
  with step.IH [OF step.prems] show ?case by (rule follows_trans)
qed simp

lemma reachable_follows:
  "reachable api pinned rt \<Longrightarrow> dom (map_of (rn_loaded rt)) = foldl replay_event {} (rn_events rt)"
proof (induction rule: reachable.induct)
  case (start cfg ts)
  show ?case by (simp add: runtime_new_def)
next
  case (overrides rt ov)
  then show ?case by (simp add: runtime_with_host_overrides_def)
next
  case (step rt rt')
  then show ?case
    using step_follows [OF reachable_is_consistent [OF step.hyps(1)] step.hyps(2)] by (auto simp: follows_def)
qed

lemma loaded_ids: "{x. is_ok (lookup rt x)} = dom (map_of (rn_loaded rt))"
  by (auto simp: lookup_def is_ok_iff result_simps)

text \<open>
  A receiver of the event channel is the position it reads from, which a subscription puts behind the
  events already sent. The channel is a parameter: what it still delivers of the unread events, given
  its capacity. The runtime relies on its losing nothing for a receiver that is not further behind.
\<close>

definition EVENT_CHANNEL_CAPACITY :: nat where "EVENT_CHANNEL_CAPACITY = 64"

type_synonym event_channel = "nat \<Rightarrow> runtime_event list \<Rightarrow> runtime_event list"

definition subscribe :: "('k, 't, 'w, 'c, 'v, 'ts, 'ho) runtime \<Rightarrow> nat" where
  "subscribe rt = length (rn_events rt)"

definition receive ::
  "event_channel \<Rightarrow> ('k, 't, 'w, 'c, 'v, 'ts, 'ho) runtime \<Rightarrow> nat \<Rightarrow> runtime_event list" where
  "receive channel rt receiver = channel EVENT_CHANNEL_CAPACITY (drop receiver (rn_events rt))"

definition lossless_within_capacity :: "event_channel \<Rightarrow> bool" where
  "lossless_within_capacity channel \<longleftrightarrow>
     (\<forall>capacity unread. length unread \<le> capacity \<longrightarrow> channel capacity unread = unread)"

lemma follows_subscription:
  assumes "follows rt rt'"
  shows "rn_events rt' = rn_events rt @ drop (subscribe rt) (rn_events rt')"
    and "foldl replay_event (dom (map_of (rn_loaded rt))) (drop (subscribe rt) (rn_events rt')) = dom (map_of (rn_loaded rt'))"
  using assms by (auto simp: follows_def subscribe_def)

text \<open>
  C19: The lifecycle events tell which extensions are loaded. When operations run one after the other,
  replaying all events sent so far from nothing gives exactly the ids a lookup finds; and whoever
  knew those ids when subscribing and applies the events received since knows them at every
  later moment at which at most 64 events are unread, the capacity of the channel. Installations,
  removals and updates are all announced, and nothing else is.
\<close>

theorem events_replay_to_loaded:
  assumes "reachable api pinned rt" and "(rt_step api pinned)\<^sup>*\<^sup>* rt rt'" and "lossless_within_capacity channel"
  shows "foldl replay_event {} (rn_events rt) = {x. is_ok (lookup rt x)}
    \<and> rn_events rt' = rn_events rt @ drop (subscribe rt) (rn_events rt')
    \<and> (length (rn_events rt') \<le> subscribe rt + 64 \<longrightarrow>
         foldl replay_event {x. is_ok (lookup rt x)} (receive channel rt' (subscribe rt)) = {x. is_ok (lookup rt' x)})"
proof -
  note f = steps_follow [OF assms(2) reachable_is_consistent [OF assms(1)]]
  have "receive channel rt' (subscribe rt) = drop (subscribe rt) (rn_events rt')"
    if "length (rn_events rt') \<le> subscribe rt + 64"
    using assms(3) that by (simp add: receive_def lossless_within_capacity_def EVENT_CHANNEL_CAPACITY_def)
  then show ?thesis
    using reachable_follows [OF assms(1)] follows_subscription [OF f] by (auto simp: loaded_ids)
qed

definition example_channel :: event_channel where
  "example_channel capacity unread = drop (length unread - capacity) unread"

theorem events_replay_to_loaded_witness:
  "receive example_channel (example_loaded () ''1'' ''K'') (subscribe (example_start ())) = [ExtensionInstalled ''e'']
   \<and> {x. is_ok (lookup (example_loaded () ''1'' ''K'') x)} = {''e''}"
proof -
  have start: "reachable example_api example_pins (example_start ())"
    unfolding example_start_def by (rule reachable.start)
  have run: "(rt_step example_api example_pins)\<^sup>*\<^sup>* (example_start ()) (example_loaded () ''1'' ''K'')"
    by (rule r_into_rtranclp, rule rt_step.register [OF example_register])
  have chan: "lossless_within_capacity example_channel"
    by (simp add: lossless_within_capacity_def example_channel_def)
  have empty: "{x. is_ok (lookup (example_start ()) x)} = {}"
    by (auto simp: loaded_ids example_start_def runtime_new_def)
  have got: "receive example_channel (example_loaded () ''1'' ''K'') (subscribe (example_start ())) = [ExtensionInstalled ''e'']"
    by (simp add: receive_def subscribe_def example_channel_def EVENT_CHANNEL_CAPACITY_def example_loaded_def example_start_def runtime_new_def)
  have few: "length (rn_events (example_loaded () ''1'' ''K'')) \<le> subscribe (example_start ()) + 64"
    by (simp add: example_loaded_def)
  from events_replay_to_loaded [OF start run chan] few
  have "foldl replay_event {x. is_ok (lookup (example_start ()) x)}
      (receive example_channel (example_loaded () ''1'' ''K'') (subscribe (example_start ())))
    = {x. is_ok (lookup (example_loaded () ''1'' ''K'') x)}" by blast
  with got show ?thesis by (simp add: empty)
qed

end
