(* ===== verification/Interleave.thy ===== *)
theory Interleave
  imports Catalogue
begin

text \<open>
  Threads that work on one shared runtime at the same time: the watcher thread and embedders that
  reload or drop extensions. \<open>mutate_loaded\<close> is taken apart here into what other threads can see of
  it: the edit and the rebuild under the lock, the store of the map, the store of the registry with
  which the lock is given back, and the announcement after it. The gate runs before the lock, and an
  eviction pass takes the lock once per extension. Readers take no lock. The lemmas show that any
  interleaving refines the catalogue, how far the published registry may lag behind the map, and
  that events may be announced out of order.
\<close>

section \<open>Threads\<close>

datatype ('k, 't, 'w, 'c, 'v) thread =
    Idle
  | Waiting "('k, 't, 'w, 'c) job" "string list"
  | MapReady "(string, ('k, 't, 'w, 'c) loaded_extension) hashmap" "('v, 'k) capability_registry"
      "runtime_event option" "string list"
  | MapStored "('v, 'k) capability_registry" "runtime_event option" "string list"
  | Announcing runtime_event "string list"

text \<open>The list at each location holds the ids an eviction pass still has to drop.\<close>

fun evict_next :: "string list \<Rightarrow> ('k, 't, 'w, 'c, 'v) thread" where
  "evict_next [] = Idle"
| "evict_next (x # xs) = Waiting (EvictId x) xs"

definition after_store :: "runtime_event option \<Rightarrow> string list \<Rightarrow> ('k, 't, 'w, 'c, 'v) thread" where
  "after_store ev rest = (case ev of None \<Rightarrow> evict_next rest | Some e \<Rightarrow> Announcing e rest)"

fun holds_lock :: "('k, 't, 'w, 'c, 'v) thread \<Rightarrow> bool" where
  "holds_lock (MapReady m reg ev rest) \<longleftrightarrow> True"
| "holds_lock (MapStored reg ev rest) \<longleftrightarrow> True"
| "holds_lock Idle \<longleftrightarrow> False"
| "holds_lock (Waiting job rest) \<longleftrightarrow> False"
| "holds_lock (Announcing e rest) \<longleftrightarrow> False"

record ('k, 't, 'w, 'c, 'v, 'ts, 'ho) sys =
  sy_runtime :: "('k, 't, 'w, 'c, 'v, 'ts, 'ho) runtime"
  sy_owner :: "nat option"
  sy_threads :: "('k, 't, 'w, 'c, 'v) thread list"

definition start_sys ::
  "('k, 't, 'w, 'c, 'v, 'ts, 'ho) runtime \<Rightarrow> nat \<Rightarrow> ('k, 't, 'w, 'c, 'v, 'ts, 'ho) sys" where
  "start_sys rt n = \<lparr>sy_runtime = rt, sy_owner = None, sy_threads = replicate n Idle\<rparr>"

text \<open>One turn of a thread in the middle of an operation.\<close>

definition thread_turn ::
  "('v::linorder, 'r) semver_api \<Rightarrow> nat \<Rightarrow> ('k, 't, 'w, 'c, 'v, 'ts, 'ho) sys
   \<Rightarrow> ('k, 't, 'w, 'c, 'v, 'ts, 'ho) sys" where
  "thread_turn sv i s =
     (case sy_threads s ! i of
        Idle \<Rightarrow> s
      | Waiting job rest \<Rightarrow>
          if sy_owner s \<noteq> None then s
          else (let (ev, m) = job_edit sv job (rn_loaded (sy_runtime s)) in
                case rebuild_registry sv m of
                  Inl e \<Rightarrow> s\<lparr>sy_threads := (sy_threads s)[i := evict_next rest]\<rparr>
                | Inr reg \<Rightarrow> s\<lparr>sy_owner := Some i, sy_threads := (sy_threads s)[i := MapReady m reg ev rest]\<rparr>)
      | MapReady m reg ev rest \<Rightarrow>
          s\<lparr>sy_runtime := (sy_runtime s)\<lparr>rn_loaded := m\<rparr>,
            sy_threads := (sy_threads s)[i := MapStored reg ev rest]\<rparr>
      | MapStored reg ev rest \<Rightarrow>
          s\<lparr>sy_runtime := (sy_runtime s)\<lparr>rn_registry := reg\<rparr>, sy_owner := None,
            sy_threads := (sy_threads s)[i := after_store ev rest]\<rparr>
      | Announcing e rest \<Rightarrow>
          s\<lparr>sy_runtime := emit (sy_runtime s) e, sy_threads := (sy_threads s)[i := evict_next rest]\<rparr>)"

text \<open>How an idle thread begins: the gate and the load for a reload, the scan for an eviction pass.\<close>

definition begin_reload ::
  "('j, 'k, 't, 'w, 'ts, 'v::linorder, 'r, 'c) runtime_api \<Rightarrow> moments \<Rightarrow> path
   \<Rightarrow> ('k, 't, 'w, 'c, 'v, 'ts, 'ho) runtime
   \<Rightarrow> ('k, 't, 'w, 'c, 'v) thread \<times> ('k, 't, 'w, 'c, 'v, 'ts, 'ho) runtime" where
  "begin_reload api mo dir rt =
     (case verify_and_load api rt mo dir of
        (Inl e, rt1) \<Rightarrow> (Idle, rt1)
      | (Inr ext, rt1) \<Rightarrow> (Waiting (Publish ext) [], rt1))"

definition begin_event ::
  "('j, 'k, 't, 'w, 'ts, 'v::linorder, 'r, 'c) runtime_api \<Rightarrow> moments \<Rightarrow> fs_event
   \<Rightarrow> ('k, 't, 'w, 'c, 'v, 'ts, 'ho) runtime
   \<Rightarrow> ('k, 't, 'w, 'c, 'v) thread \<times> ('k, 't, 'w, 'c, 'v, 'ts, 'ho) runtime" where
  "begin_event api mo event rt =
     (let p = event_path event; paths = rc_paths (rn_config rt) in
      if (case home paths of None \<Rightarrow> False | Some h \<Rightarrow> p = join_name h STATE_FILENAME)
      then (Announcing StateFileChanged [], rt)
      else (case event of
              Removed _ \<Rightarrow>
                (evict_next (map fst (filter (\<lambda>(x, ext). has_vanished (mo_find mo) (le_source_dir ext))
                   (rn_loaded rt))), rt)
            | _ \<Rightarrow>
                (case find_extension_dir (describe_entry_name (ra_env api)) (ra_kind_dirs api)
                        (mo_find mo) (all_paths paths) p of
                   None \<Rightarrow> (Idle, rt)
                 | Some dir \<Rightarrow> begin_reload api mo dir rt)))"

inductive sys_step ::
  "('j, 'k, 't, 'w, 'ts, 'v::linorder, 'r, 'c) runtime_api \<Rightarrow> ('ts \<Rightarrow> path \<Rightarrow> string \<Rightarrow> string option)
   \<Rightarrow> ('k, 't, 'w, 'c, 'v, 'ts, 'ho) sys \<Rightarrow> ('k, 't, 'w, 'c, 'v, 'ts, 'ho) sys \<Rightarrow> bool"
  for api pinned where
  turn: "i < length (sy_threads s) \<Longrightarrow> sys_step api pinned s (thread_turn (ra_semver api) i s)"
| begins: "i < length (sy_threads s) \<Longrightarrow> sy_threads s ! i = Idle
    \<Longrightarrow> (t, rt) = begin_reload api mo dir (sy_runtime s) \<or>
        (t, rt) = begin_event api mo event (sy_runtime s) \<or>
        (t, rt) = (Waiting (RemoveDir dir) [], sy_runtime s)
    \<Longrightarrow> sys_step api pinned s (s\<lparr>sy_runtime := rt, sy_threads := (sy_threads s)[i := t]\<rparr>)"
| others: "pins_kept pinned (rn_trust (sy_runtime s)) ts
    \<Longrightarrow> sys_step api pinned s (s\<lparr>sy_runtime := (sy_runtime s)\<lparr>rn_trust := ts\<rparr>\<rparr>)"

section \<open>The invariant\<close>

text \<open>What a thread's location says of the shared state.\<close>

fun thread_ok ::
  "('j, 'k, 't, 'w, 'ts, 'v::linorder, 'r, 'c) runtime_api \<Rightarrow> 'ho runtime_config
   \<Rightarrow> ('k, 't, 'w, 'c, 'v, 'ts, 'ho) runtime \<Rightarrow> ('k, 't, 'w, 'c, 'v) thread \<Rightarrow> bool" where
  "thread_ok api cfg rt Idle \<longleftrightarrow> True"
| "thread_ok api cfg rt (Waiting job rest) \<longleftrightarrow> job_ok api cfg False job"
| "thread_ok api cfg rt (MapReady m reg ev rest) \<longleftrightarrow>
     rebuild_registry (ra_semver api) (rn_loaded rt) = Inr (rn_registry rt) \<and>
     rebuild_registry (ra_semver api) m = Inr reg \<and>
     (\<exists>job. job_ok api cfg False job \<and> job_edit (ra_semver api) job (rn_loaded rt) = (ev, m))"
| "thread_ok api cfg rt (MapStored reg ev rest) \<longleftrightarrow>
     rebuild_registry (ra_semver api) (rn_loaded rt) = Inr reg \<and>
     (\<exists>m job. rebuild_registry (ra_semver api) m = Inr (rn_registry rt) \<and>
        job_edit (ra_semver api) job m = (ev, rn_loaded rt))"
| "thread_ok api cfg rt (Announcing e rest) \<longleftrightarrow> True"

definition sys_inv ::
  "('j, 'k, 't, 'w, 'ts, 'v::linorder, 'r, 'c) runtime_api \<Rightarrow> 'ho runtime_config
   \<Rightarrow> ('k, 't, 'w, 'c, 'v, 'ts, 'ho) sys \<Rightarrow> bool" where
  "sys_inv api cfg s \<longleftrightarrow>
     keys_distinct (rn_loaded (sy_runtime s)) \<and> list_all filed (rn_loaded (sy_runtime s)) \<and>
     rn_config (sy_runtime s) = cfg \<and>
     (\<forall>i. sy_owner s = Some i \<longleftrightarrow> i < length (sy_threads s) \<and> holds_lock (sy_threads s ! i)) \<and>
     (\<forall>t\<in>set (sy_threads s). thread_ok api cfg (sy_runtime s) t) \<and>
     (sy_owner s = None \<longrightarrow>
        rebuild_registry (ra_semver api) (rn_loaded (sy_runtime s)) = Inr (rn_registry (sy_runtime s)))"

lemma not_holding [simp]: "\<not> holds_lock (evict_next rest)" "\<not> holds_lock (after_store ev rest)"
  by (cases rest; simp add: after_store_def split: option.split)+

lemma evict_next_ok [simp]: "thread_ok api cfg rt (evict_next rest)" "thread_ok api cfg rt (after_store ev rest)"
  by (cases rest; simp add: after_store_def split: option.split)+

text \<open>Threads that do not hold the lock do not depend on what its holder writes.\<close>

lemma thread_ok_frame:
  "thread_ok api cfg rt t \<Longrightarrow>
   \<not> holds_lock t \<or> (rn_loaded rt' = rn_loaded rt \<and> rn_registry rt' = rn_registry rt)
   \<Longrightarrow> thread_ok api cfg rt' t"
  by (cases t) auto

lemma set_update_other:
  "i < length xs \<Longrightarrow> t \<in> set (xs[i := u]) \<Longrightarrow> t = u \<or> (\<exists>j. j \<noteq> i \<and> j < length xs \<and> t = xs ! j)"
  by (auto simp: in_set_conv_nth nth_list_update split: if_splits)

text \<open>A thread moves to a new location while the shared state changes.\<close>

lemma sys_inv_move:
  assumes "sys_inv api cfg s" and "i < length (sy_threads s)"
    and "s' = s\<lparr>sy_runtime := rt, sy_owner := own, sy_threads := (sy_threads s)[i := t]\<rparr>"
    and "keys_distinct (rn_loaded rt)" and "list_all filed (rn_loaded rt)" and "rn_config rt = cfg"
    and "own = (if holds_lock t then Some i else if holds_lock (sy_threads s ! i) then None else sy_owner s)"
    and "holds_lock t \<Longrightarrow> sy_owner s = None \<or> sy_owner s = Some i"
    and "thread_ok api cfg rt t"
    and "sy_owner s = Some i \<or> (rn_loaded rt = rn_loaded (sy_runtime s) \<and> rn_registry rt = rn_registry (sy_runtime s))"
    and "own = None \<Longrightarrow> rebuild_registry (ra_semver api) (rn_loaded rt) = Inr (rn_registry rt)"
  shows "sys_inv api cfg s'"
proof -
  have owner: "sy_owner s = Some j \<longleftrightarrow> j < length (sy_threads s) \<and> holds_lock (sy_threads s ! j)" for j
    using assms(1) by (simp add: sys_inv_def)
  have "thread_ok api cfg rt u" if u: "u \<in> set ((sy_threads s)[i := t])" for u
  proof (cases "u = t")
    case False
    with set_update_other [OF assms(2) u] obtain j where j: "j \<noteq> i" "j < length (sy_threads s)" "u = sy_threads s ! j"
      by blast
    then have "thread_ok api cfg (sy_runtime s) u" using assms(1) by (simp add: sys_inv_def)
    moreover have "\<not> holds_lock u" if "sy_owner s = Some i" using that owner [of j] j by auto
    ultimately show ?thesis using assms(10) by (blast intro: thread_ok_frame)
  qed (simp add: assms(9))
  moreover have "own = Some j \<longleftrightarrow> j < length ((sy_threads s)[i := t]) \<and> holds_lock ((sy_threads s)[i := t] ! j)" for j
    using owner [of i] owner [of j] assms(2,7,8) by (auto simp: nth_list_update)
  ultimately show ?thesis using assms(3-6,11) by (simp add: sys_inv_def)
qed

lemma turn_inv:
  assumes "sys_inv api cfg s" and i: "i < length (sy_threads s)"
  shows "sys_inv api cfg (thread_turn (ra_semver api) i s)"
proof -
  let ?rt = "sy_runtime s" and ?sv = "ra_semver api"
  have keys: "keys_distinct (rn_loaded ?rt)" and filed: "list_all filed (rn_loaded ?rt)"
    and cfg: "rn_config ?rt = cfg" using assms(1) by (simp_all add: sys_inv_def)
  have owner: "sy_owner s = Some i \<longleftrightarrow> holds_lock (sy_threads s ! i)"
    using assms by (simp add: sys_inv_def)
  have free: "sy_owner s = None \<Longrightarrow> rebuild_registry ?sv (rn_loaded ?rt) = Inr (rn_registry ?rt)"
    using assms(1) by (simp add: sys_inv_def)
  have ok: "thread_ok api cfg ?rt (sy_threads s ! i)" using assms by (simp add: sys_inv_def)
  show ?thesis
  proof (cases "sy_threads s ! i")
    case Idle
    with assms(1) show ?thesis by (simp add: thread_turn_def)
  next
    case (Waiting job rest)
    show ?thesis
    proof (cases "sy_owner s")
      case None
      obtain ev m where edit: "job_edit ?sv job (rn_loaded ?rt) = (ev, m)" by fastforce
      note facts = ok Waiting edit keys filed cfg free [OF None] None owner
      show ?thesis
      proof (cases "rebuild_registry ?sv m")
        case (Inl e)
        with facts show ?thesis
          by (intro sys_inv_move [OF assms, where rt = ?rt and own = None and t = "evict_next rest"]) (auto simp: thread_turn_def)
      next
        case (Inr reg)
        with facts show ?thesis
          by (intro sys_inv_move [OF assms, where rt = ?rt and own = "Some i" and t = "MapReady m reg ev rest"])
             (auto simp: thread_turn_def intro!: exI [of _ job])
      qed
    next
      case (Some j)
      with Waiting assms(1) show ?thesis by (simp add: thread_turn_def)
    qed
  next
    case (MapReady m reg ev rest)
    with ok obtain job where job: "job_ok api cfg False job" "job_edit ?sv job (rn_loaded ?rt) = (ev, m)"
      "rebuild_registry ?sv (rn_loaded ?rt) = Inr (rn_registry ?rt)" "rebuild_registry ?sv m = Inr reg" by auto
    note k = job_keeps [OF job(2) keys filed job(1)]
    show ?thesis
      using MapReady k cfg owner job
      by (intro sys_inv_move [OF assms, where rt = "?rt\<lparr>rn_loaded := m\<rparr>" and own = "Some i" and t = "MapStored reg ev rest"])
         (auto simp: thread_turn_def)
  next
    case (MapStored reg ev rest)
    with ok have "rebuild_registry ?sv (rn_loaded ?rt) = Inr reg" by simp
    with MapStored keys filed cfg owner show ?thesis
      by (intro sys_inv_move [OF assms, where rt = "?rt\<lparr>rn_registry := reg\<rparr>" and own = None and t = "after_store ev rest"])
         (auto simp: thread_turn_def)
  next
    case (Announcing e rest)
    with keys filed cfg owner free show ?thesis
      by (intro sys_inv_move [OF assms, where rt = "emit ?rt e" and own = "sy_owner s" and t = "evict_next rest"])
         (auto simp: thread_turn_def)
  qed
qed

text \<open>The events a thread owes: it changed the map for them, and has not announced them yet.\<close>

fun owed :: "('k, 't, 'w, 'c, 'v) thread \<Rightarrow> runtime_event multiset" where
  "owed (MapStored reg ev rest) = log_of ev"
| "owed (Announcing e rest) = {#e#}"
| "owed Idle = {#}"
| "owed (Waiting job rest) = {#}"
| "owed (MapReady m reg ev rest) = {#}"

definition all_owed :: "('k, 't, 'w, 'c, 'v) thread list \<Rightarrow> runtime_event multiset" where
  "all_owed ts = sum_list (map owed ts)"

definition sys_catalogue ::
  "('k, 't, 'w, 'c, 'v, 'ts, 'ho) sys \<Rightarrow> ('k, 't, 'w, 'c) catalogue" where
  "sys_catalogue s = catalogue_of (sy_runtime s) (all_owed (sy_threads s))"

lemma all_owed_update:
  "i < length ts \<Longrightarrow> all_owed (ts[i := t]) + owed (ts ! i) = all_owed ts + owed t"
proof (induction ts arbitrary: i)
  case (Cons u us)
  then show ?case by (cases i) (auto simp: all_owed_def ac_simps)
qed simp

lemma owed_evict_next [simp]: "owed (evict_next rest) = {#}" "owed (after_store ev rest) = log_of ev"
  by (cases rest; simp add: after_store_def split: option.split)+

lemma begin_reload_facts:
  assumes "(t, rt') = begin_reload api mo dir rt"
  shows "rn_loaded rt' = rn_loaded rt" "rn_registry rt' = rn_registry rt" "rn_events rt' = rn_events rt"
    "rn_config rt' = rn_config rt" "\<not> holds_lock t" "thread_ok api (rn_config rt) rt' t" "owed t = {#}"
proof -
  obtain v rt1 where load: "verify_and_load api rt mo dir = (v, rt1)" by fastforce
  have "rn_loaded rt1 = rn_loaded rt" "rn_registry rt1 = rn_registry rt" "rn_events rt1 = rn_events rt"
    "rn_config rt1 = rn_config rt"
    by (subst verify_and_load_ok(1) [OF load], simp)+
  with assms load loaded_job_ok(1,2) [of api rt mo dir _ rt1]
  show "rn_loaded rt' = rn_loaded rt" "rn_registry rt' = rn_registry rt" "rn_events rt' = rn_events rt"
    "rn_config rt' = rn_config rt" "\<not> holds_lock t" "thread_ok api (rn_config rt) rt' t" "owed t = {#}"
    by (cases v; auto simp: begin_reload_def)+
qed

lemma begin_event_facts:
  assumes "(t, rt') = begin_event api mo event rt"
  shows "rn_loaded rt' = rn_loaded rt \<and> rn_registry rt' = rn_registry rt \<and> rn_events rt' = rn_events rt \<and>
    rn_config rt' = rn_config rt \<and> \<not> holds_lock t \<and> thread_ok api (rn_config rt) rt' t \<and>
    (owed t = {#} \<or> owed t = {#StateFileChanged#})"
  using assms begin_reload_facts [of t rt' api mo _ rt]
  by (auto simp: begin_event_def Let_def split: if_splits fs_event.splits option.splits)

lemma step_inv:
  assumes "sys_inv api cfg s" and "sys_step api pinned s s'"
  shows "sys_inv api cfg s'"
  using assms(2)
proof (cases rule: sys_step.cases)
  case (turn i)
  with turn_inv [OF assms(1)] show ?thesis by simp
next
  case (begins i t rt mo dir event)
  let ?rt = "sy_runtime s"
  have cfg: "rn_config ?rt = cfg" using assms(1) by (simp add: sys_inv_def)
  have facts: "rn_loaded rt = rn_loaded ?rt" "rn_registry rt = rn_registry ?rt" "rn_config rt = rn_config ?rt"
    "\<not> holds_lock t" "thread_ok api (rn_config ?rt) rt t"
    using begins(4) begin_reload_facts [of t rt api mo dir ?rt] begin_event_facts [of t rt api mo event ?rt]
    by auto
  show ?thesis
    using assms(1) begins(1,3) facts cfg
    by (intro sys_inv_move [OF assms(1) begins(2), where rt = rt and own = "sy_owner s" and t = t])
       (auto simp: sys_inv_def)
next
  case (others ts)
  have frame: "thread_ok api cfg (sy_runtime s) t \<Longrightarrow> thread_ok api cfg ((sy_runtime s)\<lparr>rn_trust := ts\<rparr>) t" for t
    by (erule thread_ok_frame) simp
  from others assms(1) frame show ?thesis by (simp add: sys_inv_def)
qed

lemma turn_refines:
  assumes "sys_inv api cfg s" and i: "i < length (sy_threads s)"
  shows "(cat_step api cfg False)\<^sup>*\<^sup>* (sys_catalogue s) (sys_catalogue (thread_turn (ra_semver api) i s))"
proof (cases "sy_threads s ! i")
  case Idle
  then show ?thesis by (simp add: thread_turn_def)
next
  case (Waiting job rest)
  then show ?thesis
    using all_owed_update [OF i]
    by (auto simp: thread_turn_def sys_catalogue_def Let_def split: prod.split sum.split)
next
  case (MapReady m reg ev rest)
  from assms have "thread_ok api cfg (sy_runtime s) (sy_threads s ! i)" "keys_distinct (rn_loaded (sy_runtime s))"
    by (simp_all add: sys_inv_def)
  with MapReady obtain job where "job_ok api cfg False job"
    "job_edit (ra_semver api) job (rn_loaded (sy_runtime s)) = (ev, m)" by auto
  from job_step [OF this(2) _ this(1), of "mset (rn_events (sy_runtime s)) + all_owed (sy_threads s)"]
    \<open>keys_distinct _\<close> MapReady all_owed_update [OF i, of "MapStored reg ev rest"]
  show ?thesis by (simp add: thread_turn_def sys_catalogue_def catalogue_of_def ac_simps)
next
  case (MapStored reg ev rest)
  then show ?thesis
    using all_owed_update [OF i, of "after_store ev rest"]
    by (simp add: thread_turn_def sys_catalogue_def catalogue_of_def)
next
  case (Announcing e rest)
  then have "all_owed (sy_threads s) = add_mset e (all_owed ((sy_threads s)[i := evict_next rest]))"
    using all_owed_update [OF i, of "evict_next rest"] by simp
  with Announcing show ?thesis by (simp add: thread_turn_def sys_catalogue_def catalogue_of_def)
qed

lemma sys_step_refines:
  assumes "sys_inv api cfg s" and "sys_step api pinned s s'"
  shows "(cat_step api cfg False)\<^sup>*\<^sup>* (sys_catalogue s) (sys_catalogue s')"
  using assms(2)
proof (cases rule: sys_step.cases)
  case (turn i)
  with turn_refines [OF assms(1)] show ?thesis by simp
next
  case (begins i t rt mo dir event)
  let ?rt = "sy_runtime s"
  have "rn_loaded rt = rn_loaded ?rt" "rn_events rt = rn_events ?rt"
    and t: "owed t = {#} \<or> owed t = {#StateFileChanged#}"
    using begins(4) begin_reload_facts [of t rt api mo dir ?rt] begin_event_facts [of t rt api mo event ?rt]
    by auto
  with begins all_owed_update [OF begins(2), of t]
  have "sys_catalogue s' = catalogue_of ?rt (all_owed (sy_threads s) + owed t)"
    by (simp add: sys_catalogue_def catalogue_of_def)
  with t cat_step.state_file [of api cfg False "map_of (rn_loaded ?rt)"] show ?thesis
    by (auto simp: sys_catalogue_def catalogue_of_def)
next
  case (others ts)
  then show ?thesis by (simp add: sys_catalogue_def catalogue_of_def)
qed

interpretation interleaved: simulation "sys_step api pinned" "sys_inv api cfg"
    sys_catalogue "cat_step api cfg False" for api pinned cfg
  by unfold_locales (use step_inv sys_step_refines in blast)+

lemma start_inv: "consistent (ra_semver api) rt \<Longrightarrow> sys_inv api (rn_config rt) (start_sys rt n)"
  by (auto simp: sys_inv_def start_sys_def consistent_def)

lemma all_owed_rest: "\<forall>t\<in>set ts. t = Idle \<Longrightarrow> all_owed ts = {#}"
  by (induction ts) (simp_all add: all_owed_def)

lemma all_owed_idle: "all_owed (replicate n Idle) = {#}"
  by (rule all_owed_rest) simp

lemma sys_catalogue_rest: "\<forall>t\<in>set (sy_threads s). t = Idle \<Longrightarrow> sys_catalogue s = catalogue_of (sy_runtime s) {#}"
  by (simp add: sys_catalogue_def all_owed_rest)

lemma start_catalogue: "sys_catalogue (start_sys rt n) = catalogue_of rt {#}"
  by (simp add: sys_catalogue_def start_sys_def all_owed_idle)

section \<open>What the catalogue keeps\<close>

lemma cat_log_grows: "cat_step api cfg exclusive a b \<Longrightarrow> count (ct_log a) e \<le> count (ct_log b) e"
  by (erule cat_step.cases) auto

lemma cat_run_log_grows: "(cat_step api cfg exclusive)\<^sup>*\<^sup>* a b \<Longrightarrow> count (ct_log a) e \<le> count (ct_log b) e"
  by (induction rule: rtranclp_induct) (auto intro: order_trans cat_log_grows)

text \<open>
  An id that is not removed is replaced only by what is no downgrade. The chain of comparisons holds
  as long as every version that was replaced, which the log names, can be read.
\<close>

lemma cat_version_grows:
  assumes "(cat_step api cfg False)\<^sup>*\<^sup>* a b"
    and "count (ct_log b) (ExtensionRemoved x) = count (ct_log a) (ExtensionRemoved x)"
    and "\<forall>prev. count (ct_log a) (ExtensionUpdated x prev) < count (ct_log b) (ExtensionUpdated x prev)
           \<longrightarrow> is_ok (parse_version (ra_semver api) prev)"
    and "ct_loaded a x = Some e"
  shows "\<exists>e'. ct_loaded b x = Some e' \<and>
    (\<forall>v v'. parse_version (ra_semver api) (d_version (le_describe e)) = Inr v \<longrightarrow>
       parse_version (ra_semver api) (d_version (le_describe e')) = Inr v' \<longrightarrow> v \<le> v')"
  using assms(1-3)
proof (induction rule: rtranclp_induct)
  case base
  with assms(4) show ?case by auto
next
  case (step b c)
  note grows = cat_run_log_grows [OF step.hyps(1)] cat_log_grows [OF step.hyps(2)]
  have same: "count (ct_log b) (ExtensionRemoved x) = count (ct_log a) (ExtensionRemoved x)"
    "count (ct_log c) (ExtensionRemoved x) = count (ct_log b) (ExtensionRemoved x)"
    using grows [of "ExtensionRemoved x"] step.prems(1) by simp_all
  have "\<forall>prev. count (ct_log a) (ExtensionUpdated x prev) < count (ct_log b) (ExtensionUpdated x prev)
      \<longrightarrow> is_ok (parse_version (ra_semver api) prev)"
    using step.prems(2) grows(2) less_le_trans by blast
  from step.IH [OF same(1) this] obtain e' where e': "ct_loaded b x = Some e'"
    "\<And>v v'. parse_version (ra_semver api) (d_version (le_describe e)) = Inr v \<Longrightarrow>
       parse_version (ra_semver api) (d_version (le_describe e')) = Inr v' \<Longrightarrow> v \<le> v'" by blast
  from step.hyps(2) show ?case
  proof (cases rule: cat_step.cases)
    case (update ext y m f L)
    show ?thesis
    proof (cases "y = x")
      case True
      with update e'(1) have old: "f = e'" by simp
      have "count (ct_log a) (ExtensionUpdated x (d_version (le_describe e')))
          < count (ct_log c) (ExtensionUpdated x (d_version (le_describe e')))"
        using grows(1) [of "ExtensionUpdated x (d_version (le_describe e'))"] update True old by simp
      with step.prems(2) obtain w where "parse_version (ra_semver api) (d_version (le_describe e')) = Inr w"
        by (auto simp: is_ok_iff)
      moreover from this update(6) old have "w \<le> v'"
        if "parse_version (ra_semver api) (d_version (le_describe ext)) = Inr v'" for v'
        using that by (simp add: is_downgrade_def)
      ultimately show ?thesis using update True e'(2) by (auto intro: order_trans)
    qed (use update e' in auto)
  next
    case (remove m y f L)
    with same(2) e' show ?thesis by (cases "y = x") auto
  qed (use e' in auto)
qed

text \<open>
  Installations and removals of an id alternate, and whatever changes under an id is logged. So the log
  of a run tells what the run did to the map.
\<close>

definition names_id :: "string \<Rightarrow> runtime_event \<Rightarrow> bool" where
  "names_id x e \<longleftrightarrow> e = ExtensionInstalled x \<or> e = ExtensionRemoved x \<or> (\<exists>prev. e = ExtensionUpdated x prev)"

lemma cat_balance:
  "(cat_step api cfg False)\<^sup>*\<^sup>* a b \<Longrightarrow>
     count (ct_log b) (ExtensionInstalled x) + count (ct_log a) (ExtensionRemoved x) + of_bool (ct_loaded a x \<noteq> None)
     = count (ct_log a) (ExtensionInstalled x) + count (ct_log b) (ExtensionRemoved x) + of_bool (ct_loaded b x \<noteq> None)"
proof (induction rule: rtranclp_induct)
  case (step b c)
  from step.hyps(2) have "count (ct_log c) (ExtensionInstalled x) + count (ct_log b) (ExtensionRemoved x) + of_bool (ct_loaded b x \<noteq> None)
     = count (ct_log b) (ExtensionInstalled x) + count (ct_log c) (ExtensionRemoved x) + of_bool (ct_loaded c x \<noteq> None)"
    by (cases rule: cat_step.cases) auto
  with step.IH show ?case by simp
qed simp

lemma cat_change_logged:
  "(cat_step api cfg False)\<^sup>*\<^sup>* a b \<Longrightarrow> ct_loaded b x \<noteq> ct_loaded a x
    \<Longrightarrow> \<exists>e. names_id x e \<and> count (ct_log a) e < count (ct_log b) e"
proof (induction rule: rtranclp_induct)
  case (step b c)
  show ?case
  proof (cases "ct_loaded b x = ct_loaded a x")
    case True
    from step.hyps(2) step.prems True have "\<exists>e. names_id x e \<and> count (ct_log b) e < count (ct_log c) e"
      by (cases rule: cat_step.cases) (auto simp: names_id_def split: if_splits)
    with cat_run_log_grows [OF step.hyps(1)] show ?thesis by (blast intro: le_less_trans)
  next
    case False
    with step.IH cat_log_grows [OF step.hyps(2)] show ?thesis by (blast intro: less_le_trans)
  qed
qed simp

section \<open>Progress\<close>

text \<open>The turns a thread still needs.\<close>

fun turns_left :: "('k, 't, 'w, 'c, 'v) thread \<Rightarrow> nat" where
  "turns_left Idle = 0"
| "turns_left (Waiting job rest) = 4 + 4 * length rest"
| "turns_left (MapReady m reg ev rest) = 3 + 4 * length rest"
| "turns_left (MapStored reg ev rest) = 2 + 4 * length rest"
| "turns_left (Announcing e rest) = 1 + 4 * length rest"

definition work :: "('k, 't, 'w, 'c, 'v, 'ts, 'ho) sys \<Rightarrow> nat" where
  "work s = sum_list (map turns_left (sy_threads s))"

lemma turns_left_next [simp]: "turns_left (evict_next rest) = 4 * length rest"
  by (cases rest) simp_all

lemma turns_left_after [simp]: "turns_left (after_store ev rest) < Suc (Suc (4 * length rest))"
  by (simp add: after_store_def split: option.split)

lemma work_update:
  assumes "i < length (sy_threads s)" and "turns_left t < turns_left (sy_threads s ! i)"
    and "sy_threads s' = (sy_threads s)[i := t]"
  shows "work s' < work s"
proof -
  have "sum_list (map turns_left (ts[i := t])) < sum_list (map turns_left ts)"
    if "i < length ts" "turns_left t < turns_left (ts ! i)" for ts
    using that
  proof (induction ts arbitrary: i)
    case (Cons u us)
    then show ?case by (cases i) auto
  qed simp
  with assms show ?thesis by (simp add: work_def)
qed

text \<open>A turn is wasted only by an idle thread, or by one that waits for a lock another holds.\<close>

lemma turn_works:
  assumes "i < length (sy_threads s)" and "sy_threads s ! i \<noteq> Idle"
    and "sy_owner s = None \<or> holds_lock (sy_threads s ! i) \<or> (\<exists>e rest. sy_threads s ! i = Announcing e rest)"
  shows "work (thread_turn sv i s) < work s"
proof (cases "sy_threads s ! i")
  case (Waiting job rest)
  with assms(3) have free: "sy_owner s = None" by auto
  obtain ev m where edit: "job_edit sv job (rn_loaded (sy_runtime s)) = (ev, m)" by fastforce
  show ?thesis
  proof (cases "rebuild_registry sv m")
    case (Inl e)
    with assms(1) Waiting free edit show ?thesis
      by (intro work_update [of i s "evict_next rest"]) (simp_all add: thread_turn_def)
  next
    case (Inr reg)
    with assms(1) Waiting free edit show ?thesis
      by (intro work_update [of i s "MapReady m reg ev rest"]) (simp_all add: thread_turn_def)
  qed
next
  case (MapReady m reg ev rest)
  with assms(1) show ?thesis
    by (intro work_update [of i s "MapStored reg ev rest"]) (simp_all add: thread_turn_def)
next
  case (MapStored reg ev rest)
  with assms(1) show ?thesis
    by (intro work_update [of i s "after_store ev rest"]) (simp_all add: thread_turn_def)
next
  case (Announcing e rest)
  with assms(1) show ?thesis
    by (intro work_update [of i s "evict_next rest"]) (simp_all add: thread_turn_def)
qed (use assms(2) in simp)

lemma turn_waits:
  "sy_threads s ! i = Idle \<or> (\<exists>job rest. sy_threads s ! i = Waiting job rest \<and> sy_owner s \<noteq> None)
   \<Longrightarrow> thread_turn sv i s = s"
  by (auto simp: thread_turn_def)

lemma turn_progress: "i < length (sy_threads s) \<Longrightarrow> thread_turn sv i s = s \<or> work (thread_turn sv i s) < work s"
  using turn_works [of i s sv] turn_waits [of s i sv] by (cases "sy_threads s ! i") auto

lemma never_stuck:
  assumes "sys_inv api cfg s" and "j < length (sy_threads s)" and "sy_threads s ! j \<noteq> Idle"
  shows "\<exists>i < length (sy_threads s). work (thread_turn sv i s) < work s"
proof (cases "sy_owner s")
  case None
  with turn_works [OF assms(2,3), of sv] assms(2) show ?thesis by blast
next
  case (Some i)
  then have i: "i < length (sy_threads s)" "holds_lock (sy_threads s ! i)"
    using assms(1) by (auto simp: sys_inv_def)
  then have "sy_threads s ! i \<noteq> Idle" by auto
  with turn_works [of i s sv] i show ?thesis by blast
qed

lemma thread_count [simp]: "length (sy_threads (thread_turn sv i s)) = length (sy_threads s)"
  by (simp add: thread_turn_def Let_def split: thread.split sum.split prod.split)

lemma runs_to_rest:
  assumes "sys_inv api cfg s"
  shows "\<exists>s'. (sys_step api pinned)\<^sup>*\<^sup>* s s' \<and> sy_threads s' = replicate (length (sy_threads s)) Idle"
  using assms
proof (induction "work s" arbitrary: s rule: less_induct)
  case less
  show ?case
  proof (cases "\<exists>j < length (sy_threads s). sy_threads s ! j \<noteq> Idle")
    case False
    then have "sy_threads s = replicate (length (sy_threads s)) Idle" by (auto intro: nth_equalityI)
    then show ?thesis by blast
  next
    case True
    then obtain i where i: "i < length (sy_threads s)" "work (thread_turn (ra_semver api) i s) < work s"
      using never_stuck [OF less.prems] by blast
    from less.hyps [OF i(2) turn_inv [OF less.prems i(1)]] sys_step.turn [OF i(1), of api pinned]
    show ?thesis by (auto intro: converse_rtranclp_into_rtranclp)
  qed
qed

section \<open>A race of announcements\<close>

text \<open>
  Two threads: the first installs an extension, and before it announces that, the second finds the
  directory gone, evicts the extension and announces the removal.
\<close>

type_synonym 'ho example_sys = "(unit, unit, unit, string, nat, example_store, 'ho) sys"

definition race_runtime :: "'ho \<Rightarrow> bool \<Rightarrow> bool \<Rightarrow> runtime_event list \<Rightarrow> 'ho example_runtime" where
  "race_runtime ho mapped registered evs =
     \<lparr>rn_config = example_config ho,
      rn_loaded = (if mapped then [(''e'', example_extension ''e'' ''1'' ''K'')] else []),
      rn_registry = (if registered then [(''cap'', [example_binding ''1''])] else []),
      rn_events = evs, rn_trust = [(([RootDir, Normal ''g''], ''e''), ''K'')]\<rparr>"

definition race_moments :: moments where
  "race_moments = \<lparr>mo_find = example_fs [RootDir] [], mo_gate = endless_fs, mo_load = endless_fs\<rparr>"

abbreviation race_sys ::
  "'ho example_runtime \<Rightarrow> nat option \<Rightarrow> (unit, unit, unit, string, nat) thread
   \<Rightarrow> (unit, unit, unit, string, nat) thread \<Rightarrow> 'ho example_sys" where
  "race_sys rt own t u \<equiv> \<lparr>sy_runtime = rt, sy_owner = own, sy_threads = [t, u]\<rparr>"

lemma race_begins:
  "begin_reload example_api (example_moments ''e,1,K'') example_dir (example_start ho) =
     (Waiting (Publish (example_extension ''e'' ''1'' ''K'')) [], race_runtime ho False False [])"
  "begin_event example_api race_moments (Removed example_dir) (race_runtime ho True True []) =
     (Waiting (EvictId ''e'') [], race_runtime ho True True [])"
  by (simp_all add: begin_reload_def verify_and_load_def example_moments_def example_gate example_pin_def
      example_load example_start_def runtime_new_def race_runtime_def registry_new_def)
    (simp_all add: begin_event_def race_moments_def example_config_def from_paths_def
      discovery_new_def home_def parent_def has_vanished_def example_fs_def example_extension_def
      example_dir_def Let_def)

lemma example_id: "le_id (example_extension x v key) = x"
  by (simp add: example_extension_def)

lemma rebuild_empty: "rebuild_registry sv [] = Inr []"
  by (simp add: rebuild_registry_def registry_new_def)

lemma race_turns:
  "thread_turn example_semver 0 (race_sys (race_runtime ho False False []) None
       (Waiting (Publish (example_extension ''e'' ''1'' ''K'')) []) u) =
     race_sys (race_runtime ho False False []) (Some 0)
       (MapReady [(''e'', example_extension ''e'' ''1'' ''K'')] [(''cap'', [example_binding ''1''])]
         (Some (ExtensionInstalled ''e'')) []) u"
  "thread_turn example_semver 0 (race_sys (race_runtime ho False False []) (Some 0)
       (MapReady [(''e'', example_extension ''e'' ''1'' ''K'')] [(''cap'', [example_binding ''1''])]
         (Some (ExtensionInstalled ''e'')) []) u) =
     race_sys (race_runtime ho True False []) (Some 0)
       (MapStored [(''cap'', [example_binding ''1''])] (Some (ExtensionInstalled ''e'')) []) u"
  "thread_turn example_semver 0 (race_sys (race_runtime ho True False []) (Some 0)
       (MapStored [(''cap'', [example_binding ''1''])] (Some (ExtensionInstalled ''e'')) []) u) =
     race_sys (race_runtime ho True True []) None (Announcing (ExtensionInstalled ''e'') []) u"
  "thread_turn example_semver (Suc 0) (race_sys (race_runtime ho True True []) None t (Waiting (EvictId ''e'') [])) =
     race_sys (race_runtime ho True True []) (Some (Suc 0)) t (MapReady [] [] (Some (ExtensionRemoved ''e'')) [])"
  "thread_turn example_semver (Suc 0) (race_sys (race_runtime ho True True []) (Some (Suc 0)) t
       (MapReady [] [] (Some (ExtensionRemoved ''e'')) [])) =
     race_sys (race_runtime ho False True []) (Some (Suc 0)) t (MapStored [] (Some (ExtensionRemoved ''e'')) [])"
  "thread_turn example_semver (Suc 0) (race_sys (race_runtime ho False True []) (Some (Suc 0)) t
       (MapStored [] (Some (ExtensionRemoved ''e'')) [])) =
     race_sys (race_runtime ho False False []) None t (Announcing (ExtensionRemoved ''e'') [])"
  "thread_turn example_semver (Suc 0) (race_sys (race_runtime ho False False []) None t
       (Announcing (ExtensionRemoved ''e'') [])) =
     race_sys (race_runtime ho False False [ExtensionRemoved ''e'']) None t Idle"
  "thread_turn example_semver 0 (race_sys (race_runtime ho False False [ExtensionRemoved ''e'']) None
       (Announcing (ExtensionInstalled ''e'') []) u) =
     race_sys (race_runtime ho False False [ExtensionRemoved ''e'', ExtensionInstalled ''e'']) None Idle u"
  by (simp_all add: thread_turn_def race_runtime_def reload_edit_def example_id example_rebuild rebuild_empty
      after_store_def emit_def)

lemma reload_run:
  "(sys_step api pinned)\<^sup>*\<^sup>* s u \<Longrightarrow> i < length (sy_threads u) \<Longrightarrow> sy_threads u ! i = Idle
    \<Longrightarrow> begin_reload api mo dir (sy_runtime u) = (t, rt)
    \<Longrightarrow> (sys_step api pinned)\<^sup>*\<^sup>* s (u\<lparr>sy_runtime := rt, sy_threads := (sy_threads u)[i := t]\<rparr>)"
  by (erule rtranclp.rtrancl_into_rtrancl, rule sys_step.begins [where mo = mo and dir = dir]) simp_all

lemma event_run:
  "(sys_step api pinned)\<^sup>*\<^sup>* s u \<Longrightarrow> i < length (sy_threads u) \<Longrightarrow> sy_threads u ! i = Idle
    \<Longrightarrow> begin_event api mo event (sy_runtime u) = (t, rt)
    \<Longrightarrow> (sys_step api pinned)\<^sup>*\<^sup>* s (u\<lparr>sy_runtime := rt, sy_threads := (sy_threads u)[i := t]\<rparr>)"
  by (erule rtranclp.rtrancl_into_rtrancl, rule sys_step.begins [where mo = mo and event = event]) simp_all

lemma turn_run:
  assumes "(sys_step example_api pinned)\<^sup>*\<^sup>* s u" and "thread_turn example_semver i u = v"
    and "i < length (sy_threads u)"
  shows "(sys_step example_api pinned)\<^sup>*\<^sup>* s v"
  using assms(1) sys_step.turn [OF assms(3), of example_api pinned]
  by (simp add: assms(2) rtranclp.rtrancl_into_rtrancl)

section \<open>A race of reloads\<close>

text \<open>
  Two threads reload an extension that is loaded at version 1. Both have passed the gate, the first
  with version 3, the second with version 2, before the first takes the lock; the second finds
  version 3 loaded when it has the lock, and changes nothing.
\<close>

definition update_runtime :: "string \<Rightarrow> string \<Rightarrow> runtime_event list \<Rightarrow> unit example_runtime" where
  "update_runtime v w evs =
     \<lparr>rn_config = example_config (), rn_loaded = [(''e'', example_extension ''e'' v ''K'')],
      rn_registry = [(''cap'', [example_binding w])],
      rn_events = ExtensionInstalled ''e'' # evs, rn_trust = [(([RootDir, Normal ''g''], ''e''), ''K'')]\<rparr>"

text \<open>The moment at which the first has stored its map and not yet the registry.\<close>

definition lagging_sys :: "unit example_sys" where
  "lagging_sys = race_sys (update_runtime ''3'' ''1'' []) (Some 0)
     (MapStored [(''cap'', [example_binding ''3''])] (Some (ExtensionUpdated ''e'' ''1'')) [])
     (Waiting (Publish (example_extension ''e'' ''2'' ''K'')) [])"

definition updated_sys :: "unit example_sys" where
  "updated_sys = race_sys (update_runtime ''3'' ''3'' [ExtensionUpdated ''e'' ''1'']) None Idle Idle"

lemma update_begins:
  "begin_reload example_api (example_moments ''e,3,K'') example_dir (update_runtime ''1'' ''1'' []) =
     (Waiting (Publish (example_extension ''e'' ''3'' ''K'')) [], update_runtime ''1'' ''1'' [])"
  "begin_reload example_api (example_moments ''e,2,K'') example_dir (update_runtime ''1'' ''1'' []) =
     (Waiting (Publish (example_extension ''e'' ''2'' ''K'')) [], update_runtime ''1'' ''1'' [])"
proof -
  have rt: "update_runtime ''1'' ''1'' [] = example_loaded () ''1'' ''K''"
    by (simp add: update_runtime_def example_loaded_def)
  show "begin_reload example_api (example_moments ''e,3,K'') example_dir (update_runtime ''1'' ''1'' []) =
      (Waiting (Publish (example_extension ''e'' ''3'' ''K'')) [], update_runtime ''1'' ''1'' [])"
    "begin_reload example_api (example_moments ''e,2,K'') example_dir (update_runtime ''1'' ''1'' []) =
      (Waiting (Publish (example_extension ''e'' ''2'' ''K'')) [], update_runtime ''1'' ''1'' [])"
    unfolding rt by (simp_all add: begin_reload_def example_verify_and_load example_pin_def)
      (simp_all add: example_loaded_def)
qed

lemma example_version: "d_version (le_describe (example_extension x v key)) = v"
  by (simp add: example_extension_def)

lemma update_turns:
  "thread_turn example_semver 0 (race_sys (update_runtime ''1'' ''1'' []) None
       (Waiting (Publish (example_extension ''e'' ''3'' ''K'')) []) u) =
     race_sys (update_runtime ''1'' ''1'' []) (Some 0)
       (MapReady [(''e'', example_extension ''e'' ''3'' ''K'')] [(''cap'', [example_binding ''3''])]
         (Some (ExtensionUpdated ''e'' ''1'')) []) u"
  "thread_turn example_semver 0 (race_sys (update_runtime ''1'' ''1'' []) (Some 0)
       (MapReady [(''e'', example_extension ''e'' ''3'' ''K'')] [(''cap'', [example_binding ''3''])]
         (Some (ExtensionUpdated ''e'' ''1'')) []) u) =
     race_sys (update_runtime ''3'' ''1'' []) (Some 0)
       (MapStored [(''cap'', [example_binding ''3''])] (Some (ExtensionUpdated ''e'' ''1'')) []) u"
  "thread_turn example_semver 0 (race_sys (update_runtime ''3'' ''1'' []) (Some 0)
       (MapStored [(''cap'', [example_binding ''3''])] (Some (ExtensionUpdated ''e'' ''1'')) []) u) =
     race_sys (update_runtime ''3'' ''3'' []) None (Announcing (ExtensionUpdated ''e'' ''1'') []) u"
  "thread_turn example_semver 0 (race_sys (update_runtime ''3'' ''3'' []) None
       (Announcing (ExtensionUpdated ''e'' ''1'') []) u) =
     race_sys (update_runtime ''3'' ''3'' [ExtensionUpdated ''e'' ''1'']) None Idle u"
  "thread_turn example_semver (Suc 0) (race_sys (update_runtime ''3'' ''3'' evs) None Idle
       (Waiting (Publish (example_extension ''e'' ''2'' ''K'')) [])) =
     race_sys (update_runtime ''3'' ''3'' evs) (Some (Suc 0)) Idle
       (MapReady [(''e'', example_extension ''e'' ''3'' ''K'')] [(''cap'', [example_binding ''3''])] None [])"
  "thread_turn example_semver (Suc 0) (race_sys (update_runtime ''3'' ''3'' evs) (Some (Suc 0)) Idle
       (MapReady [(''e'', example_extension ''e'' ''3'' ''K'')] [(''cap'', [example_binding ''3''])] None [])) =
     race_sys (update_runtime ''3'' ''3'' evs) (Some (Suc 0)) Idle (MapStored [(''cap'', [example_binding ''3''])] None [])"
  "thread_turn example_semver (Suc 0) (race_sys (update_runtime ''3'' ''3'' evs) (Some (Suc 0)) Idle
       (MapStored [(''cap'', [example_binding ''3''])] None [])) =
     race_sys (update_runtime ''3'' ''3'' evs) None Idle Idle"
  by (simp_all add: thread_turn_def update_runtime_def reload_edit_def example_id example_version example_rebuild
      is_downgrade_def parse_example after_store_def emit_def)

lemma lagging_run:
  "(sys_step example_api example_pins)\<^sup>*\<^sup>* (start_sys (example_loaded () ''1'' ''K'') 2) lagging_sys"
proof -
  let ?S = "start_sys (example_loaded () ''1'' ''K'') 2"
  have start: "?S = race_sys (update_runtime ''1'' ''1'' []) None Idle Idle"
    by (simp add: start_sys_def numeral_2_eq_2 update_runtime_def example_loaded_def)
  have "(sys_step example_api example_pins)\<^sup>*\<^sup>* ?S (race_sys (update_runtime ''1'' ''1'' []) None
      (Waiting (Publish (example_extension ''e'' ''3'' ''K'')) []) Idle)"
    using reload_run [OF rtranclp.rtrancl_refl [of "sys_step example_api example_pins" ?S], of 0
        "example_moments ''e,3,K''" example_dir] by (simp add: start update_begins)
  from reload_run [OF this, of "Suc 0" "example_moments ''e,2,K''" example_dir]
  have "(sys_step example_api example_pins)\<^sup>*\<^sup>* ?S (race_sys (update_runtime ''1'' ''1'' []) None
      (Waiting (Publish (example_extension ''e'' ''3'' ''K'')) [])
      (Waiting (Publish (example_extension ''e'' ''2'' ''K'')) []))" by (simp add: update_begins)
  from turn_run [OF turn_run [OF this update_turns(1)] update_turns(2)] show ?thesis by (simp add: lagging_sys_def)
qed

lemma updated_run:
  "(sys_step example_api example_pins)\<^sup>*\<^sup>* (start_sys (example_loaded () ''1'' ''K'') 2) updated_sys"
proof -
  from turn_run [OF turn_run [OF lagging_run [unfolded lagging_sys_def] update_turns(3)] update_turns(4)]
  have "(sys_step example_api example_pins)\<^sup>*\<^sup>* (start_sys (example_loaded () ''1'' ''K'') 2)
      (race_sys (update_runtime ''3'' ''3'' [ExtensionUpdated ''e'' ''1'']) None Idle
         (Waiting (Publish (example_extension ''e'' ''2'' ''K'')) []))" by simp
  from turn_run [OF turn_run [OF turn_run [OF this update_turns(5)] update_turns(6)] update_turns(7)]
  show ?thesis by (simp add: updated_sys_def)
qed

lemma updated_lookup: "lookup (sy_runtime updated_sys) ''e'' = Inr (example_extension ''e'' ''3'' ''K'')"
  by (simp add: updated_sys_def update_runtime_def lookup_def)

section \<open>Properties\<close>

lemma is_ok_lookup: "is_ok (lookup rt x) \<longleftrightarrow> map_of (rn_loaded rt) x \<noteq> None"
  by (auto simp: lookup_def is_ok_iff result_simps)

lemma started_inv: "reachable api pinned rt \<Longrightarrow> sys_inv api (rn_config rt) (start_sys rt n)"
  by (intro start_inv reachable_is_consistent)

lemma run_sys_inv:
  "reachable api pinned rt \<Longrightarrow> (sys_step api pinned)\<^sup>*\<^sup>* (start_sys rt n) s \<Longrightarrow> sys_inv api (rn_config rt) s"
  by (rule interleaved.run_inv [OF _ started_inv])

text \<open>
  C4: Any interleaving of any number of threads refines the catalogue. Whatever runs at the same time,
  reloads, eviction passes, filesystem events, writes of other tools to the key store, the loaded
  map changes only by the catalogue's steps: a verified extension is installed where none was, or
  replaces one that is not newer, or one is removed. No edit is lost and none is applied to a stale
  map; and every change is announced exactly once, by the time all threads are idle.
\<close>

theorem interleaving_refines_catalogue:
  assumes "reachable api pinned rt" and "(sys_step api pinned)\<^sup>*\<^sup>* (start_sys rt n) s"
  shows "(cat_step api (rn_config rt) False)\<^sup>*\<^sup>* (catalogue_of rt {#}) (sys_catalogue s) \<and>
    ct_loaded (sys_catalogue s) = map_of (rn_loaded (sy_runtime s)) \<and>
    (sy_threads s = replicate n Idle \<longrightarrow> ct_log (sys_catalogue s) = mset (rn_events (sy_runtime s)))"
proof (intro conjI impI)
  show "(cat_step api (rn_config rt) False)\<^sup>*\<^sup>* (catalogue_of rt {#}) (sys_catalogue s)"
    using interleaved.run_refines [OF assms(2) started_inv [OF assms(1)]] by (simp add: start_catalogue)
qed (simp_all add: sys_catalogue_def catalogue_of_def all_owed_idle)

theorem interleaving_refines_catalogue_witness:
  "\<exists>s. (sys_step example_api example_pins)\<^sup>*\<^sup>* (start_sys (example_loaded () ''1'' ''K'') 1) s \<and>
     sy_threads s = [Waiting (RemoveDir example_dir) []] \<and>
     (cat_step example_api (example_config ()) False)\<^sup>*\<^sup>*
       (catalogue_of (example_loaded () ''1'' ''K'') {#}) (sys_catalogue s)"
proof (intro exI conjI)
  let ?s = "start_sys (example_loaded () ''1'' ''K'') 1"
  let ?s' = "?s\<lparr>sy_runtime := sy_runtime ?s, sy_threads := (sy_threads ?s)[0 := Waiting (RemoveDir example_dir) []]\<rparr>"
  have "sys_step example_api example_pins ?s ?s'"
    by (rule sys_step.begins [where dir = example_dir and mo = "example_moments []" and event = "Removed []"])
       (simp_all add: start_sys_def)
  then show run: "(sys_step example_api example_pins)\<^sup>*\<^sup>* ?s ?s'" by (rule r_into_rtranclp)
  show "sy_threads ?s' = [Waiting (RemoveDir example_dir) []]" by (simp add: start_sys_def)
  show "(cat_step example_api (example_config ()) False)\<^sup>*\<^sup>* (catalogue_of (example_loaded () ''1'' ''K'') {#}) (sys_catalogue ?s')"
    using interleaving_refines_catalogue [OF example_reachable run] by (simp add: example_loaded_def)
qed

text \<open>
  C6: The published registry is at most one edit behind the map. Readers take no lock, and the map and
  the registry are stored one after the other; at every moment the registry is the one derived from
  the loaded map, or it is the one derived from the map before the last edit, and then the thread
  that made the edit holds the lock and its next turn stores the registry derived from the new map.
\<close>

theorem registry_lags_one_edit:
  assumes "reachable api pinned rt" and "(sys_step api pinned)\<^sup>*\<^sup>* (start_sys rt n) s"
  shows "rebuild_registry (ra_semver api) (rn_loaded (sy_runtime s)) = Inr (rn_registry (sy_runtime s)) \<or>
    (\<exists>i m job ev. sy_owner s = Some i \<and>
       rebuild_registry (ra_semver api) m = Inr (rn_registry (sy_runtime s)) \<and>
       job_edit (ra_semver api) job m = (ev, rn_loaded (sy_runtime s)) \<and>
       rebuild_registry (ra_semver api) (rn_loaded (sy_runtime s))
         = Inr (rn_registry (sy_runtime (thread_turn (ra_semver api) i s))) \<and>
       rn_loaded (sy_runtime (thread_turn (ra_semver api) i s)) = rn_loaded (sy_runtime s))"
proof (cases "sy_owner s")
  case None
  then show ?thesis using run_sys_inv [OF assms] by (simp add: sys_inv_def)
next
  case (Some i)
  then have i: "i < length (sy_threads s)" "holds_lock (sy_threads s ! i)"
    using run_sys_inv [OF assms] by (auto simp: sys_inv_def)
  then have ok: "thread_ok api (rn_config rt) (sy_runtime s) (sy_threads s ! i)"
    using run_sys_inv [OF assms] by (simp add: sys_inv_def)
  show ?thesis
  proof (cases "sy_threads s ! i")
    case (MapStored reg ev rest)
    with ok obtain m job where "rebuild_registry (ra_semver api) m = Inr (rn_registry (sy_runtime s))"
      "job_edit (ra_semver api) job m = (ev, rn_loaded (sy_runtime s))"
      "rebuild_registry (ra_semver api) (rn_loaded (sy_runtime s)) = Inr reg" by auto
    with Some MapStored show ?thesis
      by (intro disjI2 exI [of _ i] exI [of _ m] exI [of _ job] exI [of _ ev]) (simp add: thread_turn_def)
  qed (use i ok in auto)
qed

theorem registry_lags_one_edit_witness:
  "rebuild_registry example_semver (rn_loaded (sy_runtime lagging_sys)) \<noteq> Inr (rn_registry (sy_runtime lagging_sys)) \<and>
   (\<exists>m job ev. rebuild_registry example_semver m = Inr (rn_registry (sy_runtime lagging_sys)) \<and>
      job_edit example_semver job m = (ev, rn_loaded (sy_runtime lagging_sys))) \<and>
   rebuild_registry example_semver (rn_loaded (sy_runtime lagging_sys))
     = Inr (rn_registry (sy_runtime (thread_turn example_semver 0 lagging_sys)))"
proof -
  have "rebuild_registry example_semver (rn_loaded (sy_runtime lagging_sys)) \<noteq> Inr (rn_registry (sy_runtime lagging_sys))"
    by (simp add: lagging_sys_def update_runtime_def example_rebuild example_binding_def)
  moreover have "sy_owner lagging_sys = Some i \<Longrightarrow> i = 0" for i by (simp add: lagging_sys_def)
  ultimately show ?thesis
    using registry_lags_one_edit [OF example_reachable lagging_run] by auto
qed

text \<open>
  C20: The loaded map is well typed under concurrency. In every interleaving each id has one entry, the
  entry is the extension of that id with the kind its describe declares, and every version it offers
  parses; and at most one thread is between taking the lock and giving it back.
\<close>

theorem loaded_map_well_typed:
  assumes "reachable api pinned rt" and "(sys_step api pinned)\<^sup>*\<^sup>* (start_sys rt n) s"
  shows "distinct (map fst (rn_loaded (sy_runtime s))) \<and>
    (\<forall>x ext. lookup (sy_runtime s) x = Inr ext \<longrightarrow>
       le_id ext = x \<and> d_id (le_describe ext) = x \<and> le_kind ext = d_kind (le_describe ext) \<and>
       (\<forall>cap\<in>set (d_offered (le_describe ext)). is_ok (parse_version (ra_semver api) (oc_version cap)))) \<and>
    (\<forall>i j. i < length (sy_threads s) \<and> j < length (sy_threads s) \<and>
       holds_lock (sy_threads s ! i) \<and> holds_lock (sy_threads s ! j) \<longrightarrow> i = j)"
proof (intro conjI)
  have inv: "sys_inv api (rn_config rt) s" by (rule run_sys_inv [OF assms])
  then show "distinct (map fst (rn_loaded (sy_runtime s)))" by (simp add: sys_inv_def keys_distinct_def)
  have "is_ok (rebuild_registry (ra_semver api) (rn_loaded (sy_runtime s)))"
  proof (cases "sy_owner s")
    case None
    then show ?thesis using inv by (simp add: sys_inv_def)
  next
    case (Some i)
    then have i: "i < length (sy_threads s)" "holds_lock (sy_threads s ! i)" using inv by (auto simp: sys_inv_def)
    then have "thread_ok api (rn_config rt) (sy_runtime s) (sy_threads s ! i)" using inv by (simp add: sys_inv_def)
    with i(2) show ?thesis by (cases "sy_threads s ! i") auto
  qed
  then have offers: "offers_parse (ra_semver api) ext" if "(x, ext) \<in> set (rn_loaded (sy_runtime s))" for x ext
    using that by (auto simp: rebuild_is_ok_iff)
  have mem: "(x, ext) \<in> set (rn_loaded (sy_runtime s))" if "lookup (sy_runtime s) x = Inr ext" for x ext
    using that by (auto simp: lookup_def result_simps dest: map_of_SomeD)
  have "filed p" if "p \<in> set (rn_loaded (sy_runtime s))" for p
    using inv that by (simp add: sys_inv_def list_all_iff)
  then show "\<forall>x ext. lookup (sy_runtime s) x = Inr ext \<longrightarrow>
       le_id ext = x \<and> d_id (le_describe ext) = x \<and> le_kind ext = d_kind (le_describe ext) \<and>
       (\<forall>cap\<in>set (d_offered (le_describe ext)). is_ok (parse_version (ra_semver api) (oc_version cap)))"
    using offers mem by (fastforce simp: filed_def offers_parse_def list_all_iff)
  have "sy_owner s = Some i \<longleftrightarrow> i < length (sy_threads s) \<and> holds_lock (sy_threads s ! i)" for i
    using inv by (simp add: sys_inv_def)
  then show "\<forall>i j. i < length (sy_threads s) \<and> j < length (sy_threads s) \<and>
       holds_lock (sy_threads s ! i) \<and> holds_lock (sy_threads s ! j) \<longrightarrow> i = j"
    by (metis option.inject)
qed

theorem loaded_map_well_typed_witness:
  "distinct (map fst (rn_loaded (example_loaded () ''1'' ''K''))) \<and>
   le_id (example_extension ''e'' ''1'' ''K'') = ''e''"
proof -
  have "lookup (sy_runtime (start_sys (example_loaded () ''1'' ''K'') 2)) ''e'' = Inr (example_extension ''e'' ''1'' ''K'')"
    by (simp add: lookup_def example_loaded_def start_sys_def)
  with loaded_map_well_typed [OF example_reachable
      rtranclp.rtrancl_refl [of _ "start_sys (example_loaded () ''1'' ''K'') 2"]]
  show ?thesis by (simp add: start_sys_def)
qed

text \<open>
  C33: Concurrent work always comes to rest, and rest is consistent. In every interleaving a turn either
  does nothing, because its thread is idle or waits for the lock, or brings the system closer to rest,
  and some thread can move as long as one is busy: there is no deadlock, and the locks taken one by one
  by an eviction pass do not run forever. From every moment a state of rest can be reached. Whenever all
  threads are idle, the lock is free, the registry is the one derived from the map, and the events
  announced account for the map: for every id, installations less removals announced since the start
  are what the map gained under it, and where another extension or none is loaded than at the
  start, an event naming the id was announced.
\<close>

theorem interleaving_comes_to_rest:
  assumes "reachable api pinned rt" and "(sys_step api pinned)\<^sup>*\<^sup>* (start_sys rt n) s"
  shows "(\<forall>i < length (sy_threads s). thread_turn (ra_semver api) i s = s \<or>
            work (thread_turn (ra_semver api) i s) < work s) \<and>
    (\<forall>j < length (sy_threads s). sy_threads s ! j = Idle \<or>
       (\<exists>i < length (sy_threads s). work (thread_turn (ra_semver api) i s) < work s)) \<and>
    (\<exists>s'. (sys_step api pinned)\<^sup>*\<^sup>* s s' \<and> (\<forall>t\<in>set (sy_threads s'). t = Idle)) \<and>
    ((\<forall>t\<in>set (sy_threads s). t = Idle) \<longrightarrow>
       sy_owner s = None \<and>
       rebuild_registry (ra_semver api) (rn_loaded (sy_runtime s)) = Inr (rn_registry (sy_runtime s)) \<and>
       (\<forall>x. count (mset (rn_events (sy_runtime s))) (ExtensionInstalled x)
              + count (mset (rn_events rt)) (ExtensionRemoved x) + of_bool (is_ok (lookup rt x))
            = count (mset (rn_events rt)) (ExtensionInstalled x)
              + count (mset (rn_events (sy_runtime s))) (ExtensionRemoved x) + of_bool (is_ok (lookup (sy_runtime s) x))) \<and>
       (\<forall>x. lookup (sy_runtime s) x = lookup rt x \<or>
          (\<exists>e. (e = ExtensionInstalled x \<or> e = ExtensionRemoved x \<or> (\<exists>prev. e = ExtensionUpdated x prev)) \<and>
             count (mset (rn_events rt)) e < count (mset (rn_events (sy_runtime s))) e)))"
proof (intro conjI allI impI)
  have inv: "sys_inv api (rn_config rt) s" by (rule run_sys_inv [OF assms])
  show "thread_turn (ra_semver api) i s = s \<or> work (thread_turn (ra_semver api) i s) < work s"
    if "i < length (sy_threads s)" for i using that by (rule turn_progress)
  show "sy_threads s ! j = Idle \<or> (\<exists>i < length (sy_threads s). work (thread_turn (ra_semver api) i s) < work s)"
    if "j < length (sy_threads s)" for j
    using never_stuck [OF inv that, of "ra_semver api"] by (cases "sy_threads s ! j = Idle") simp_all
  obtain s' where "(sys_step api pinned)\<^sup>*\<^sup>* s s'" "sy_threads s' = replicate (length (sy_threads s)) Idle"
    using runs_to_rest [OF inv] by blast
  then show "\<exists>s'. (sys_step api pinned)\<^sup>*\<^sup>* s s' \<and> (\<forall>t\<in>set (sy_threads s'). t = Idle)" by auto
  assume idle: "\<forall>t\<in>set (sy_threads s). t = Idle"
  show free: "sy_owner s = None"
  proof (cases "sy_owner s")
    case (Some i)
    with inv have "i < length (sy_threads s) \<and> holds_lock (sy_threads s ! i)" by (auto simp: sys_inv_def)
    with idle show ?thesis by (metis holds_lock.simps(3) nth_mem)
  qed
  show "rebuild_registry (ra_semver api) (rn_loaded (sy_runtime s)) = Inr (rn_registry (sy_runtime s))"
    using inv free by (simp add: sys_inv_def)
  have run: "(cat_step api (rn_config rt) False)\<^sup>*\<^sup>* (catalogue_of rt {#}) (catalogue_of (sy_runtime s) {#})"
    using interleaved.run_refines [OF assms(2) started_inv [OF assms(1)]] sys_catalogue_rest [OF idle]
    by (simp add: start_catalogue)
  show "count (mset (rn_events (sy_runtime s))) (ExtensionInstalled x)
      + count (mset (rn_events rt)) (ExtensionRemoved x) + of_bool (is_ok (lookup rt x))
    = count (mset (rn_events rt)) (ExtensionInstalled x)
      + count (mset (rn_events (sy_runtime s))) (ExtensionRemoved x) + of_bool (is_ok (lookup (sy_runtime s) x))" for x
    using cat_balance [OF run, of x] by (simp add: catalogue_of_def is_ok_lookup)
  show "lookup (sy_runtime s) x = lookup rt x \<or>
      (\<exists>e. (e = ExtensionInstalled x \<or> e = ExtensionRemoved x \<or> (\<exists>prev. e = ExtensionUpdated x prev)) \<and>
         count (mset (rn_events rt)) e < count (mset (rn_events (sy_runtime s))) e)" for x
  proof (cases "map_of (rn_loaded (sy_runtime s)) x = map_of (rn_loaded rt) x")
    case True
    then show ?thesis by (simp add: lookup_def)
  next
    case False
    with cat_change_logged [OF run, of x] show ?thesis by (simp add: catalogue_of_def names_id_def)
  qed
qed

theorem interleaving_comes_to_rest_witness:
  "sy_owner updated_sys = None \<and> (\<exists>s'. (sys_step example_api example_pins)\<^sup>*\<^sup>* updated_sys s' \<and> (\<forall>t\<in>set (sy_threads s'). t = Idle)) \<and>
   (\<exists>e. (e = ExtensionInstalled ''e'' \<or> e = ExtensionRemoved ''e'' \<or> (\<exists>prev. e = ExtensionUpdated ''e'' prev)) \<and>
      count (mset (rn_events (example_loaded () ''1'' ''K''))) e < count (mset (rn_events (sy_runtime updated_sys))) e)"
proof -
  note rest = interleaving_comes_to_rest [OF example_reachable [of "()"] updated_run]
  have idle: "\<forall>t\<in>set (sy_threads updated_sys). t = Idle" by (simp add: updated_sys_def)
  have "lookup (example_loaded () ''1'' ''K'') ''e'' = Inr (example_extension ''e'' ''1'' ''K'')"
    by (simp add: lookup_def example_loaded_def)
  moreover have "example_extension ''e'' ''3'' ''K'' \<noteq> example_extension ''e'' ''1'' ''K''"
    by (simp add: example_extension_def example_describe_def)
  ultimately have "lookup (sy_runtime updated_sys) ''e'' \<noteq> lookup (example_loaded () ''1'' ''K'') ''e''"
    by (simp only: updated_lookup sum.inject not_False_eq_True)
  with rest idle show ?thesis by blast
qed

text \<open>
  C17: No interleaving downgrades an extension that stays loaded. Where each version of it that the
  run replaced can be read as a version, as the announced or owed updates name them, an extension loaded
  before concurrent work begins and never removed in it, neither announced nor about to be, is
  loaded at every later moment, and its version, when it and the first one can be read, is not older.
  The check against the loaded version is made under the lock, so two reloads cannot overtake
  each other. A version that cannot be read compares with none, so a run through one is excepted.
\<close>

theorem concurrent_reloads_never_downgrade:
  assumes "reachable api pinned rt" and "(sys_step api pinned)\<^sup>*\<^sup>* (start_sys rt n) s"
    and "lookup rt x = Inr e"
    and "count (ct_log (sys_catalogue s)) (ExtensionRemoved x) = count (mset (rn_events rt)) (ExtensionRemoved x)"
    and "\<forall>prev. count (mset (rn_events rt)) (ExtensionUpdated x prev) < count (ct_log (sys_catalogue s)) (ExtensionUpdated x prev)
           \<longrightarrow> is_ok (parse_version (ra_semver api) prev)"
  shows "\<exists>e'. lookup (sy_runtime s) x = Inr e' \<and>
    (\<forall>v v'. parse_version (ra_semver api) (d_version (le_describe e)) = Inr v \<longrightarrow>
       parse_version (ra_semver api) (d_version (le_describe e')) = Inr v' \<longrightarrow> v \<le> v')"
proof -
  have "ct_loaded (catalogue_of rt {#}) x = Some e"
    using assms(3) by (simp add: catalogue_of_def lookup_def result_simps)
  moreover have "(cat_step api (rn_config rt) False)\<^sup>*\<^sup>* (catalogue_of rt {#}) (sys_catalogue s)"
    using interleaved.run_refines [OF assms(2) started_inv [OF assms(1)]] by (simp add: start_catalogue)
  moreover have "ct_log (catalogue_of rt {#}) = mset (rn_events rt)" by (simp add: catalogue_of_def)
  ultimately show ?thesis
    using cat_version_grows [of api "rn_config rt" "catalogue_of rt {#}" "sys_catalogue s" x e] assms(4,5)
    by (auto simp: sys_catalogue_def catalogue_of_def lookup_def result_simps)
qed

theorem concurrent_reloads_never_downgrade_witness:
  "\<exists>e'. lookup (sy_runtime updated_sys) ''e'' = Inr e' \<and>
     (\<forall>v'. parse_version example_semver (d_version (le_describe e')) = Inr v' \<longrightarrow> (of_char (CHR ''1'') :: nat) \<le> v')"
proof -
  have found: "lookup (example_loaded () ''1'' ''K'') ''e'' = Inr (example_extension ''e'' ''1'' ''K'')"
    by (simp add: lookup_def example_loaded_def)
  have "d_version (le_describe (example_extension ''e'' ''1'' ''K'')) = ''1''"
    by (simp add: example_extension_def)
  moreover have "count (ct_log (sys_catalogue updated_sys)) (ExtensionRemoved ''e'')
      = count (mset (rn_events (example_loaded () ''1'' ''K''))) (ExtensionRemoved ''e'')"
    by (simp add: updated_sys_def sys_catalogue_def catalogue_of_def all_owed_def update_runtime_def example_loaded_def)
  ultimately show ?thesis
    using concurrent_reloads_never_downgrade [OF example_reachable updated_run found] by (simp add: parse_example)
qed

text \<open>
  Unreadable versions break the chain: a pack whose version cannot be read replaces a newer one, and the
  older one then replaces it, while the older one in place of the newer is a downgrade.
\<close>

theorem unreadable_version_permits_downgrade:
  "\<exists>(sv :: (nat, nat) semver_api) (new :: (unit, unit, unit, string) loaded_extension) odd old.
     is_downgrade sv (d_version (le_describe new)) (d_version (le_describe old)) \<and>
     snd (job_edit sv (Publish old) (snd (job_edit sv (Publish odd) [(''e'', new)]))) = [(''e'', old)]"
proof -
  let ?sv = "example_semver\<lparr>parse_version := \<lambda>s. if s = ''x'' then Inl ''unreadable'' else Inr (of_char (hd s))\<rparr>"
  let ?ext = "\<lambda>v. example_extension ''e'' v ''K''"
  have "is_downgrade ?sv (d_version (le_describe (?ext ''2''))) (d_version (le_describe (?ext ''1'')))"
    by (simp add: is_downgrade_def example_version)
  moreover have "snd (job_edit ?sv (Publish (?ext ''1'')) (snd (job_edit ?sv (Publish (?ext ''x'')) [(''e'', ?ext ''2'')])))
      = [(''e'', ?ext ''1'')]"
    by (simp add: reload_edit_def is_downgrade_def example_version example_id Let_def)
  ultimately show ?thesis by blast
qed

text \<open>
  Announcements may overtake each other. Events are sent after the lock is given back, so two
  threads can announce in the other order than they edited: here an installation is announced after
  the removal that undid it, all threads are done, nothing is loaded, and a subscriber who replays the
  events believes the extension is. Only the multiset of events is promised, not their order.
\<close>

theorem announcements_may_overtake:
  "\<exists>s. (sys_step example_api example_pins)\<^sup>*\<^sup>* (start_sys (example_start ()) 2) s \<and>
     reachable example_api example_pins (example_start ()) \<and> sy_threads s = [Idle, Idle] \<and>
     rn_events (sy_runtime s) = [ExtensionRemoved ''e'', ExtensionInstalled ''e''] \<and>
     foldl replay_event {} (rn_events (sy_runtime s)) = {''e''} \<and>
     {x. is_ok (lookup (sy_runtime s) x)} = {}"
proof (intro exI conjI)
  let ?S = "start_sys (example_start ()) 2"
  let ?d = "race_sys (race_runtime () False False [ExtensionRemoved ''e'', ExtensionInstalled ''e'']) None Idle Idle"
  have start: "?S = race_sys (example_start ()) None Idle Idle"
    by (simp add: start_sys_def numeral_2_eq_2)
  have "(sys_step example_api example_pins)\<^sup>*\<^sup>* ?S (race_sys (race_runtime () False False []) None
     (Waiting (Publish (example_extension ''e'' ''1'' ''K'')) []) Idle)"
    using reload_run [OF rtranclp.rtrancl_refl [of "sys_step example_api example_pins" ?S], of 0
        "example_moments ''e,1,K''" example_dir] by (simp add: start race_begins)
  from turn_run [OF turn_run [OF turn_run [OF this race_turns(1)] race_turns(2)] race_turns(3)]
  have installed: "(sys_step example_api example_pins)\<^sup>*\<^sup>* ?S
      (race_sys (race_runtime () True True []) None (Announcing (ExtensionInstalled ''e'') []) Idle)" by simp
  have "(sys_step example_api example_pins)\<^sup>*\<^sup>* ?S
      (race_sys (race_runtime () True True []) None (Announcing (ExtensionInstalled ''e'') []) (Waiting (EvictId ''e'') []))"
    using event_run [OF installed, of "Suc 0" race_moments "Removed example_dir"] by (simp add: race_begins)
  from turn_run [OF turn_run [OF turn_run [OF turn_run [OF turn_run [OF this race_turns(4)]
      race_turns(5)] race_turns(6)] race_turns(7)] race_turns(8)]
  show "(sys_step example_api example_pins)\<^sup>*\<^sup>* ?S ?d" by simp
  show "reachable example_api example_pins (example_start ())"
    unfolding example_start_def by (rule reachable.start)
  show "{x. is_ok (lookup (sy_runtime ?d) x)} = {}"
    by (simp add: loaded_ids race_runtime_def)
qed (simp_all add: race_runtime_def)

end
