(* ===== verification/HostPorts.thy ===== *)
theory HostPorts
  imports HostState
begin

text \<open>
  \<open>host_state_ports.rs\<close> and \<open>broker.rs\<close>: the host functions for logging, translation, secrets and
  cross-extension calls. A log call is the record it emits. The lemmas show that a log record is
  bounded and cut at a character boundary; that a secret is handed out only below a declared
  namespace, whatever way a backend resolves the URI; that the broker's two gates are the ones
  of \<open>Broker\<close> and that nothing is dispatched.
\<close>

section \<open>Logging\<close>

definition MAX_LOG_BYTES :: nat where "MAX_LOG_BYTES = 8 * 1024"

definition MAX_LOG_FIELDS :: nat where "MAX_LOG_FIELDS = 64"

definition ellipsis :: string where
  "ellipsis = [byte 0xE2, byte 0x80, byte 0xA6]"

text \<open>A UTF-8 continuation byte is one of 0x80 to 0xBF; a boundary is an end or another byte.\<close>

definition is_continuation :: "char \<Rightarrow> bool" where
  "is_continuation c = (let n = of_char c :: nat in 0x80 \<le> n \<and> n \<le> 0xBF)"

definition is_char_boundary :: "string \<Rightarrow> nat \<Rightarrow> bool" where
  "is_char_boundary s i \<longleftrightarrow>
     i = 0 \<or> i = length s \<or> (i < length s \<and> \<not> is_continuation (s ! i))"

fun clamp_end :: "string \<Rightarrow> nat \<Rightarrow> nat" where
  "clamp_end s 0 = 0"
| "clamp_end s (Suc n) = (if is_char_boundary s (Suc n) then Suc n else clamp_end s n)"

definition clamp :: "string \<Rightarrow> nat \<Rightarrow> string" where
  "clamp s max_len =
     (if length s \<le> max_len then s
      else take (clamp_end s max_len) s @ ellipsis @ ''[truncated]'')"

datatype level = LvlTrace | LvlDebug | LvlInfo | LvlWarn | LvlError

record log_record =
  lg_level :: level
  lg_ext :: string
  lg_target :: string
  lg_message :: string

definition log :: "('cl, 'rt, 'f) host_state \<Rightarrow> level \<Rightarrow> string \<Rightarrow> string \<Rightarrow> log_record" where
  "log hs lvl target msg =
     \<lparr>lg_level = lvl, lg_ext = hs_extension_id hs, lg_target = clamp target MAX_LOG_BYTES,
      lg_message = clamp msg MAX_LOG_BYTES\<rparr>"

definition log_pairs :: "(string \<times> string) list \<Rightarrow> string list" where
  "log_pairs kvs =
     (let shown = min (length kvs) MAX_LOG_FIELDS;
          pairs = map (\<lambda>(k, v). clamp k MAX_LOG_BYTES @ ''='' @ clamp v MAX_LOG_BYTES)
                    (take shown kvs)
      in if length kvs > shown
         then pairs @ [ellipsis @ ''+'' @ show_nat (length kvs - shown) @ '' more'']
         else pairs)"

definition log_kv ::
  "('cl, 'rt, 'f) host_state \<Rightarrow> level \<Rightarrow> string \<Rightarrow> string \<Rightarrow> (string \<times> string) list \<Rightarrow> log_record" where
  "log_kv hs lvl target msg kvs =
     (let pairs = log_pairs kvs in
      log hs lvl target
        (if pairs = [] then msg else msg @ '' {'' @ join_with '', '' pairs @ ''}''))"

section \<open>Translation\<close>

definition i18n_t :: "('cl, 'rt, 'f) host_state \<Rightarrow> string \<Rightarrow> string" where
  "i18n_t hs key = tr_t (hs_translator hs) key"

definition i18n_tf :: "('cl, 'rt, 'f) host_state \<Rightarrow> string \<Rightarrow> (string \<times> string) list \<Rightarrow> string" where
  "i18n_tf hs key args = tr_tf (hs_translator hs) key args"

section \<open>Secrets\<close>

definition uri_is_plain :: "string \<Rightarrow> bool" where
  "uri_is_plain uri \<longleftrightarrow>
     CHR ''%'' \<notin> set uri \<and>
     \<not> list_ex (\<lambda>segment. segment = ''.'' \<or> segment = ''..'') (split_on (CHR ''/'') uri)"

definition declaration_is_specific :: "string \<Rightarrow> bool" where
  "declaration_is_specific declared =
     (let after_scheme = (case split_once (CHR '':'') declared of
            None \<Rightarrow> declared | Some (_, rest) \<Rightarrow> rest)
      in trim_end_char (CHR ''/'') (trim_start_char (CHR ''/'') after_scheme) \<noteq> [])"

definition secret_allowed_by :: "string \<Rightarrow> string \<Rightarrow> bool" where
  "secret_allowed_by allowed uri \<longleftrightarrow>
     uri = allowed \<or>
     (length uri > length allowed \<and> starts_with allowed uri \<and> uri ! length allowed = CHR ''/'')"

definition secret_permitted :: "string list \<Rightarrow> string \<Rightarrow> bool" where
  "secret_permitted declared uri =
     list_ex (\<lambda>allowed. secret_allowed_by allowed uri) (filter declaration_is_specific declared)"

definition secrets_get :: "('cl, 'rt, 'f) host_state \<Rightarrow> string \<Rightarrow> (string, string) result" where
  "secrets_get hs uri =
     (if \<not> uri_is_plain uri then Inl (''malformed secret uri: '' @ uri)
      else if \<not> secret_permitted (secrets (hs_permissions hs)) uri
        then Inl (''permission denied for secret: '' @ uri)
      else (case hs_secrets_backend hs uri of
              Inr value \<Rightarrow> Inr value
            | Inl (SecretNotFound k) \<Rightarrow> Inl (''secret not found: '' @ k)
            | Inl (SecretBackend msg) \<Rightarrow> Inl (''secrets backend error: '' @ msg)))"

section \<open>Broker\<close>

datatype broker_error =
    B_PermissionDenied string
  | TargetNotLoaded string
  | FunctionNotFound string
  | MaxDepthExceeded
  | Deadline

fun display_broker_error :: "broker_error \<Rightarrow> string" where
  "display_broker_error (B_PermissionDenied s) = ''permission denied: '' @ s"
| "display_broker_error (TargetNotLoaded s) = ''target extension not loaded: '' @ s"
| "display_broker_error (FunctionNotFound s) = ''function not found: '' @ s"
| "display_broker_error MaxDepthExceeded = ''max call depth exceeded''"
| "display_broker_error Deadline = ''deadline exceeded''"

definition MAX_DEPTH :: "32 word" where "MAX_DEPTH = 8"

definition check_permission ::
  "('k \<Rightarrow> string) \<Rightarrow> ('k \<Rightarrow> string) \<Rightarrow> string \<Rightarrow> string list \<Rightarrow> 'k \<Rightarrow> (broker_error, unit) result" where
  "check_permission dir_name kind_debug caller_id allowlist target_kind =
     (if list_ex (\<lambda>k. k = dir_name target_kind) allowlist then Inr ()
      else Inl (B_PermissionDenied
             (caller_id @ '' may not call '' @ kind_debug target_kind @ '' extensions'')))"

definition check_depth :: "32 word \<Rightarrow> (broker_error, unit) result" where
  "check_depth depth = (if depth \<ge> MAX_DEPTH then Inl MaxDepthExceeded else Inr ())"

definition kind_permitted :: "string list \<Rightarrow> string \<Rightarrow> bool" where
  "kind_permitted kinds kind = list_ex (\<lambda>k. k = kind) kinds"

definition call_extension ::
  "('cl, 'rt, 'f) host_state \<Rightarrow> string \<Rightarrow> string \<Rightarrow> string \<Rightarrow> string \<Rightarrow> (string, string) result" where
  "call_extension hs kind target_id func args_json =
     (if \<not> kind_permitted (call_extension_kinds (hs_permissions hs)) kind
      then Inl (hs_extension_id hs @ '' may not call '' @ kind @ '' extensions'')
      else
        let depth = hs_call_depth hs in
        if depth \<ge> MAX_BROKER_DEPTH
        then Inl (''max broker call depth exceeded ('' @ show_nat (unat depth) @ '' >= ''
                  @ show_nat (unat MAX_BROKER_DEPTH) @ '')'')
        else (case hs_runtime_weak hs of
                None \<Rightarrow> Inl ''broker: no runtime context available''
              | Some rt \<Rightarrow>
                  Inl (''broker: dispatch to '' @ target_id @ ''.'' @ func @ '' is not implemented yet'')))"

section \<open>Gates\<close>

interpretation broker_gate: permission_gate kind_permitted
  unfolding kind_permitted_def by (rule list_ex_gate)

interpretation secret_gate: permission_gate secret_permitted
  by unfold_locales (auto simp: secret_permitted_def list_ex_iff)

section \<open>Facts on clamping\<close>

lemma clamp_end_le: "clamp_end s n \<le> n"
  by (induction n) (auto intro: le_SucI)

lemma clamp_end_boundary: "is_char_boundary s (clamp_end s n)"
  by (induction n) (auto simp: is_char_boundary_def)

lemma clamp_end_maximal: "clamp_end s n < i \<Longrightarrow> i \<le> n \<Longrightarrow> \<not> is_char_boundary s i"
proof (induction n)
  case (Suc n)
  then show ?case by (cases "i = Suc n") (auto split: if_splits)
qed simp

lemma clamp_bounded: "length (clamp s n) \<le> max n (n + 14)"
  using clamp_end_le [of s n] by (simp add: clamp_def ellipsis_def)

section \<open>Properties\<close>

text \<open>
  A log record is bounded by the host whatever the guest sends: target and message have at most
  8 KiB and the marker, a text within the limit is emitted unchanged, and a longer one is the
  longest prefix within the limit that ends on a character boundary, marked as truncated.
\<close>

theorem log_record_bounded:
  "(let r = log_kv hs lvl target msg kvs in
     length (lg_target r) \<le> MAX_LOG_BYTES + 14 \<and> length (lg_message r) \<le> MAX_LOG_BYTES + 14) \<and>
   (let e = (if length s \<le> n then length s else clamp_end s n) in
     clamp s n = (if length s \<le> n then s else take e s @ ellipsis @ ''[truncated]'') \<and>
     is_char_boundary s e \<and> e \<le> n \<and> {i. e < i \<and> i \<le> n \<and> i \<le> length s \<and> is_char_boundary s i} = {})"
proof -
  have "length (clamp u MAX_LOG_BYTES) \<le> MAX_LOG_BYTES + 14" for u
    using clamp_bounded [of u MAX_LOG_BYTES] by simp
  then have "length (lg_target (log hs lvl target u)) \<le> MAX_LOG_BYTES + 14 \<and>
      length (lg_message (log hs lvl target u)) \<le> MAX_LOG_BYTES + 14" for u
    by (simp add: log_def)
  moreover have "is_char_boundary s (length s)" by (simp add: is_char_boundary_def)
  ultimately show ?thesis
    using clamp_end_boundary [of s n] clamp_end_le [of s n] clamp_end_maximal [of s n]
    by (auto simp: log_kv_def Let_def clamp_def)
qed

text \<open>How a path-shaped backend reads the segments of a URI: empty and \<open>.\<close> segments vanish, \<open>..\<close>
  removes the segment before it.\<close>

fun resolve_segments :: "string list \<Rightarrow> string list \<Rightarrow> string list" where
  "resolve_segments acc [] = acc"
| "resolve_segments acc (s # ss) =
     (if s = [] \<or> s = ''.'' then resolve_segments acc ss
      else if s = ''..'' then resolve_segments (butlast acc) ss
      else resolve_segments (acc @ [s]) ss)"

definition resolve_uri :: "string \<Rightarrow> string list" where
  "resolve_uri uri = resolve_segments [] (split_on (CHR ''/'') uri)"

lemma resolve_plain_segments:
  "\<not> list_ex (\<lambda>s. s = ''.'' \<or> s = ''..'') ss \<Longrightarrow>
     resolve_segments acc ss = acc @ filter (\<lambda>s. s \<noteq> []) ss"
  by (induction ss arbitrary: acc) auto

lemma split_on_extend:
  "split_on c (a @ c # b) = split_on c a @ split_on c b"
proof (induction a)
  case (Cons x a)
  then show ?case by (cases "split_on c a") auto
qed simp

lemma secret_allowed_iff:
  "secret_allowed_by allowed uri \<longleftrightarrow> uri = allowed \<or> (\<exists>rest. uri = allowed @ CHR ''/'' # rest)"
proof -
  have "length uri > length allowed \<and> starts_with allowed uri \<and> uri ! length allowed = CHR ''/''
    \<longleftrightarrow> (\<exists>rest. uri = allowed @ CHR ''/'' # rest)"
  proof
    assume "length uri > length allowed \<and> starts_with allowed uri \<and> uri ! length allowed = CHR ''/''"
    then obtain r where "uri = allowed @ r" "r \<noteq> []" "hd r = CHR ''/''"
      by (auto simp: starts_with_iff nth_append hd_conv_nth)
    then show "\<exists>rest. uri = allowed @ CHR ''/'' # rest" by (cases r) auto
  qed (auto simp: starts_with_iff)
  then show ?thesis by (simp add: secret_allowed_by_def)
qed

lemma secrets_get_iff:
  "secrets_get hs uri = Inr v \<longleftrightarrow>
     uri_is_plain uri \<and> secret_permitted (secrets (hs_permissions hs)) uri \<and>
     hs_secrets_backend hs uri = Inr v"
  by (auto simp: secrets_get_def split: sum.splits secrets_error.splits)

lemma specific_resolves:
  assumes "declaration_is_specific d" and "uri_is_plain d"
  shows "resolve_uri d \<noteq> []"
proof
  assume empty: "resolve_uri d = []"
  have "\<forall>s\<in>set (split_on (CHR ''/'') d). s = []"
    using empty assms(2) resolve_plain_segments
    by (simp add: resolve_uri_def uri_is_plain_def filter_empty_conv)
  then have slashes: "set d \<subseteq> {CHR ''/''}"
  proof (induction d)
    case (Cons x d)
    then show ?case by (cases "split_on (CHR ''/'') d") (auto split: if_splits)
  qed simp
  have "split_once (CHR '':'') d = None"
    using slashes split_once_Some [of "CHR '':''" d] by (cases "split_once (CHR '':'') d") auto
  moreover have "trim_start_char (CHR ''/'') d = []"
    using slashes by (auto simp: trim_start_char_def)
  ultimately show False
    using assms(1) by (simp add: declaration_is_specific_def trim_end_char_def)
qed

lemma secret_below_declaration:
  assumes "secrets_get hs uri = Inr v"
  shows "\<exists>d\<in>set (secrets (hs_permissions hs)). declaration_is_specific d \<and>
       resolve_uri d \<noteq> [] \<and> (\<exists>below. resolve_uri uri = resolve_uri d @ below)"
proof -
  from assms have plain: "uri_is_plain uri" and "secret_permitted (secrets (hs_permissions hs)) uri"
    by (simp_all add: secrets_get_iff)
  then obtain d where d: "d \<in> set (secrets (hs_permissions hs))" "declaration_is_specific d"
    "uri = d \<or> (\<exists>rest. uri = d @ CHR ''/'' # rest)"
    by (auto simp: secret_permitted_def list_ex_iff secret_allowed_iff)
  have "uri_is_plain d"
    using plain d(3) by (auto simp: uri_is_plain_def split_on_extend)
  then have "resolve_uri d \<noteq> []" by (rule specific_resolves [OF d(2)])
  moreover have "\<exists>below. resolve_uri uri = resolve_uri d @ below"
    using plain d(3)
    by (auto simp: resolve_uri_def uri_is_plain_def split_on_extend resolve_plain_segments)
  ultimately show ?thesis using d by blast
qed

text \<open>
  C26: Secrets are isolated by namespace. A secret is returned only when the URI is plain, a declared
  entry admits it, and the backend has it; and then, also for a backend that resolves the
  URI as a path, it lies at or below the place a specific declared entry resolves to, which is
  never the root of the store.
\<close>

theorem secret_stays_in_namespace:
  assumes "secrets_get hs uri = Inr v"
  shows "hs_secrets_backend hs uri = Inr v \<and>
    (\<exists>d\<in>set (secrets (hs_permissions hs)). declaration_is_specific d \<and>
       resolve_uri d \<noteq> [] \<and> (\<exists>below. resolve_uri uri = resolve_uri d @ below))"
  using secret_below_declaration [OF assms] assms by (simp add: secrets_get_iff)

definition example_state :: "(unit, unit, unit) host_state" where
  "example_state =
     build ((builder ''e'' (permissions_default\<lparr>secrets := [''team/acme''], call_extension_kinds := [''design'']\<rparr>))
       \<lparr>hb_secrets_backend := (\<lambda>uri. Inr ''v'')\<rparr>)"

theorem secret_stays_in_namespace_witness:
  "secrets_get example_state ''team/acme/key'' = Inr ''v'' \<and>
   (\<exists>below. resolve_uri ''team/acme/key'' = [''team'', ''acme''] @ below)"
proof -
  have get: "secrets_get example_state ''team/acme/key'' = Inr ''v''"
    by (simp add: secrets_get_def example_state_def build_def builder_def uri_is_plain_def
        secret_permitted_def secret_allowed_by_def declaration_is_specific_def trim_start_char_def
        trim_end_char_def starts_with_def permissions_default_def)
  from secret_stays_in_namespace [OF this] have "\<exists>d\<in>set (secrets (hs_permissions example_state)).
      \<exists>below. resolve_uri ''team/acme/key'' = resolve_uri d @ below" by blast
  then have "\<exists>below. resolve_uri ''team/acme/key'' = [''team'', ''acme''] @ below"
    by (simp add: example_state_def build_def builder_def resolve_uri_def)
  with get show ?thesis by simp
qed

text \<open>
  Secrets are denied by default: without a plain URI or a declared entry that admits it the
  answer is an error and does not depend on the backend, so the backend is not consulted.
\<close>

theorem secret_denied_without_backend:
  "(if uri_is_plain uri \<and> secret_permitted (secrets (hs_permissions hs)) uri
    then is_ok (secrets_get hs uri) \<longleftrightarrow> is_ok (hs_secrets_backend hs uri)
    else \<not> is_ok (secrets_get hs uri) \<and>
         secrets_get (hs\<lparr>hs_secrets_backend := b\<rparr>) uri = secrets_get hs uri) \<and>
   \<not> is_ok (secrets_get (hs\<lparr>hs_permissions := permissions_default\<rparr>) uri)"
  by (auto simp: is_ok_iff secrets_get_iff)
    (auto simp: secrets_get_def permissions_default_def secret_permitted_def
      split: sum.splits secrets_error.splits)

text \<open>
  The host function behind cross-extension calls applies the two checks of \<open>Broker\<close>, permission
  first and depth second, each with the same decision; past them it never dispatches, so
  every call returns an error and no chain of calls nests.
\<close>

theorem broker_checks_agree:
  "call_extension hs (dir_name k) target_id func args =
     (case check_permission dir_name dbg (hs_extension_id hs) (call_extension_kinds (hs_permissions hs)) k of
        Inl e \<Rightarrow> Inl (hs_extension_id hs @ '' may not call '' @ dir_name k @ '' extensions'')
      | Inr _ \<Rightarrow>
         (case check_depth (hs_call_depth hs) of
            Inl e \<Rightarrow> Inl (''max broker call depth exceeded ('' @ show_nat (unat (hs_call_depth hs))
                          @ '' >= '' @ show_nat 8 @ '')'')
          | Inr _ \<Rightarrow>
              Inl (if hs_runtime_weak hs = None then ''broker: no runtime context available''
                   else ''broker: dispatch to '' @ target_id @ ''.'' @ func @ '' is not implemented yet''))) \<and>
   \<not> is_ok (call_extension hs kind target_id func args)"
  by (auto simp: call_extension_def check_permission_def check_depth_def kind_permitted_def
      MAX_DEPTH_def MAX_BROKER_DEPTH_def Let_def split: option.splits)

end
