(* ===== verification/HostLlm.thy ===== *)
theory HostLlm
  imports HostState
begin

text \<open>
  \<open>host_state_llm.rs\<close>: the role an LLM call runs under, and the completion and embedding host
  functions with their caps. The port is a field of the host state, so a statement about what a
  call returns is a statement about what the port was asked. The lemmas show that the port is
  asked only for a declared role, with the caller's context, and that an embedding batch reaches
  it whole or not at all.
\<close>

definition MAX_EMBED_INPUTS :: nat where "MAX_EMBED_INPUTS = 128"

definition MAX_EMBED_BYTES :: nat where "MAX_EMBED_BYTES = 1024 * 1024"

record llm_message =
  lm_role :: string
  lm_content :: string

datatype wit_response_format = WitText | WitJson | WitJsonSchema string

record llm_request =
  lq_role_hint :: "string option"
  lq_system_prompt :: string
  lq_messages :: "llm_message list"
  lq_response_format :: "wit_response_format option"

record llm_response =
  ls_content :: string
  ls_total_tokens :: "32 word option"

record embed_request =
  eq_role_hint :: "string option"
  eq_inputs :: "string list"

record 'f embed_response =
  es_vectors :: "'f list list"
  es_model :: string

definition role_permitted :: "string list \<Rightarrow> string \<Rightarrow> bool" where
  "role_permitted roles h = list_ex (\<lambda>r. r = h) roles"

definition resolve_llm_role ::
  "('cl, 'rt, 'f) host_state \<Rightarrow> string option \<Rightarrow> (string, string) result" where
  "resolve_llm_role hs hint =
     (let declared = llm_roles (hs_permissions hs) in
      case hint of
        Some h \<Rightarrow>
          (if role_permitted declared h then Inr h else Inl (''llm role not permitted: '' @ h))
      | None \<Rightarrow>
          (case declared of
             [sole] \<Rightarrow> Inr sole
           | [] \<Rightarrow> Inl ''llm role not permitted: extension declares no llm_roles''
           | _ # _ # _ \<Rightarrow> Inl ''llm role-hint required: extension declares multiple llm_roles''))"

definition llm_not_configured :: string where
  "llm_not_configured = ''llm not configured for this runtime''"

definition to_port_request :: "llm_request \<Rightarrow> llm_port_request" where
  "to_port_request request =
     \<lparr>lr_system_prompt = lq_system_prompt request, lr_messages = map (\<lambda>m. (lm_role m, lm_content m)) (lq_messages request),
      lr_response_format =
        (case lq_response_format request of
           None \<Rightarrow> TextFormat
         | Some WitText \<Rightarrow> TextFormat
         | Some WitJson \<Rightarrow> JsonFormat
         | Some (WitJsonSchema s) \<Rightarrow> JsonSchemaFormat s)\<rparr>"

definition complete ::
  "('cl, 'rt, 'f) host_state \<Rightarrow> llm_request \<Rightarrow> (string, llm_response) result" where
  "complete hs request =
     and_then (resolve_llm_role hs (lq_role_hint request)) (\<lambda>role.
     and_then (ok_or llm_not_configured (hs_llm_port hs)) (\<lambda>port.
       case lp_complete port (hs_extension_id hs) (hs_call_ctx hs) role (to_port_request request) of
         Inr r \<Rightarrow> Inr \<lparr>ls_content = lo_content r, ls_total_tokens = lo_total_tokens r\<rparr>
       | Inl e \<Rightarrow> Inl (display_llm_error e)))"

fun position :: "('a \<Rightarrow> bool) \<Rightarrow> 'a list \<Rightarrow> nat option" where
  "position P [] = None"
| "position P (x # xs) = (if P x then Some 0 else map_option Suc (position P xs))"

definition check_batch :: "string list \<Rightarrow> (string, unit) result" where
  "check_batch inputs =
     (if inputs = [] then Inl ''embed: inputs is empty''
      else if length inputs > MAX_EMBED_INPUTS
        then Inl (''embed: '' @ show_nat (length inputs) @ '' inputs exceeds the ''
                  @ show_nat MAX_EMBED_INPUTS @ '' limit'')
      else
        let total_bytes = sum_list (map length inputs) in
        if total_bytes > MAX_EMBED_BYTES
        then Inl (''embed: '' @ show_nat total_bytes @ '' bytes of input exceeds the ''
                  @ show_nat MAX_EMBED_BYTES @ '' limit'')
        else (case position is_blank inputs of
                Some index \<Rightarrow> Inl (''embed: inputs['' @ show_nat index @ ''] is empty'')
              | None \<Rightarrow> Inr ()))"

definition embed ::
  "('cl, 'rt, 'f) host_state \<Rightarrow> embed_request \<Rightarrow> (string, 'f embed_response) result" where
  "embed hs request =
     and_then (resolve_llm_role hs (eq_role_hint request)) (\<lambda>role.
     and_then (check_batch (eq_inputs request)) (\<lambda>_.
     and_then (ok_or llm_not_configured (hs_llm_port hs)) (\<lambda>port.
       case lp_embed port (hs_extension_id hs) (hs_call_ctx hs) role \<lparr>er_inputs = eq_inputs request\<rparr> of
         Inr r \<Rightarrow> Inr \<lparr>es_vectors = eo_vectors r, es_model = eo_model r\<rparr>
       | Inl e \<Rightarrow> Inl (display_llm_error e))))"

interpretation role_gate: permission_gate role_permitted
  unfolding role_permitted_def by (rule list_ex_gate)

lemma position_None_iff: "position P xs = None \<longleftrightarrow> (\<forall>x\<in>set xs. \<not> P x)"
  by (induction xs) auto

lemma position_Some_iff:
  "position P xs = Some i \<longleftrightarrow> i < length xs \<and> P (xs ! i) \<and> (\<forall>j<i. \<not> P (xs ! j))"
  by (induction xs arbitrary: i) (auto simp: nth_Cons less_Suc_eq_0_disj split: nat.splits)

lemma resolve_llm_role_iff:
  "resolve_llm_role hs hint = Inr role \<longleftrightarrow>
     (case hint of Some h \<Rightarrow> h = role \<and> role \<in> set (llm_roles (hs_permissions hs))
      | None \<Rightarrow> llm_roles (hs_permissions hs) = [role])"
  by (auto simp: resolve_llm_role_def role_permitted_def list_ex_iff Let_def
      split: option.splits list.splits)

lemma check_batch_iff:
  "check_batch inputs = Inr u \<longleftrightarrow>
     inputs \<noteq> [] \<and> length inputs \<le> MAX_EMBED_INPUTS \<and> sum_list (map length inputs) \<le> MAX_EMBED_BYTES \<and>
     list_all (\<lambda>s. \<not> is_blank s) inputs"
  using position_None_iff [of is_blank inputs]
  by (auto simp: check_batch_def Let_def list_all_iff split: option.splits)

text \<open>
  A completion is returned exactly when the effective role is one the extension declares (the
  hinted one, or the only one when there is no hint), a port is configured, and the port answered
  for this extension, this caller's context and that role; the answer is passed on unchanged.
\<close>

theorem completion_under_declared_role:
  "complete hs request = Inr resp \<longleftrightarrow>
     (\<exists>role port r. role \<in> set (llm_roles (hs_permissions hs)) \<and>
        (case lq_role_hint request of Some h \<Rightarrow> h = role
         | None \<Rightarrow> llm_roles (hs_permissions hs) = [role]) \<and>
        hs_llm_port hs = Some port \<and>
        lp_complete port (hs_extension_id hs) (hs_call_ctx hs) role (to_port_request request) = Inr r \<and>
        resp = \<lparr>ls_content = lo_content r, ls_total_tokens = lo_total_tokens r\<rparr>)"
  unfolding complete_def and_then_Inr_iff ok_or_Inr_iff resolve_llm_role_iff case_result_Inr_iff
  by (cases "lq_role_hint request") auto

text \<open>
  An embedding batch is never cut. Vectors are returned exactly when the port, asked under a
  declared role, answered for the whole list of inputs; the list is then not empty, within
  128 inputs and 1 MiB in total and has no blank text, and the vectors come back in the port's
  order. Any batch outside the caps is an error.
\<close>

theorem embed_whole_batch_or_error:
  "embed hs request = Inr resp \<longleftrightarrow>
     (\<exists>role port r. role \<in> set (llm_roles (hs_permissions hs)) \<and>
        (case eq_role_hint request of Some h \<Rightarrow> h = role
         | None \<Rightarrow> llm_roles (hs_permissions hs) = [role]) \<and>
        eq_inputs request \<noteq> [] \<and> length (eq_inputs request) \<le> 128 \<and>
        sum_list (map length (eq_inputs request)) \<le> 1048576 \<and>
        list_all (\<lambda>s. \<not> is_blank s) (eq_inputs request) \<and>
        hs_llm_port hs = Some port \<and>
        lp_embed port (hs_extension_id hs) (hs_call_ctx hs) role \<lparr>er_inputs = eq_inputs request\<rparr> = Inr r \<and>
        resp = \<lparr>es_vectors = eo_vectors r, es_model = eo_model r\<rparr>)"
  unfolding embed_def and_then_Inr_iff ok_or_Inr_iff resolve_llm_role_iff check_batch_iff
    case_result_Inr_iff MAX_EMBED_INPUTS_def MAX_EMBED_BYTES_def
  by (cases "eq_role_hint request") auto

end
