(* ===== verification/HostNet.thy ===== *)
theory HostNet
  imports HostState
begin

text \<open>
  \<open>host_state_net.rs\<close>: the HTTP host function. The client is a parameter: its answer is a function of
  all requests handed to it so far, the present one last, so that nothing is assumed about a
  server's consistency, and so are the URLs it requests by itself while it answers, when it
  follows redirects. \<open>fetch\<close> returns its result together with the requests it handed to the client;
  \<open>wire_urls\<close> adds what the client sent by itself. The \<open>url\<close> crate's operations are a parameter,
  and so is Unicode upper-casing. The lemmas show what every request handed over satisfies,
  whatever the servers answer, and what a response handed to the guest satisfies.
\<close>

section \<open>Requests and responses\<close>

record url_ops =
  uo_parse :: url_parser
  uo_join :: "url \<Rightarrow> string \<Rightarrow> url option"
  uo_clear_query :: "url \<Rightarrow> url"
  uo_clear_fragment :: "url \<Rightarrow> url"
  uo_clear_password :: "url \<Rightarrow> url"
  uo_clear_username :: "url \<Rightarrow> url"
  uo_to_uppercase :: "string \<Rightarrow> string"

datatype http_method = GET | POST | PUT | DELETE | PATCH | HEAD

record guest_request =
  gq_method :: string
  gq_url :: string
  gq_headers :: "(string \<times> string) list"
  gq_body :: "string option"

record guest_response =
  gr_status :: "16 word"
  gr_headers :: "(string \<times> string) list"
  gr_body :: string

record http_request =
  rq_method :: http_method
  rq_url :: string
  rq_headers :: "(string \<times> string) list"
  rq_body :: "string option"
  rq_timeout :: duration

text \<open>A header value is absent when its bytes are not visible text; \<open>rs_take n\<close> is
  \<open>take(n).read_to_end\<close> on the body.\<close>

record http_response =
  rs_status :: "16 word"
  rs_headers :: "(string \<times> string option) list"
  rs_url :: url
  rs_take :: "nat \<Rightarrow> (string, string) result"

text \<open>
  The client of the embedder. \<open>hc_send\<close> is its answer to the last of these requests, \<open>hc_hops\<close> the URLs
  it requests by itself, in order, before it answers. A client built with
  \<open>redirect::Policy::none()\<close> requests nothing by itself.
\<close>

record http_client =
  hc_send :: "http_request list \<Rightarrow> (string, http_response) result"
  hc_hops :: "http_request list \<Rightarrow> string list"

definition redirect_policy_none :: "http_client \<Rightarrow> bool" where
  "redirect_policy_none client \<longleftrightarrow> (\<forall>sent. hc_hops client sent = [])"

definition MAX_RESPONSE_BYTES :: nat where "MAX_RESPONSE_BYTES = 32 * 1024 * 1024"

definition MAX_REDIRECT_HOPS :: nat where "MAX_REDIRECT_HOPS = 10"

definition FORBIDDEN_REQUEST_HEADERS :: "string list" where
  "FORBIDDEN_REQUEST_HEADERS =
     [''host'', ''content-length'', ''transfer-encoding'', ''connection'', ''upgrade'', ''expect'']"

section \<open>Operations\<close>

definition loggable :: "url_ops \<Rightarrow> string \<Rightarrow> string" where
  "loggable ops url =
     (case uo_parse ops url of
        Some u \<Rightarrow>
          u_text (uo_clear_username ops (uo_clear_password ops (uo_clear_fragment ops (uo_clear_query ops u))))
      | None \<Rightarrow> ''<unparseable url>'')"

definition is_redirection :: "16 word \<Rightarrow> bool" where
  "is_redirection status \<longleftrightarrow> 300 \<le> status \<and> status < 400"

definition redirect_target :: "url_ops \<Rightarrow> http_response \<Rightarrow> url option" where
  "redirect_target ops resp =
     (if \<not> is_redirection (rs_status resp) then None
      else (case map_of (rs_headers resp) ''location'' of
              Some (Some location) \<Rightarrow> uo_join ops (rs_url resp) location
            | _ \<Rightarrow> None))"

definition forbidden_header :: "string \<Rightarrow> bool" where
  "forbidden_header k = list_ex (\<lambda>h. eq_ignore_ascii_case k h) FORBIDDEN_REQUEST_HEADERS"

definition send_once ::
  "('cl, 'rt, 'f) host_state \<Rightarrow> http_client \<Rightarrow> http_method \<Rightarrow> string \<Rightarrow> (string \<times> string) list
   \<Rightarrow> string option \<Rightarrow> http_request list \<Rightarrow> (string, http_response) result \<times> http_request list" where
  "send_once hs client method url headers body sent =
     (let request = \<lparr>rq_method = method, rq_url = url,
            rq_headers = filter (\<lambda>(k, v). \<not> forbidden_header k) headers, rq_body = body,
            rq_timeout = hs_http_timeout hs\<rparr>
      in (map_err (\<lambda>e. ''http transport error: '' @ e) (hc_send client (sent @ [request])), sent @ [request]))"

definition parse_method :: "url_ops \<Rightarrow> string \<Rightarrow> (string, http_method) result" where
  "parse_method ops m =
     (let up = uo_to_uppercase ops m in
      if up = ''GET'' then Inr GET
      else if up = ''POST'' then Inr POST
      else if up = ''PUT'' then Inr PUT
      else if up = ''DELETE'' then Inr DELETE
      else if up = ''PATCH'' then Inr PATCH
      else if up = ''HEAD'' then Inr HEAD
      else Inl (''unsupported http method: '' @ up))"

definition redirect_refused :: "url_ops \<Rightarrow> string \<Rightarrow> string" where
  "redirect_refused ops u = ''network not allowed for redirect target: '' @ loggable ops u"

text \<open>The redirect loop: the hops left, the URL last requested, its response, the requests sent.\<close>

fun follow_redirects ::
  "url_ops \<Rightarrow> ('cl, 'rt, 'f) host_state \<Rightarrow> http_client \<Rightarrow> http_method \<Rightarrow> guest_request \<Rightarrow> nat
   \<Rightarrow> string \<Rightarrow> http_response \<Rightarrow> http_request list
   \<Rightarrow> (string, string \<times> http_response) result \<times> http_request list" where
  "follow_redirects ops hs client method req 0 url resp sent = (Inr (url, resp), sent)"
| "follow_redirects ops hs client method req (Suc hops) url resp sent =
     (case redirect_target ops resp of
        None \<Rightarrow> (Inr (url, resp), sent)
      | Some next_url \<Rightarrow>
          if \<not> is_allowed (uo_parse ops) (hs_url_matcher hs) (u_text next_url)
          then (Inl (redirect_refused ops (u_text next_url)), sent)
          else
            (case send_once hs client method (u_text next_url) (gq_headers req) (gq_body req) sent of
               (Inl e, sent') \<Rightarrow> (Inl e, sent')
             | (Inr resp', sent') \<Rightarrow>
                 follow_redirects ops hs client method req hops (u_text next_url) resp' sent'))"

definition finish_response ::
  "url_ops \<Rightarrow> ('cl, 'rt, 'f) host_state \<Rightarrow> string \<Rightarrow> http_response \<Rightarrow> (string, guest_response) result" where
  "finish_response ops hs url resp =
     (let final_url = u_text (rs_url resp) in
      if final_url \<noteq> url \<and> \<not> is_allowed (uo_parse ops) (hs_url_matcher hs) final_url
      then Inl (redirect_refused ops final_url)
      else
        and_then (map_err (\<lambda>e. ''http body error: '' @ e) (rs_take resp (MAX_RESPONSE_BYTES + 1))) (\<lambda>body.
          if length body > MAX_RESPONSE_BYTES
          then Inl (''http response body exceeds the '' @ show_nat MAX_RESPONSE_BYTES @ '' byte cap'')
          else Inr \<lparr>gr_status = rs_status resp,
                    gr_headers = List.map_filter (\<lambda>(k, v). map_option (Pair k) v) (rs_headers resp),
                    gr_body = body\<rparr>))"

definition fetch ::
  "url_ops \<Rightarrow> (http_client, 'rt, 'f) host_state \<Rightarrow> guest_request
   \<Rightarrow> (string, guest_response) result \<times> http_request list" where
  "fetch ops hs req =
     (if \<not> is_allowed (uo_parse ops) (hs_url_matcher hs) (gq_url req)
      then (Inl (''network not allowed for url: '' @ gq_url req), [])
      else
        (case hs_http_client hs of
           None \<Rightarrow> (Inl ''http client not configured for this runtime'', [])
         | Some client \<Rightarrow>
             (case parse_method ops (gq_method req) of
                Inl e \<Rightarrow> (Inl e, [])
              | Inr method \<Rightarrow>
                  (case send_once hs client method (gq_url req) (gq_headers req) (gq_body req) [] of
                     (Inl e, sent) \<Rightarrow> (Inl e, sent)
                   | (Inr resp, sent) \<Rightarrow>
                       (case follow_redirects ops hs client method req MAX_REDIRECT_HOPS (gq_url req) resp sent of
                          (Inl e, sent') \<Rightarrow> (Inl e, sent')
                        | (Inr (url, resp'), sent') \<Rightarrow> (finish_response ops hs url resp', sent'))))))"

section \<open>What goes on the wire\<close>

text \<open>What holds of every request handed to the client for a guest's request.\<close>

definition wire_ok ::
  "url_ops \<Rightarrow> ('cl, 'rt, 'f) host_state \<Rightarrow> guest_request \<Rightarrow> http_request \<Rightarrow> bool" where
  "wire_ok ops hs req r \<longleftrightarrow>
     is_allowed (uo_parse ops) (hs_url_matcher hs) (rq_url r) \<and>
     list_all (\<lambda>(k, v). (k, v) \<in> set (gq_headers req) \<and> \<not> forbidden_header k) (rq_headers r) \<and>
     rq_body r = gq_body req \<and> rq_timeout r = hs_http_timeout hs \<and>
     parse_method ops (gq_method req) = Inr (rq_method r)"

text \<open>The state of the loop: the last request was sent to the current URL, its answer is the current
  response, and all requests are within the policy.\<close>

definition loop_inv ::
  "url_ops \<Rightarrow> ('cl, 'rt, 'f) host_state \<Rightarrow> http_client \<Rightarrow> guest_request \<Rightarrow> string \<Rightarrow> http_response
   \<Rightarrow> http_request list \<Rightarrow> bool" where
  "loop_inv ops hs client req url resp sent \<longleftrightarrow>
     list_all (wire_ok ops hs req) sent \<and> sent \<noteq> [] \<and> hc_send client sent = Inr resp \<and> rq_url (last sent) = url"

lemma send_once_wire:
  assumes "is_allowed (uo_parse ops) (hs_url_matcher hs) url"
    and "parse_method ops (gq_method req) = Inr method"
    and "list_all (wire_ok ops hs req) sent"
    and "send_once hs client method url (gq_headers req) (gq_body req) sent = (r, sent')"
  shows "list_all (wire_ok ops hs req) sent'" and "length sent' = Suc (length sent)"
    and "r = Inr resp \<Longrightarrow> loop_inv ops hs client req url resp sent'"
  using assms by (auto simp: send_once_def wire_ok_def loop_inv_def list_all_iff result_simps Let_def)

lemma follow_redirects_wire:
  assumes "parse_method ops (gq_method req) = Inr method"
    and "loop_inv ops hs client req url resp sent"
    and "follow_redirects ops hs client method req hops url resp sent = (r, sent')"
  shows "list_all (wire_ok ops hs req) sent' \<and> length sent' \<le> length sent + hops \<and>
    (\<forall>url' resp'. r = Inr (url', resp') \<longrightarrow> loop_inv ops hs client req url' resp' sent')"
  using assms(2,3)
proof (induction hops arbitrary: url resp sent)
  case 0
  then show ?case by (auto simp: loop_inv_def)
next
  case (Suc hops)
  show ?case
  proof (cases "redirect_target ops resp")
    case None
    with Suc.prems show ?thesis by (auto simp: loop_inv_def)
  next
    case (Some next_url)
    show ?thesis
    proof (cases "is_allowed (uo_parse ops) (hs_url_matcher hs) (u_text next_url)")
      case False
      with Some Suc.prems show ?thesis by (auto simp: loop_inv_def)
    next
      case True
      obtain s sent1 where send: "send_once hs client method (u_text next_url) (gq_headers req) (gq_body req) sent
          = (s, sent1)" by fastforce
      have "list_all (wire_ok ops hs req) sent" using Suc.prems(1) by (simp add: loop_inv_def)
      note step = send_once_wire [OF True assms(1) this send]
      show ?thesis
      proof (cases s)
        case (Inl e)
        with Suc.prems Some True send step(1,2) show ?thesis by auto
      next
        case (Inr resp1)
        with Suc.prems(2) Some True send
        have "follow_redirects ops hs client method req hops (u_text next_url) resp1 sent1 = (r, sent')"
          by simp
        from Suc.IH [OF step(3) [OF Inr] this] step(2) show ?thesis by auto
      qed
    qed
  qed
qed

lemma fetch_wire:
  "fetch ops hs req = (r, sent) \<Longrightarrow>
     list_all (wire_ok ops hs req) sent \<and> length sent \<le> Suc MAX_REDIRECT_HOPS \<and>
     (\<forall>gr. r = Inr gr \<longrightarrow> (\<exists>client url resp. hs_http_client hs = Some client \<and>
        loop_inv ops hs client req url resp sent \<and> finish_response ops hs url resp = Inr gr))"
  (is "_ \<Longrightarrow> ?goal")
proof -
  assume fetch: "fetch ops hs req = (r, sent)"
  show ?goal
  proof (cases "is_allowed (uo_parse ops) (hs_url_matcher hs) (gq_url req)")
    case False
    with fetch show ?thesis by (auto simp: fetch_def)
  next
    case allowed: True
    show ?thesis
    proof (cases "hs_http_client hs")
      case None
      with fetch allowed show ?thesis by (auto simp: fetch_def)
    next
      case client: (Some client)
      show ?thesis
      proof (cases "parse_method ops (gq_method req)")
        case (Inl e)
        with fetch allowed client show ?thesis by (auto simp: fetch_def)
      next
        case meth: (Inr m)
        obtain s sent1 where send: "send_once hs client m (gq_url req) (gq_headers req) (gq_body req) []
            = (s, sent1)" by fastforce
        note step = send_once_wire [OF allowed meth _ send, simplified]
        show ?thesis
        proof (cases s)
          case (Inl e)
          with fetch allowed client meth send step(1,2) show ?thesis by (auto simp: fetch_def)
        next
          case resp: (Inr resp)
          obtain f sent2 where loop: "follow_redirects ops hs client m req MAX_REDIRECT_HOPS (gq_url req)
              resp sent1 = (f, sent2)" by fastforce
          from follow_redirects_wire [OF meth step(3) [OF resp] this] step(2)
          show ?thesis
            using fetch allowed client meth send resp loop
            by (auto simp: fetch_def split: sum.splits prod.splits)
        qed
      qed
    qed
  qed
qed

lemma finish_response_ok:
  "finish_response ops hs url resp = Inr gr \<Longrightarrow>
     length (gr_body gr) \<le> MAX_RESPONSE_BYTES \<and> gr_status gr = rs_status resp \<and>
     rs_take resp (MAX_RESPONSE_BYTES + 1) = Inr (gr_body gr) \<and>
     (u_text (rs_url resp) = url \<or> is_allowed (uo_parse ops) (hs_url_matcher hs) (u_text (rs_url resp)))"
  by (auto simp: finish_response_def Let_def result_simps split: if_splits)

text \<open>All URLs that are requested: those handed to the client, each followed by the client's own.\<close>

definition wire_urls :: "http_client \<Rightarrow> http_request list \<Rightarrow> string list" where
  "wire_urls client sent =
     concat (map (\<lambda>k. rq_url (sent ! k) # hc_hops client (take (Suc k) sent)) [0..<length sent])"

lemma wire_urls_none: "redirect_policy_none client \<Longrightarrow> wire_urls client sent = map rq_url sent"
proof -
  assume "redirect_policy_none client"
  then have "wire_urls client sent = map (\<lambda>k. rq_url (sent ! k)) [0..<length sent]"
    by (simp add: wire_urls_def redirect_policy_none_def)
  also have "\<dots> = map rq_url sent" by (rule nth_equalityI) simp_all
  finally show ?thesis .
qed

lemma fetch_answer:
  assumes "fetch ops hs req = (Inr gr, sent)"
  obtains client resp where "hs_http_client hs = Some client" "sent \<noteq> []" "hc_send client sent = Inr resp"
    "is_allowed (uo_parse ops) (hs_url_matcher hs) (u_text (rs_url resp))"
    "gr_status gr = rs_status resp" "length (gr_body gr) \<le> MAX_RESPONSE_BYTES"
    "rs_take resp (MAX_RESPONSE_BYTES + 1) = Inr (gr_body gr)"
proof -
  from fetch_wire [OF assms] obtain client url resp where c: "hs_http_client hs = Some client"
    and inv: "loop_inv ops hs client req url resp sent" and fin: "finish_response ops hs url resp = Inr gr"
    by blast
  from inv have "wire_ok ops hs req (last sent)" "rq_url (last sent) = url"
    by (auto simp: loop_inv_def list_all_iff)
  then have "is_allowed (uo_parse ops) (hs_url_matcher hs) url" by (simp add: wire_ok_def)
  with c inv finish_response_ok [OF fin] show thesis
    by (intro that [of client resp]) (auto simp: loop_inv_def)
qed

text \<open>A server that redirects once to a path on the list, and a client that does not follow by itself.\<close>

definition redirect_ops :: url_ops where
  "redirect_ops =
     \<lparr>uo_parse = example_parse, uo_join = (\<lambda>_ l. example_parse (''https://api.test'' @ l)), uo_clear_query = id,
      uo_clear_fragment = id, uo_clear_password = id, uo_clear_username = id, uo_to_uppercase = id\<rparr>"

definition redirect_client :: http_client where
  "redirect_client =
     \<lparr>hc_send = (\<lambda>sent. Inr
        \<lparr>rs_status = (if length sent = 1 then 302 else 200),
         rs_headers = (if length sent = 1 then [(''location'', Some ''/v1'')] else []),
         rs_url = example_url (rq_url (last sent)) ''https'' (Domain ''api.test'') ''api.test'' 443 ''/'',
         rs_take = (\<lambda>_. Inr ''ok'')\<rparr>),
      hc_hops = (\<lambda>_. [])\<rparr>"

definition redirect_guest :: "(http_client, unit, unit) host_state" where
  "redirect_guest = build (set_url_matcher (from_patterns example_parse [''https://api.test/*''])
     (set_http_client (Some redirect_client) (builder ''e'' permissions_default)))"

definition redirect_get :: guest_request where
  "redirect_get = \<lparr>gq_method = ''GET'', gq_url = ''https://api.test'', gq_headers = [], gq_body = None\<rparr>"

lemma redirect_allowed:
  "is_allowed example_parse (from_patterns example_parse [''https://api.test/*'']) ''https://api.test''"
  "is_allowed example_parse (from_patterns example_parse [''https://api.test/*'']) ''https://api.test/v1''"
  by (simp_all add: url_eval)

lemma redirect_guest_fields:
  "hs_url_matcher redirect_guest = from_patterns example_parse [''https://api.test/*'']"
  "hs_http_client redirect_guest = Some redirect_client"
  by (simp_all add: redirect_guest_def build_def setter_defs)

lemma redirect_join:
  "uo_join redirect_ops u ''/v1'' =
     Some (example_url ''https://api.test/v1'' ''https'' (Domain ''api.test'') ''api.test'' 443 ''/v1'')"
  by (simp add: redirect_ops_def example_parse_def)

lemma redirect_fetched:
  "map rq_url (snd (fetch redirect_ops redirect_guest redirect_get)) = [''https://api.test'', ''https://api.test/v1'']"
proof -
  have parse: "uo_parse redirect_ops = example_parse" by (simp add: redirect_ops_def)
  have meth: "parse_method redirect_ops ''GET'' = Inr GET" by (simp add: parse_method_def redirect_ops_def)
  have shown: "u_text (example_url t s h hs n p) = t" for t s h hs n p by (simp add: example_url_def)
  have status: "is_redirection 302" "\<not> is_redirection 200" by (simp_all add: is_redirection_def)
  obtain n where hops: "MAX_REDIRECT_HOPS = Suc (Suc n)"
    by (rule that [of 8]) (simp add: MAX_REDIRECT_HOPS_def)
  show ?thesis
    by (simp add: fetch_def redirect_get_def redirect_guest_fields parse redirect_allowed meth send_once_def
        redirect_client_def hops redirect_target_def status redirect_join shown finish_response_def)
qed

section \<open>Properties\<close>

text \<open>
  C10: Every request handed to the HTTP client on behalf of a guest, the first one and every redirect
  the runtime follows, goes to a URL the allow-list admits, carries only headers the guest gave
  and none of the forbidden ones, the guest's body and method, and the host's timeout; there are
  at most eleven, whatever the servers answer. Without a client none is made. With a client that
  follows no redirects by itself these are all requests on the wire, so nothing leaves the list. A
  client that does follow them sends its own hops unchecked, and then it is only the response that is
  held back: the guest gets one only when the URL it finally came from is on the list.
\<close>

theorem fetch_requests_allowed:
  "list_all (\<lambda>r. is_allowed (uo_parse ops) (hs_url_matcher hs) (rq_url r) \<and>
       list_all (\<lambda>(k, v). (k, v) \<in> set (gq_headers req) \<and>
          list_all (\<lambda>h. \<not> eq_ignore_ascii_case k h) FORBIDDEN_REQUEST_HEADERS) (rq_headers r) \<and>
       rq_body r = gq_body req \<and> rq_timeout r = hs_http_timeout hs \<and>
       parse_method ops (gq_method req) = Inr (rq_method r)) (snd (fetch ops hs req)) \<and>
   length (snd (fetch ops hs req)) \<le> 11 \<and>
   (case hs_http_client hs of
      None \<Rightarrow> snd (fetch ops hs req) = []
    | Some client \<Rightarrow>
        (redirect_policy_none client \<longrightarrow>
           list_all (is_allowed (uo_parse ops) (hs_url_matcher hs)) (wire_urls client (snd (fetch ops hs req)))) \<and>
        (\<forall>gr. fst (fetch ops hs req) = Inr gr \<longrightarrow>
           (\<exists>resp. hc_send client (snd (fetch ops hs req)) = Inr resp \<and>
              is_allowed (uo_parse ops) (hs_url_matcher hs) (u_text (rs_url resp)))))"
proof -
  obtain r sent where fetch: "fetch ops hs req = (r, sent)" by fastforce
  from fetch_wire [OF this] have wire: "list_all (wire_ok ops hs req) sent" and len: "length sent \<le> 11"
    by (simp_all add: MAX_REDIRECT_HOPS_def)
  from wire have all: "list_all (\<lambda>r. is_allowed (uo_parse ops) (hs_url_matcher hs) (rq_url r) \<and>
       list_all (\<lambda>(k, v). (k, v) \<in> set (gq_headers req) \<and>
          list_all (\<lambda>h. \<not> eq_ignore_ascii_case k h) FORBIDDEN_REQUEST_HEADERS) (rq_headers r) \<and>
       rq_body r = gq_body req \<and> rq_timeout r = hs_http_timeout hs \<and>
       parse_method ops (gq_method req) = Inr (rq_method r)) sent"
    by (auto simp: wire_ok_def list_all_iff forbidden_header_def list_ex_iff)
  have "list_all (is_allowed (uo_parse ops) (hs_url_matcher hs)) (map rq_url sent)"
    using wire by (auto simp: list_all_iff wire_ok_def)
  then have policy: "redirect_policy_none client \<Longrightarrow>
      list_all (is_allowed (uo_parse ops) (hs_url_matcher hs)) (wire_urls client sent)" for client
    by (simp add: wire_urls_none)
  have answer: "\<exists>resp. hc_send client sent = Inr resp \<and>
      is_allowed (uo_parse ops) (hs_url_matcher hs) (u_text (rs_url resp))"
    if "hs_http_client hs = Some client" "r = Inr gr" for client gr
    using fetch_answer [OF fetch [unfolded that(2)]] that(1) by (metis option.inject)
  have none: "hs_http_client hs = None \<Longrightarrow> sent = []"
    using fetch by (auto simp: fetch_def split: if_splits)
  show ?thesis
    by (cases "hs_http_client hs") (simp_all add: fetch all len none policy answer)
qed

theorem fetch_requests_allowed_witness:
  "map rq_url (snd (fetch redirect_ops redirect_guest redirect_get)) = [''https://api.test'', ''https://api.test/v1''] \<and>
   list_all (is_allowed (uo_parse redirect_ops) (hs_url_matcher redirect_guest))
     (wire_urls redirect_client (snd (fetch redirect_ops redirect_guest redirect_get)))"
proof -
  have "redirect_policy_none redirect_client" by (simp add: redirect_policy_none_def redirect_client_def)
  with fetch_requests_allowed [of redirect_ops redirect_guest redirect_get] redirect_fetched
  show ?thesis by (simp add: redirect_guest_fields)
qed

text \<open>
  A response the guest gets answers the last request sent, came from a URL the allow-list admits
  even when the client followed redirects by itself, has the status of that answer and a body
  of at most 32 MiB that was read whole; a URL off the list sends nothing at all.
\<close>

theorem response_from_allowed_url:
  "(case fetch ops hs req of (r, sent) \<Rightarrow>
     (case r of
        Inl e \<Rightarrow> is_allowed (uo_parse ops) (hs_url_matcher hs) (gq_url req) \<or> sent = []
      | Inr gr \<Rightarrow>
          \<exists>client resp. hs_http_client hs = Some client \<and> sent \<noteq> [] \<and> hc_send client sent = Inr resp \<and>
            is_allowed (uo_parse ops) (hs_url_matcher hs) (u_text (rs_url resp)) \<and>
            gr_status gr = rs_status resp \<and> length (gr_body gr) \<le> 33554432 \<and>
            rs_take resp 33554433 = Inr (gr_body gr)))"
proof (cases "fetch ops hs req")
  case (Pair r sent)
  show ?thesis
  proof (cases r)
    case (Inl e)
    with Pair show ?thesis by (auto simp: fetch_def split: if_splits)
  next
    case (Inr gr)
    from fetch_answer [OF Pair [unfolded Inr]] show ?thesis
      by (simp add: Pair Inr MAX_RESPONSE_BYTES_def) metis
  qed
qed

text \<open>
  The limit of the check, which \<open>HostStateBuilder::http_client\<close> documents: a client that follows
  redirects by itself can be walked to any URL. The guest gets an error, but the hop was sent.
\<close>

theorem client_redirects_unchecked:
  assumes "is_allowed (uo_parse ops) (hs_url_matcher hs) (gq_url req)"
    and "parse_method ops (gq_method req) = Inr m"
    and "\<not> is_allowed (uo_parse ops) (hs_url_matcher hs) off"
  shows "\<exists>client. off \<in> set (wire_urls client (snd (fetch ops (hs\<lparr>hs_http_client := Some client\<rparr>) req))) \<and>
    fst (fetch ops (hs\<lparr>hs_http_client := Some client\<rparr>) req) = Inl (redirect_refused ops off)"
proof -
  let ?url = "\<lparr>u_text = off, u_scheme = [], u_host = None, u_host_str = None,
      u_port_or_known_default = None, u_path = [], u_query = None\<rparr>"
  let ?resp = "\<lparr>rs_status = 200, rs_headers = [], rs_url = ?url, rs_take = \<lambda>_. Inr []\<rparr>"
  let ?client = "\<lparr>hc_send = \<lambda>_. Inr ?resp, hc_hops = \<lambda>_. [off]\<rparr>"
  let ?hs = "hs\<lparr>hs_http_client := Some ?client\<rparr>"
  have "redirect_target ops ?resp = None" by (simp add: redirect_target_def is_redirection_def)
  then have loop: "follow_redirects ops ?hs ?client m req n u ?resp sent = (Inr (u, ?resp), sent)" for n u sent
    by (cases n) simp_all
  obtain sent where send: "send_once ?hs ?client m (gq_url req) (gq_headers req) (gq_body req) [] = (Inr ?resp, [sent])"
    by (simp add: send_once_def Let_def)
  have "off \<noteq> gq_url req" using assms(1,3) by auto
  with assms have "fetch ops ?hs req = (Inl (redirect_refused ops off), [sent])"
    by (simp add: fetch_def send loop finish_response_def Let_def)
  then show ?thesis by (intro exI [of _ ?client]) (simp add: wire_urls_def)
qed

end
