(* ===== verification/HostOauth.thy ===== *)
theory HostOauth
  imports HostState
begin

text \<open>
  \<open>oauth.rs\<close> and \<open>host_state_oauth.rs\<close>: the token request to the OAuth broker and the three calls of
  the guest's interface. The URL crate's operations, the JSON encoders and the exchange with
  the broker (one POST with its status check and decoding) are parameters; the calls return the
  answer with the list of POSTs they made. The lemmas show when a token request leaves the host,
  where to, and that credentials do not reach a rendering.
\<close>

record resource_token_request =
  rt_http_base_url :: string
  rt_env :: string
  rt_tenant :: string
  rt_team :: "string option"
  rt_resource_id :: string
  rt_scopes :: "string list"

record resource_token_response =
  ra_access_token :: string
  ra_expires_at :: "64 word"

record token_post =
  tp_url :: url
  tp_timeout :: duration
  tp_json :: resource_token_request
  tp_bearer :: "string option"

record oauth_ops =
  oo_parse :: "string \<Rightarrow> (string, url) result"
  oo_set_path :: "url \<Rightarrow> string \<Rightarrow> url"
  oo_join :: "url \<Rightarrow> string \<Rightarrow> (string, url) result"
  oo_post :: "token_post \<Rightarrow> (string, resource_token_response) result"
  oo_encode :: "resource_token_response \<Rightarrow> string option"
  oo_json_string :: "string \<Rightarrow> string"

section \<open>Renderings\<close>

text \<open>The \<open>Debug\<close> renderings as field and value; \<open>dbg\<close> renders a string, \<open>dbg_opt\<close> an optional one.\<close>

definition oauth_config_debug ::
  "(string \<Rightarrow> string) \<Rightarrow> (string option \<Rightarrow> string) \<Rightarrow> oauth_broker_config \<Rightarrow> (string \<times> string) list" where
  "oauth_config_debug dbg dbg_opt c =
     [(''http_base_url'', dbg (oc_http_base_url c)), (''env'', dbg (oc_env c)),
      (''tenant'', dbg (oc_tenant c)), (''team'', dbg_opt (oc_team c)),
      (''shared_secret'', dbg_opt (map_option (\<lambda>_. ''<redacted>'') (oc_shared_secret c)))]"

definition token_response_debug :: "(string \<Rightarrow> string) \<Rightarrow> resource_token_response \<Rightarrow> (string \<times> string) list" where
  "token_response_debug dbg r =
     [(''access_token'', dbg ''<redacted>''), (''expires_at'', show_nat (unat (ra_expires_at r)))]"

section \<open>The token request\<close>

definition is_local_host :: "url \<Rightarrow> bool" where
  "is_local_host base \<longleftrightarrow> u_host_str base = Some ''127.0.0.1'' \<or> u_host_str base = Some ''localhost''"

definition request_resource_token_blocking ::
  "oauth_ops \<Rightarrow> resource_token_request \<Rightarrow> string option \<Rightarrow> duration
   \<Rightarrow> (string, resource_token_response) result \<times> token_post list" where
  "request_resource_token_blocking ops request shared_secret timeout =
     (case and_then (oo_parse ops (rt_http_base_url request)) (\<lambda>base.
             and_then (ensure (u_scheme base = ''https'' \<or> is_local_host base)
                        ''oauth broker http_base_url must be https'') (\<lambda>_.
             and_then (ensure (u_query base = None)
                        ''oauth broker http_base_url must not carry a query'') (\<lambda>_.
             oo_join ops
               (if ends_with ''/'' (u_path base) then base else oo_set_path ops base (u_path base @ ''/''))
               ''resource-token''))) of
        Inl e \<Rightarrow> (Inl e, [])
      | Inr url \<Rightarrow>
          (let post = \<lparr>tp_url = url, tp_timeout = timeout, tp_json = request, tp_bearer = shared_secret\<rparr>
           in (oo_post ops post, [post])))"

section \<open>The guest's interface\<close>

definition ERR_UNCONFIGURED :: string where
  "ERR_UNCONFIGURED = ''{\"error\":\"oauth_broker_unconfigured\"}''"

definition ERR_ENCODE_FAILED :: string where
  "ERR_ENCODE_FAILED = ''{\"error\":\"encode_failed\"}''"

definition ERR_BROKER_REQUEST_FAILED :: string where
  "ERR_BROKER_REQUEST_FAILED = ''{\"error\":\"broker_request_failed\"}''"

definition ERR_NOT_IMPLEMENTED :: string where
  "ERR_NOT_IMPLEMENTED = ''{\"error\":\"not_implemented\"}''"

definition provider_permitted :: "string list \<Rightarrow> string \<Rightarrow> bool" where
  "provider_permitted providers p = list_ex (\<lambda>x. x = p) providers"

definition denied_envelope :: "oauth_ops \<Rightarrow> string \<Rightarrow> string" where
  "denied_envelope ops provider_id =
     ''{\"error\":\"permission_denied\",\"provider\":'' @ oo_json_string ops provider_id @ ''}''"

definition check_provider ::
  "oauth_ops \<Rightarrow> ('cl, 'rt, 'f) host_state \<Rightarrow> string \<Rightarrow> (string, unit) result" where
  "check_provider ops hs provider_id =
     (if provider_permitted (oauth_providers (hs_permissions hs)) provider_id then Inr ()
      else Inl (denied_envelope ops provider_id))"

definition token_request_for :: "oauth_broker_config \<Rightarrow> string \<Rightarrow> string list \<Rightarrow> resource_token_request" where
  "token_request_for cfg provider_id scopes =
     \<lparr>rt_http_base_url = oc_http_base_url cfg, rt_env = oc_env cfg, rt_tenant = oc_tenant cfg,
      rt_team = oc_team cfg, rt_resource_id = provider_id, rt_scopes = scopes\<rparr>"

definition get_token ::
  "oauth_ops \<Rightarrow> ('cl, 'rt, 'f) host_state \<Rightarrow> string \<Rightarrow> string \<Rightarrow> string list \<Rightarrow> string \<times> token_post list" where
  "get_token ops hs provider_id subject scopes =
     (case check_provider ops hs provider_id of
        Inl denied \<Rightarrow> (denied, [])
      | Inr _ \<Rightarrow>
          (case (hs_oauth_config hs, hs_http_client hs) of
             (Some cfg, Some client) \<Rightarrow>
               (case request_resource_token_blocking ops (token_request_for cfg provider_id scopes)
                       (oc_shared_secret cfg) (hs_http_timeout hs) of
                  (Inr resp, posts) \<Rightarrow>
                    (case oo_encode ops resp of Some s \<Rightarrow> s | None \<Rightarrow> ERR_ENCODE_FAILED, posts)
                | (Inl e, posts) \<Rightarrow> (ERR_BROKER_REQUEST_FAILED, posts))
           | _ \<Rightarrow> (ERR_UNCONFIGURED, [])))"

definition get_consent_url ::
  "oauth_ops \<Rightarrow> ('cl, 'rt, 'f) host_state \<Rightarrow> string \<Rightarrow> string \<Rightarrow> string list \<Rightarrow> string \<Rightarrow> string \<Rightarrow> string" where
  "get_consent_url ops hs provider_id subject scopes redirect_path extra_json =
     (case check_provider ops hs provider_id of Inl denied \<Rightarrow> denied | Inr _ \<Rightarrow> ERR_NOT_IMPLEMENTED)"

definition exchange_code ::
  "oauth_ops \<Rightarrow> ('cl, 'rt, 'f) host_state \<Rightarrow> string \<Rightarrow> string \<Rightarrow> string \<Rightarrow> string \<Rightarrow> string" where
  "exchange_code ops hs provider_id subject auth_code redirect_path =
     (case check_provider ops hs provider_id of Inl denied \<Rightarrow> denied | Inr _ \<Rightarrow> ERR_NOT_IMPLEMENTED)"

interpretation oauth_gate: permission_gate provider_permitted
  unfolding provider_permitted_def by (rule list_ex_gate)

text \<open>A POST to the broker's endpoint below the configured base URL.\<close>

definition broker_post ::
  "oauth_ops \<Rightarrow> string \<Rightarrow> url \<Rightarrow> bool" where
  "broker_post ops base_url url \<longleftrightarrow>
     (case oo_parse ops base_url of
        Inl e \<Rightarrow> False
      | Inr base \<Rightarrow>
          (u_scheme base = ''https'' \<or> is_local_host base) \<and> u_query base = None \<and>
          (let dir = (if ends_with ''/'' (u_path base) then base
                      else oo_set_path ops base (u_path base @ ''/''))
           in oo_join ops dir ''resource-token'' = Inr url))"

lemma request_posts:
  assumes "request_resource_token_blocking ops request secret timeout = (r, posts)"
  shows "posts = [] \<and> (\<exists>e. r = Inl e) \<or>
    (\<exists>url. broker_post ops (rt_http_base_url request) url \<and>
       posts = [\<lparr>tp_url = url, tp_timeout = timeout, tp_json = request, tp_bearer = secret\<rparr>])"
  using assms
  by (cases "oo_parse ops (rt_http_base_url request)")
    (auto simp: request_resource_token_blocking_def broker_post_def Let_def ensure_def
      split: sum.splits if_splits)

lemma token_request_base [simp]:
  "rt_http_base_url (token_request_for cfg provider scopes) = oc_http_base_url cfg"
  by (simp add: token_request_for_def)

text \<open>
  C38: A token request leaves the host only for a provider the extension declares and only when a
  broker and a client are configured; it is then one POST, to the endpoint below the configured
  base URL, which is https or on the local machine and has no query, with the host's
  timeout and credential, for that very provider. With no POST the answer is one of the error
  envelopes.
\<close>

theorem token_request_gated:
  "(case get_token ops hs provider subject scopes of (answer, posts) \<Rightarrow>
     (case posts of
        [] \<Rightarrow> answer \<in> {denied_envelope ops provider, ERR_UNCONFIGURED, ERR_BROKER_REQUEST_FAILED}
      | p # ps \<Rightarrow>
          ps = [] \<and> provider \<in> set (oauth_providers (hs_permissions hs)) \<and> hs_http_client hs \<noteq> None \<and>
          (case hs_oauth_config hs of
             None \<Rightarrow> False
           | Some cfg \<Rightarrow>
               broker_post ops (oc_http_base_url cfg) (tp_url p) \<and> tp_timeout p = hs_http_timeout hs \<and>
               tp_bearer p = oc_shared_secret cfg \<and> tp_json p = token_request_for cfg provider scopes)))"
proof (cases "check_provider ops hs provider")
  case (Inl denied)
  then show ?thesis by (auto simp: get_token_def check_provider_def split: if_splits)
next
  case ok: (Inr u)
  then have declared: "provider \<in> set (oauth_providers (hs_permissions hs))"
    by (auto simp: check_provider_def provider_permitted_def list_ex_iff split: if_splits)
  show ?thesis
  proof (cases "hs_oauth_config hs = None \<or> hs_http_client hs = None")
    case True
    with ok show ?thesis by (auto simp: get_token_def split: option.splits)
  next
    case False
    then obtain cfg client where some: "hs_oauth_config hs = Some cfg" "hs_http_client hs = Some client"
      by auto
    obtain r posts where req: "request_resource_token_blocking ops (token_request_for cfg provider scopes)
        (oc_shared_secret cfg) (hs_http_timeout hs) = (r, posts)" by fastforce
    from request_posts [OF req] show ?thesis
      by (cases r) (auto simp: get_token_def ok some req declared)
  qed
qed

text \<open>Credentials do not reach a log through \<open>Debug\<close>: the renderings are the same whatever the shared
  secret, the access token and the credentials are.\<close>

lemma debug_renders_no_credential:
  "oauth_config_debug dbg dbg_opt (c\<lparr>oc_shared_secret := Some s\<rparr>)
     = oauth_config_debug dbg dbg_opt (c\<lparr>oc_shared_secret := Some s'\<rparr>)"
  "token_response_debug dbg (t\<lparr>ra_access_token := s\<rparr>) = token_response_debug dbg t"
  "deploy_request_debug dbg (d\<lparr>dr_credentials_json := s\<rparr>) = deploy_request_debug dbg d"
  "host_overrides_debug dbg dbg_opt dbg_matcher
       (ho\<lparr>ho_oauth_config := Some c, ho_secrets_backend := backend\<rparr>)
     = host_overrides_debug dbg dbg_opt dbg_matcher (ho\<lparr>ho_oauth_config := Some c'\<rparr>)"
  by (simp_all add: oauth_config_debug_def token_response_debug_def deploy_request_debug_def
      host_overrides_debug_def)

text \<open>The two calls that are not implemented are gated like the first.\<close>

lemma unimplemented_calls_gated:
  "get_consent_url ops hs p a b e f =
     (if p \<in> set (oauth_providers (hs_permissions hs)) then ERR_NOT_IMPLEMENTED else denied_envelope ops p)"
  "exchange_code ops hs p a b' e =
     (if p \<in> set (oauth_providers (hs_permissions hs)) then ERR_NOT_IMPLEMENTED else denied_envelope ops p)"
  by (auto simp: get_consent_url_def exchange_code_def check_provider_def provider_permitted_def list_ex_iff)

end
