(* ===== verification/Spec2Isabelle.thy ===== *)
theory Spec2Isabelle
  imports Calls Watch Interleave HostPorts HostLlm HostNet HostOauth
begin

text \<open>
  A verification library for \<open>greentic-ext-runtime\<close>, the host runtime of Greentic Designer extensions
  (\<open>src/crates/greentic-ext-runtime/src\<close>). The runtime loads signed WebAssembly packs from disk, keeps
  them current while files change, offers their capabilities to each other, and calls into them with
  host functions whose reach the pack's describe document declares.

  \<^bold>\<open>How the parts interact.\<close> A directory passes the load gate (\<open>runtime_verify.rs\<close>), becomes a loaded
  extension (\<open>loaded.rs\<close>), enters the loaded map from which the capability registry is derived
  (\<open>runtime.rs\<close>, \<open>runtime_registry.rs\<close>, \<open>capability.rs\<close>) and is reloaded or evicted by filesystem
  events (\<open>runtime_watch.rs\<close>, \<open>watcher.rs\<close>, \<open>discovery.rs\<close>). A call (\<open>runtime_design.rs\<close> and its
  siblings) looks the extension up, builds the state its host functions work on (\<open>host_state.rs\<close>,
  \<open>limits.rs\<close>, \<open>net_permissions.rs\<close>), resolves the newest interface version the component exports and
  maps the guest's errors (\<open>ext_error.rs\<close>). While it runs, the guest calls back into logging, secrets
  and the broker (\<open>host_state_ports.rs\<close>), the LLM port (\<open>host_state_llm.rs\<close>), HTTP
  (\<open>host_state_net.rs\<close>) and the OAuth broker (\<open>host_state_oauth.rs\<close>, \<open>oauth.rs\<close>).

  \<^bold>\<open>Theories and what they model.\<close>
    \<^item> Prelude: Rust's \<open>Result\<close> as a sum with the combinators of the code, the \<open>str\<close> operations on byte
      strings, association lists as hash maps. Gates: the contract of an allow-list test, interpreted
      for URLs, secrets, broker kinds, LLM roles and OAuth providers.
    \<^item> Types: \<open>types.rs\<close>, \<open>error.rs\<close>, \<open>health.rs\<close>, \<open>ext_error.rs\<close>; the contract of an error map
      (code and message kept, nothing collapsed) and its eight interpretations.
    \<^item> Capability: \<open>capability.rs\<close>. Resolution is sound, complete and independent of insertion order;
      the cycle search is equivalent to reachability of a cycle.
    \<^item> Urls: \<open>url_matcher.rs\<close>, \<open>http_scheme_policy.rs\<close>, \<open>net_permissions.rs\<close>. What is allowed, in closed
      form; the operator's ceiling; plain http only to loopback, but for patterns whose wildcard the
      policy and the matcher read differently, which are told apart by their text.
    \<^item> Limits: \<open>limits.rs\<close>, with \<open>usize\<close> as 64-bit words; the growth meter and its two interpretations.
      Epoch: its ticker thread as a step relation over the thread's locations, time and the drop; when
      a deadline can be reached, that it is, and how the thread ends.
    \<^item> Paths: \<open>std::path\<close> components, the filesystem as a record of observations, \<open>discovery.rs\<close>.
    \<^item> Sdk and Config: the shapes read of the SDK's documents, and \<open>runtime_config.rs\<close>.
    \<^item> Verify: \<open>runtime_verify.rs\<close>. The walk returns exactly the files of the tree or refuses it; the
      manifest covers the directory; the publisher pin is written last. Loaded: the load half of
      \<open>loaded.rs\<close> and \<open>runtime_views.rs\<close>. Tools: \<open>tool_metadata_report.rs\<close>.
    \<^item> Runtime: construction and the stores of \<open>runtime.rs\<close>, \<open>runtime_registry.rs\<close>, \<open>runtime_watch.rs\<close>, \<open>watcher.rs\<close>.
      Reach: the step relation over its operations, the reachable states and their invariants, which the
      watcher thread keeps. Watch: which directory a filesystem event concerns.
      Catalogue: the abstract specification of the loaded map, the edits made to it, and the events as
      a subscriber sees them. Interleave: threads that share one runtime, with the stores of
      \<open>mutate_loaded\<close> as separate steps under its lock; every interleaving refines the catalogue.
    \<^item> HostState: \<open>host_ports.rs\<close>, \<open>host_state.rs\<close> and the state of one dispatch. HostPorts, HostLlm,
      HostNet, HostOauth: the host functions, one theory per file named above.
    \<^item> Dispatch and Worlds: the calls into extensions. Calls: their outcomes, from the contract of a
      version table (newest first) and of an error map.
    \<^item> This theory: properties that span components, namely that a guest is confined to what its
      signed describe declares, that capabilities are bound to signed extensions, and that an
      evicted extension cannot be called.

  \<^bold>\<open>State and operations.\<close> A struct is a record with the fields of the code, a handler is a function from
  the state to a result and the new state, and an early return is a branch. The loaded map and the
  registry change together in \<^const>\<open>mutate_loaded\<close>, which the code runs under one lock and which is
  one step in Reach; Interleave takes it apart and shows what the lock guarantees. Between steps any
  other tool may write the publisher-key store as long as it keeps existing pins. The HTTP
  client answers by the whole history of requests handed to it, so what is handed over is a value the theorems speak about. What a client requests by itself, when it
  follows redirects, is part of the client: the runtime cannot check it, and \<^const>\<open>wire_urls\<close>
  lists it beside the runtime's own requests.

  \<^bold>\<open>Parameters.\<close> Code outside the repository is an argument: the \<open>url\<close> crate's parser and setters,
  \<open>semver\<close>, the SDK (schema, signature, manifest binding, trust store, SHA-256), the component
  compiler, instantiation and typed calls of wasmtime, the HTTP client, JSON of the guardrail
  types, \<open>Debug\<close> rendering, Unicode upper-casing, the event channel and the notify backend. The
  assumption made of them is \<^const>\<open>tofu_store\<close>: a pin, once written, is kept and a different key is refused. Three
  theorems assume more. The one on HTTP requests says for a client built with
  \<open>redirect::Policy::none()\<close> (\<^const>\<open>redirect_policy_none\<close>) that all requests on the wire are on the
  list; nothing in the code enforces that policy. The one on concurrent reloads assumes that each
  replaced version of the extension can be read, since a version that cannot be read compares with
  none. The one on subscribers assumes \<^const>\<open>lossless_within_capacity\<close>, which the channel documents.
  The filesystem is observed anew by the search, the gate and the load, so nothing is assumed to stay
  unchanged between the gate's check and the load's use.

  \<^bold>\<open>Bounds.\<close> The pack walk recurses to depth 32 (\<^const>\<open>MAX_PACK_DEPTH\<close>) and refuses deeper trees, so it
  ends on every filesystem; the redirect loop counts down \<^const>\<open>MAX_REDIRECT_HOPS\<close>. No definition uses
  other fuel: the cycle search, the search for an extension directory and the string loops are
  proved to terminate.

  \<^bold>\<open>Not modelled.\<close> The bindings generated by wasmtime and the crate's re-exports (\<open>host_bindings.rs\<close>,
  \<open>lib.rs\<close>); the WASI context, which grants nothing; the engine
  behind its constructor, and the guest's epoch checks, which compare the epoch with its value at
  \<^const>\<open>apply_limits\<close> plus the deadline given there; the debouncing of the notify crate;
  the redirects an HTTP client follows while it posts a token request, which stay inside the client operation of \<open>HostOauth\<close>; changes of the filesystem between two
  looks of one gate pass or of one load pass (between the passes everything may change); the wrap of the
  64-bit epoch counter; \<open>tracing\<close> output other than the guest's log records, the metadata report and
  the one-shot deprecation notice.
\<close>

section \<open>A guest is confined to what its signed describe declares\<close>

lemma reachable_signed:
  assumes "reachable api pinned rt" and "\<not> he_allow_unsigned (ra_host api)" and "lookup rt x = Inr ext"
  shows "verify_self_consistent (ra_env api) (le_describe ext) = Inr ()"
proof -
  have "(x, ext) \<in> set (rn_loaded rt)"
    using assms(3) by (auto simp: lookup_def result_simps dest: map_of_SomeD)
  from reachable_passed_gate [OF assms(1) this] obtain gate_fs load_fs ts ts' L where
    gate: "verify_dir_signature (ra_env api) (ra_host api) (rn_config rt) gate_fs ts (le_source_dir ext)
             = (Inr (le_describe ext, L), ts')"
    and load: "from_verified (ra_env api) (ra_compile api) (ra_dbg api) load_fs (le_source_dir ext)
        (le_describe ext) L = Inr ext"
    unfolding passed_gate_def by blast
  from gate_and_load_signed [OF gate assms(2) load] show ?thesis by blast
qed

lemma dispatched_fetch_granted:
  assumes "r \<in> set (snd (fetch ops (fst (dispatch_state (uo_parse ops) ext ho ctx t)) req))"
  shows "rq_timeout r = http_timeout_for t \<and>
    (if network (d_permissions (le_describe ext)) = []
     then is_allowed (uo_parse ops) (ho_url_matcher ho) (rq_url r)
     else \<exists>p\<in>set (within_ceiling (um_raw (ho_url_matcher ho)) (network (d_permissions (le_describe ext)))).
            allows_with (uo_parse ops) True [p] (rq_url r))"
proof -
  let ?hs = "fst (dispatch_state (uo_parse ops) ext ho ctx t)"
  have "wire_ok ops ?hs req r"
    using assms fetch_wire [of ops ?hs req] by (cases "fetch ops ?hs req") (auto simp: list_all_iff)
  then have timeout: "rq_timeout r = http_timeout_for t"
    and allowed: "is_allowed (uo_parse ops)
      (effective_url_matcher (uo_parse ops) (network (d_permissions (le_describe ext))) (ho_url_matcher ho)) (rq_url r)"
    by (simp_all add: wire_ok_def)
  show ?thesis
  proof (cases "network (d_permissions (le_describe ext)) = []")
    case True
    with timeout allowed show ?thesis by (simp add: effective_url_matcher_def)
  next
    case False
    with timeout effective_matcher_grant [OF False allowed] show ?thesis by simp
  qed
qed

text \<open>
  C1: A guest is confined to what its signed describe declares. In any reachable runtime without the
  development escape, the state a dispatch into a loaded extension prepares lets the guest send
  requests, as the runtime hands them to the HTTP client, only to URLs a declared network pattern grants (one the operator lists too, when
  there is such a list; the operator's list alone, when nothing is declared), read secrets only at
  or below a declared place, and complete only under a declared role, where \<open>declared\<close> is read from
  a describe whose signature was checked.
\<close>

theorem guest_confined_to_signed_describe:
  assumes "reachable api pinned rt" and "\<not> he_allow_unsigned (ra_host api)" and "lookup rt x = Inr ext"
    and "hs = fst (dispatch_state (uo_parse ops) ext ho ctx timeout)"
    and "perms = d_permissions (le_describe ext)"
  shows "verify_self_consistent (ra_env api) (le_describe ext) = Inr ()
    \<and> (\<forall>r\<in>set (snd (fetch ops hs req)). rq_timeout r = http_timeout_for timeout
         \<and> (if network perms = [] then is_allowed (uo_parse ops) (ho_url_matcher ho) (rq_url r)
            else \<exists>p\<in>set (network perms). (um_raw (ho_url_matcher ho) = [] \<or> p \<in> set (um_raw (ho_url_matcher ho)))
                   \<and> allows_with (uo_parse ops) True [p] (rq_url r)))
    \<and> (is_ok (secrets_get hs uri) \<longrightarrow>
         (\<exists>d\<in>set (secrets perms). \<exists>below. resolve_uri uri = resolve_uri d @ below \<and> resolve_uri d \<noteq> []))
    \<and> (is_ok (complete hs chat) \<longrightarrow>
         (\<exists>role\<in>set (llm_roles perms). \<forall>h. lq_role_hint chat = Some h \<longrightarrow> h = role))"
proof (intro conjI ballI)
  show "verify_self_consistent (ra_env api) (le_describe ext) = Inr ()"
    using assms(1-3) by (rule reachable_signed)
next
  fix r assume "r \<in> set (snd (fetch ops hs req))"
  then have granted: "rq_timeout r = http_timeout_for timeout
    \<and> (if network perms = [] then is_allowed (uo_parse ops) (ho_url_matcher ho) (rq_url r)
       else \<exists>p\<in>set (within_ceiling (um_raw (ho_url_matcher ho)) (network perms)).
              allows_with (uo_parse ops) True [p] (rq_url r))"
    unfolding assms(4,5) by (rule dispatched_fetch_granted)
  then show "rq_timeout r = http_timeout_for timeout" ..
  have "p \<in> set (network perms) \<and> (um_raw (ho_url_matcher ho) = [] \<or> p \<in> set (um_raw (ho_url_matcher ho)))"
    if "p \<in> set (within_ceiling (um_raw (ho_url_matcher ho)) (network perms))" for p
    using that by (auto simp: within_ceiling_def list_ex_iff split: if_splits)
  with granted show "if network perms = [] then is_allowed (uo_parse ops) (ho_url_matcher ho) (rq_url r)
      else \<exists>p\<in>set (network perms). (um_raw (ho_url_matcher ho) = [] \<or> p \<in> set (um_raw (ho_url_matcher ho)))
             \<and> allows_with (uo_parse ops) True [p] (rq_url r)"
    by (auto split: if_splits)
next
  show "is_ok (secrets_get hs uri) \<longrightarrow>
      (\<exists>d\<in>set (secrets perms). \<exists>below. resolve_uri uri = resolve_uri d @ below \<and> resolve_uri d \<noteq> [])"
    using secret_below_declaration [of hs uri] by (auto simp: is_ok_iff assms(4,5))
next
  show "is_ok (complete hs chat) \<longrightarrow>
      (\<exists>role\<in>set (llm_roles perms). \<forall>h. lq_role_hint chat = Some h \<longrightarrow> h = role)"
    unfolding is_ok_iff complete_def and_then_Inr_iff resolve_llm_role_iff
    by (auto simp: assms(4,5) split: option.splits)
qed

definition example_ops :: url_ops where
  "example_ops =
     \<lparr>uo_parse = example_parse, uo_join = (\<lambda>_ _. None), uo_clear_query = id, uo_clear_fragment = id,
      uo_clear_password = id, uo_clear_username = id, uo_to_uppercase = id\<rparr>"

definition example_client :: http_client where
  "example_client = \<lparr>hc_send = (\<lambda>_. Inl ''refused''), hc_hops = (\<lambda>_. [])\<rparr>"

definition example_overrides :: "(http_client, unit, unit) host_overrides" where
  "example_overrides = host_overrides_default
     \<lparr>ho_http_client := Some example_client,
      ho_url_matcher := from_patterns example_parse [''https://api.test/*'']\<rparr>"

definition example_guest :: "(http_client, unit, unit) host_state" where
  "example_guest = fst (dispatch_state (uo_parse example_ops) (example_extension ''e'' ''1'' ''K'')
     example_overrides call_context_default None)"

definition example_get :: guest_request where
  "example_get = \<lparr>gq_method = ''GET'', gq_url = ''https://api.test/v1'', gq_headers = [], gq_body = None\<rparr>"

lemma example_guest_fields:
  "hs_url_matcher example_guest = from_patterns example_parse [''https://api.test/*'']"
  "hs_http_client example_guest = Some example_client"
  by (simp_all add: example_guest_def example_overrides_def example_extension_def example_describe_def
      permissions_default_def effective_url_matcher_def)

lemma fetch_transport_error:
  assumes "is_allowed (uo_parse ops) (hs_url_matcher hs) (gq_url req)" and "hs_http_client hs = Some client"
    and "parse_method ops (gq_method req) = Inr m" and "\<And>sent. hc_send client sent = Inl e"
  shows "map rq_url (snd (fetch ops hs req)) = [gq_url req]"
  using assms by (simp add: fetch_def send_once_def)

lemma example_operator_allows:
  "is_allowed example_parse (from_patterns example_parse [''https://api.test/*'']) ''https://api.test/v1''"
  by (simp add: url_eval)

lemma example_fetch: "map rq_url (snd (fetch example_ops example_guest example_get)) = [''https://api.test/v1'']"
proof -
  from example_operator_allows have allowed: "is_allowed (uo_parse example_ops) (hs_url_matcher example_guest) (gq_url example_get)"
    by (simp only: example_guest_fields) (simp only: example_ops_def example_get_def url_ops.select_convs guest_request.select_convs)
  have "parse_method example_ops (gq_method example_get) = Inr GET"
    by (simp add: parse_method_def example_ops_def example_get_def)
  from fetch_transport_error [OF allowed example_guest_fields(2) this, of "''refused''"] show ?thesis
    by (simp add: example_client_def example_get_def)
qed

lemma map_singleton_mem: "map f xs = [y] \<Longrightarrow> \<exists>x\<in>set xs. f x = y"
  by (cases xs) auto

lemma example_lookup:
  "lookup (example_loaded ho ''1'' ''K'') ''e'' = Inr (example_extension ''e'' ''1'' ''K'')"
  by (simp add: lookup_def example_loaded_def)

theorem guest_confined_to_signed_describe_witness:
  "map rq_url (snd (fetch example_ops example_guest example_get)) = [''https://api.test/v1''] \<and>
   is_allowed example_parse (ho_url_matcher example_overrides) ''https://api.test/v1''"
proof -
  have signed: "\<not> he_allow_unsigned (ra_host example_api)" by simp
  have none: "network (d_permissions (le_describe (example_extension ''e'' ''1'' ''K''))) = []"
    by (simp add: example_extension_def example_describe_def permissions_default_def)
  from map_singleton_mem [OF example_fetch] obtain r
    where r: "r \<in> set (snd (fetch example_ops example_guest example_get))"
      and url: "rq_url r = ''https://api.test/v1''" ..
  note confined = guest_confined_to_signed_describe
    [OF example_reachable signed example_lookup example_guest_def refl, of example_get]
  from bspec [OF conjunct1 [OF conjunct2 [OF confined]] r]
  have "is_allowed (uo_parse example_ops) (ho_url_matcher example_overrides) (rq_url r)"
    by (simp only: none simp_thms if_True)
  then show ?thesis
    by (intro conjI example_fetch) (simp only: url example_ops_def url_ops.select_convs)
qed

section \<open>Capabilities are bound to signed extensions\<close>

text \<open>
  C14: Resolving requirements against the registry a reachable runtime publishes binds a capability only
  to an extension that is loaded under the id in the binding, whose describe offers the capability
  at the bound version and passed the signature check; that version satisfies a requirement of the
  consumer and none satisfying it is higher.
\<close>

theorem capability_bound_to_signed_extension:
  assumes "reachable api pinned rt" and "\<not> he_allow_unsigned (ra_host api)"
    and "map_of (rp_resolved (resolve (ra_semver api) (rn_registry rt) consumer required)) c = Some ob"
  shows "\<exists>ext cap req vr. lookup rt (ob_extension_id ob) = Inr ext
      \<and> verify_self_consistent (ra_env api) (le_describe ext) = Inr ()
      \<and> cap \<in> set (d_offered (le_describe ext)) \<and> oc_id cap = c
      \<and> parse_version (ra_semver api) (oc_version cap) = Inr (ob_version ob)
      \<and> req \<in> set required \<and> cr_id req = c
      \<and> parse_req (ra_semver api) (cr_version req) = Inr vr \<and> req_matches (ra_semver api) vr (ob_version ob)
      \<and> (\<forall>other. answers (ra_semver api) (rn_registry rt) req other \<longrightarrow> ob_version other \<le> ob_version ob)"
proof -
  from reachable_is_consistent [OF assms(1)] have m: "keys_distinct (rn_loaded rt)"
    and reg: "rebuild_registry (ra_semver api) (rn_loaded rt) = Inr (rn_registry rt)"
    by (simp_all add: consistent_def)
  from assms(3) obtain req where req: "req \<in> set required" "cr_id req = c"
    and best: "best_offer (ra_semver api) (rn_registry rt) req = Some ob"
    by (rule resolved_by_requirement)
  from best_offer_Some(1) [OF best] obtain vr os where vr: "parse_req (ra_semver api) (cr_version req) = Inr vr"
    and os: "map_of (rn_registry rt) c = Some os" "ob \<in> set os" and "req_matches (ra_semver api) vr (ob_version ob)"
    unfolding answers_def req(2) by blast
  moreover from os have "ob \<in> set (offerings (rn_registry rt))"
    unfolding offerings_def by (force dest: map_of_SomeD)
  with offerings_rebuilt [OF reg m] obtain ext cap where "map_of (rn_loaded rt) (ob_extension_id ob) = Some ext"
    and "cap \<in> set (d_offered (le_describe ext))" "ob_cap_id ob = oc_id cap"
    and "parse_version (ra_semver api) (oc_version cap) = Inr (ob_version ob)" by blast
  moreover from this(1) have found: "lookup rt (ob_extension_id ob) = Inr ext" by (simp add: lookup_def)
  moreover have "ob_cap_id ob = c" using offer_filed_under [OF reg os] .
  ultimately show ?thesis
    using req best_offer_Some(2) [OF best] reachable_signed [OF assms(1,2) found]
    by (intro exI [of _ ext] exI [of _ cap] exI [of _ req] exI [of _ vr] conjI allI impI) simp_all
qed

definition example_need :: capability_ref where
  "example_need = \<lparr>cr_id = ''cap'', cr_version = ''1''\<rparr>"

lemma example_bound:
  "map_of (rp_resolved (resolve (ra_semver example_api) (rn_registry (example_loaded ho ''1'' ''K'')) ''c'' [example_need]))
     ''cap'' = Some (example_binding ''1'')"
  by (simp add: resolve_def best_offer_def parse_requirement_def matching_offers_def example_semver_def
      example_loaded_def example_need_def example_binding_def)

theorem capability_bound_to_signed_extension_witness:
  "map_of (rp_resolved (resolve example_semver (rn_registry (example_loaded () ''1'' ''K'')) ''c'' [example_need])) ''cap''
     = Some (example_binding ''1'') \<and>
   (\<exists>ext. lookup (example_loaded () ''1'' ''K'') ''e'' = Inr ext \<and> verify_self_consistent example_env (le_describe ext) = Inr ())"
proof -
  have signed: "\<not> he_allow_unsigned (ra_host example_api)" by simp
  have e: "ob_extension_id (example_binding ''1'') = ''e''" by (simp add: example_binding_def)
  from capability_bound_to_signed_extension [OF example_reachable [of "()"] signed example_bound]
  obtain ext where "lookup (example_loaded () ''1'' ''K'') (ob_extension_id (example_binding ''1'')) = Inr ext"
    and "verify_self_consistent (ra_env example_api) (le_describe ext) = Inr ()"
    by (elim exE conjE)
  then have "\<exists>ext. lookup (example_loaded () ''1'' ''K'') ''e'' = Inr ext
      \<and> verify_self_consistent example_env (le_describe ext) = Inr ()"
    unfolding e example_api_fields by (intro exI conjI)
  with example_bound [of "()"] show ?thesis unfolding example_api_fields by (intro conjI)
qed

section \<open>A removed extension cannot be called\<close>

text \<open>
  C15: Once a removal event has been handled, an extension whose directory was gone answers no call: a
  tool call, a deployment and a guardrail evaluation all fail with \<open>NotFound\<close>, and no capability
  resolves to it any more.
\<close>

theorem removed_extension_cannot_be_called:
  assumes "reachable api pinned rt"
    and "(case home (rc_paths (rn_config rt)) of None \<Rightarrow> True | Some h \<Rightarrow> p \<noteq> join_name h STATE_FILENAME)"
    and "handle_fs_event api rt mo (Removed p) = (r, rt')"
    and "lookup rt x = Inr ext" and "has_vanished (mo_find mo) (le_source_dir ext)"
  shows "invoke_tool_ctx parse wa f3 f1 rt' x tool args ctx = Inl (NotFound x)
    \<and> deploy parse wa d2 d1 rt' x req = Inl (NotFound x)
    \<and> evaluate_guardrail dbg dto wire parse wa eg rt' x input = Inl (NotFound x)
    \<and> (\<forall>c ob. map_of (rp_resolved (resolve (ra_semver api) (rn_registry rt') consumer required)) c = Some ob
          \<longrightarrow> ob_extension_id ob \<noteq> x)"
proof -
  note c = reachable_is_consistent [OF assms(1)]
  have ev: "consistent (ra_semver api) rt'"
    and left: "rn_loaded rt' = filter (\<lambda>(x, ext). \<not> has_vanished (mo_find mo) (le_source_dir ext)) (rn_loaded rt)"
    unfolding removal_handled(2) [OF assms(2,3)] using evict_vanished_exact [OF c, of "mo_find mo"] by simp_all
  then have m: "keys_distinct (rn_loaded rt')"
    and reg: "rebuild_registry (ra_semver api) (rn_loaded rt') = Inr (rn_registry rt')"
    by (simp_all only: consistent_def)
  have "map_of (rn_loaded rt) x = Some ext" using assms(4) by (simp add: lookup_def result_simps)
  moreover have "keys_distinct (rn_loaded rt)" using c by (simp add: consistent_def)
  ultimately have gone: "map_of (rn_loaded rt') x = None"
    using assms(5) by (auto simp: left map_of_eq_None_iff mem_iff_map_of)
  have unbound: "ob_extension_id ob \<noteq> x" if "ob \<in> set (offerings (rn_registry rt'))" for ob
    using that gone by (auto simp: offerings_rebuilt [OF reg m])
  have "ob_extension_id ob \<noteq> x"
    if "map_of (rp_resolved (resolve (ra_semver api) (rn_registry rt') consumer required)) c = Some ob" for c ob
    using that by (rule resolved_is_offered [THEN unbound])
  then show ?thesis
    by (simp add: absent_fails [OF gone] invoke_tool_ctx_def deploy_versioned evaluate_guardrail_def)
qed

lemma example_no_home:
  "(case home (rc_paths (rn_config (example_loaded ho ''1'' ''K''))) of
      None \<Rightarrow> True | Some h \<Rightarrow> example_dir \<noteq> join_name h STATE_FILENAME)"
  by (simp add: example_loaded_def example_config_def from_paths_def discovery_new_def home_def parent_def)

lemma example_vanished:
  "has_vanished (mo_find \<lparr>mo_find = example_fs [RootDir] [], mo_gate = endless_fs, mo_load = endless_fs\<rparr>)
     (le_source_dir (example_extension x v key))"
  by (simp add: has_vanished_def example_fs_def example_extension_def example_dir_def Let_def)

theorem removed_extension_cannot_be_called_witness:
  "lookup (example_loaded example_overrides ''1'' ''K'') ''e'' = Inr (example_extension ''e'' ''1'' ''K'') \<and>
   (\<forall>(wa :: (string, http_client, unit, unit, unit, unit) wasm) f3 f1 tool args.
      invoke_tool_ctx example_parse wa f3 f1
        (snd (handle_fs_event example_api (example_loaded example_overrides ''1'' ''K'')
           \<lparr>mo_find = example_fs [RootDir] [], mo_gate = endless_fs, mo_load = endless_fs\<rparr> (Removed example_dir)))
        ''e'' tool args call_context_default = Inl (NotFound ''e''))"
proof (intro conjI allI)
  note removed = removed_extension_cannot_be_called
    [OF example_reachable example_no_home example_gone example_lookup example_vanished]
  show "invoke_tool_ctx example_parse wa f3 f1
        (snd (handle_fs_event example_api (example_loaded example_overrides ''1'' ''K'')
           \<lparr>mo_find = example_fs [RootDir] [], mo_gate = endless_fs, mo_load = endless_fs\<rparr> (Removed example_dir)))
        ''e'' tool args call_context_default = Inl (NotFound ''e'')"
    for wa :: "(string, http_client, unit, unit, unit, unit) wasm" and f3 f1 tool args
    unfolding example_gone snd_conv by (rule conjunct1 [OF removed])
qed (rule example_lookup)

end
